(* ===== verification/EI_Prelude.thy ===== *)
theory EI_Prelude
  imports Complex_Main "HOL-Library.Word"
begin

text \<open>
  Shared vocabulary of the development: Python results (a value or a raised
  exception), Python values as they come out of JSON and MessagePack, the
  language conversions the sources call (\<open>bool\<close>, \<open>int\<close>, \<open>float\<close>), dictionary
  access, and generic lemmas on lists and maps.

  Conventions.  A Python \<open>str\<close> is the \<open>string\<close> of its UTF-8 bytes: equality,
  emptiness, prefix, suffix and the order of strings agree with the order of
  the encodings, and \<open>len(s.encode("utf-8"))\<close> is \<open>length\<close>.  A Python \<open>int\<close> is
  an \<open>int\<close>.  A Python \<open>float\<close> is a \<open>pyfloat\<close>: a real number or one of the
  three special values; its arithmetic is exact, rounding is not modelled.
  NumPy \<open>float32\<close> data is kept as 32-bit words in the theory of tensors.  An
  exception keeps its class (\<open>OtherError\<close> for the classes of other packages) and the
  constant part of its message.
\<close>

section \<open>Collections of facts\<close>

named_theorems ei_defs \<open>definitions of the model unfolded by component proofs\<close>
named_theorems ei_inv \<open>preservation facts of component invariants\<close>

section \<open>Results\<close>

datatype pyerr =
    ProtocolError string
  | ValueError string
  | TypeError string
  | KeyError string
  | IndexError string
  | RuntimeError string
  | TimeoutError string
  | OverflowError string
  | NotImplementedError string
  | ConnectionError string
  | ActionHeadUnavailableError string
  | InvalidStateError string
  | AttributeError string
  | OtherError string

datatype 'a res = Err pyerr | Ok 'a

definition res_bind :: "'a res \<Rightarrow> ('a \<Rightarrow> 'b res) \<Rightarrow> 'b res" where
  "res_bind r f = (case r of Err e \<Rightarrow> Err e | Ok x \<Rightarrow> f x)"

definition guard_res :: "bool \<Rightarrow> pyerr \<Rightarrow> 'a res \<Rightarrow> 'a res" where
  "guard_res bad e k = (if bad then Err e else k)"

fun is_ok :: "'a res \<Rightarrow> bool" where
  "is_ok (Ok _) = True"
| "is_ok (Err _) = False"

text \<open>A list comprehension whose element expression may raise.\<close>

fun mapM :: "('a \<Rightarrow> 'b res) \<Rightarrow> 'a list \<Rightarrow> 'b list res" where
  "mapM f [] = Ok []"
| "mapM f (x # xs) =
     (case f x of Err e \<Rightarrow> Err e
      | Ok y \<Rightarrow> (case mapM f xs of Err e \<Rightarrow> Err e | Ok ys \<Rightarrow> Ok (y # ys)))"

section \<open>Python values\<close>

datatype pyfloat = Fin real | PInf | NInf | NaN

type_synonym byte = "8 word"

datatype pyval =
    PNone
  | PBool bool
  | PInt int
  | PFloat pyfloat
  | PStr string
  | PBytes "byte list"
  | PList "pyval list"
  | PDict "(pyval \<times> pyval) list"

type_synonym pydict = "(pyval \<times> pyval) list"

fun pf_finite :: "pyfloat \<Rightarrow> bool" where
  "pf_finite (Fin _) = True"
| "pf_finite _ = False"

fun pf_lt :: "pyfloat \<Rightarrow> pyfloat \<Rightarrow> bool" where
  "pf_lt (Fin a) (Fin b) = (a < b)"
| "pf_lt (Fin _) PInf = True"
| "pf_lt NInf (Fin _) = True"
| "pf_lt NInf PInf = True"
| "pf_lt _ _ = False"

fun pf_le :: "pyfloat \<Rightarrow> pyfloat \<Rightarrow> bool" where
  "pf_le (Fin a) (Fin b) = (a \<le> b)"
| "pf_le (Fin _) PInf = True"
| "pf_le NInf (Fin _) = True"
| "pf_le NInf PInf = True"
| "pf_le NInf NInf = True"
| "pf_le PInf PInf = True"
| "pf_le _ _ = False"

fun pf_sub :: "pyfloat \<Rightarrow> pyfloat \<Rightarrow> pyfloat" where
  "pf_sub (Fin a) (Fin b) = Fin (a - b)"
| "pf_sub NaN _ = NaN"
| "pf_sub _ NaN = NaN"
| "pf_sub PInf PInf = NaN"
| "pf_sub NInf NInf = NaN"
| "pf_sub PInf _ = PInf"
| "pf_sub NInf _ = NInf"
| "pf_sub _ PInf = NInf"
| "pf_sub _ NInf = PInf"

text \<open>\<open>d.get(key)\<close> and \<open>d.get(key, default)\<close>; \<open>None\<close> stands for the absent key.\<close>

definition dget :: "pydict \<Rightarrow> string \<Rightarrow> pyval option" where
  "dget d k = map_of d (PStr k)"

definition dget_none :: "pydict \<Rightarrow> string \<Rightarrow> pyval" where
  "dget_none d k = (case dget d k of None \<Rightarrow> PNone | Some v \<Rightarrow> v)"

definition dget_or :: "pydict \<Rightarrow> string \<Rightarrow> pyval \<Rightarrow> pyval" where
  "dget_or d k dflt = (case dget d k of None \<Rightarrow> dflt | Some v \<Rightarrow> v)"

text \<open>\<open>d[key]\<close>, which raises \<open>KeyError\<close>.\<close>

definition ditem :: "pydict \<Rightarrow> string \<Rightarrow> pyval res" where
  "ditem d k = (case dget d k of None \<Rightarrow> Err (KeyError k) | Some v \<Rightarrow> Ok v)"

text \<open>
  \<open>d[key] = value\<close> on a dictionary in insertion order, and a dictionary
  display \<open>{**d, k1: v1, ...}\<close>, where a later entry overrides an earlier one.
\<close>

fun dput :: "pydict \<Rightarrow> string \<Rightarrow> pyval \<Rightarrow> pydict" where
  "dput [] k v = [(PStr k, v)]"
| "dput ((k', v') # d) k v = (if k' = PStr k then (k', v) # d else (k', v') # dput d k v)"

fun ddisplay :: "pydict \<Rightarrow> (string \<times> pyval) list \<Rightarrow> pydict" where
  "ddisplay d [] = d"
| "ddisplay d ((k, v) # kvs) = ddisplay (dput d k v) kvs"

text \<open>\<open>isinstance\<close> tests; a Python \<open>bool\<close> is an \<open>int\<close>.\<close>

fun is_pyint :: "pyval \<Rightarrow> bool" where
  "is_pyint (PInt _) = True"
| "is_pyint (PBool _) = True"
| "is_pyint _ = False"

fun pyint_val :: "pyval \<Rightarrow> int" where
  "pyint_val (PInt i) = i"
| "pyint_val (PBool b) = (if b then 1 else 0)"
| "pyint_val _ = 0"

fun is_pynum :: "pyval \<Rightarrow> bool" where
  "is_pynum (PFloat _) = True"
| "is_pynum v = is_pyint v"

fun pynum_val :: "pyval \<Rightarrow> pyfloat" where
  "pynum_val (PFloat f) = f"
| "pynum_val v = Fin (of_int (pyint_val v))"

fun is_pystr :: "pyval \<Rightarrow> bool" where
  "is_pystr (PStr _) = True"
| "is_pystr _ = False"

fun is_pydict :: "pyval \<Rightarrow> bool" where
  "is_pydict (PDict _) = True"
| "is_pydict _ = False"

text \<open>Truthiness, \<open>bool(value)\<close>.\<close>

fun py_bool :: "pyval \<Rightarrow> bool" where
  "py_bool PNone = False"
| "py_bool (PBool b) = b"
| "py_bool (PInt i) = (i \<noteq> 0)"
| "py_bool (PFloat f) = (f \<noteq> Fin 0)"
| "py_bool (PStr s) = (s \<noteq> [])"
| "py_bool (PBytes b) = (b \<noteq> [])"
| "py_bool (PList l) = (l \<noteq> [])"
| "py_bool (PDict d) = (d \<noteq> [])"

text \<open>
  Numeric literals accepted by \<open>int(str)\<close> and \<open>float(str)\<close>: ASCII digits with
  single underscores between them, an optional sign, surrounding ASCII blanks;
  for floats a fraction, an exponent, or one of the special names.
\<close>

definition ascii_blank :: "char \<Rightarrow> bool" where
  "ascii_blank c = (c = CHR '' '' \<or> (9 \<le> (of_char c :: nat) \<and> (of_char c :: nat) \<le> 13))"

definition strip_blanks :: "string \<Rightarrow> string" where
  "strip_blanks s = rev (dropWhile ascii_blank (rev (dropWhile ascii_blank s)))"

definition is_digit :: "char \<Rightarrow> bool" where
  "is_digit c = (48 \<le> (of_char c :: nat) \<and> (of_char c :: nat) \<le> 57)"

definition digit_val :: "char \<Rightarrow> nat" where
  "digit_val c = of_char c - 48"

text \<open>Digits with underscores: the value and the number of digits, or \<open>None\<close>.\<close>

fun digits_from :: "nat \<Rightarrow> nat \<Rightarrow> string \<Rightarrow> (nat \<times> nat) option" where
  "digits_from n k [] = Some (n, k)"
| "digits_from n k (c # cs) =
     (if is_digit c then digits_from (10 * n + digit_val c) (Suc k) cs
      else if c = CHR ''_'' then
        (case cs of [] \<Rightarrow> None
         | d # ds \<Rightarrow> if is_digit d then digits_from (10 * n + digit_val d) (Suc k) ds else None)
      else None)"

definition digits :: "string \<Rightarrow> (nat \<times> nat) option" where
  "digits s = (case s of [] \<Rightarrow> None
               | c # cs \<Rightarrow> if is_digit c then digits_from (digit_val c) 1 cs else None)"

definition split_sign :: "string \<Rightarrow> bool \<times> string" where
  "split_sign s = (case s of [] \<Rightarrow> (False, [])
                   | c # cs \<Rightarrow> if c = CHR ''-'' then (True, cs)
                              else if c = CHR ''+'' then (False, cs) else (False, s))"

definition int_of_str :: "string \<Rightarrow> int option" where
  "int_of_str s =
     (let (neg, body) = split_sign (strip_blanks s)
      in map_option (\<lambda>(n, _). if neg then - int n else int n) (digits body))"

definition lower_char :: "char \<Rightarrow> char" where
  "lower_char c = (if 65 \<le> (of_char c :: nat) \<and> (of_char c :: nat) \<le> 90
                   then char_of (of_char c + 32 :: nat) else c)"

definition mantissa :: "string \<Rightarrow> real option" where
  "mantissa s =
     (let ip = takeWhile (\<lambda>c. c \<noteq> CHR ''.'') s;
          rest = dropWhile (\<lambda>c. c \<noteq> CHR ''.'') s
      in case rest of
           [] \<Rightarrow> map_option (\<lambda>(n, _). real n) (digits ip)
         | _ # fp \<Rightarrow>
             (if ip = [] then map_option (\<lambda>(m, k). real m / 10 ^ k) (digits fp)
              else if fp = [] then map_option (\<lambda>(n, _). real n) (digits ip)
              else (case (digits ip, digits fp) of
                      (Some (n, _), Some (m, k)) \<Rightarrow> Some (real n + real m / 10 ^ k)
                    | _ \<Rightarrow> None)))"

definition float_of_str :: "string \<Rightarrow> pyfloat option" where
  "float_of_str s =
     (let (neg, body0) = split_sign (strip_blanks s);
          body = map lower_char body0;
          sg = (\<lambda>r :: real. if neg then - r else r);
          me = takeWhile (\<lambda>c. c \<noteq> CHR ''e'') body;
          ex = dropWhile (\<lambda>c. c \<noteq> CHR ''e'') body
      in if body = ''nan'' then Some NaN
         else if body = ''inf'' \<or> body = ''infinity'' then Some (if neg then NInf else PInf)
         else case ex of
             [] \<Rightarrow> map_option (\<lambda>r. Fin (sg r)) (mantissa me)
           | _ # xs \<Rightarrow>
               (let (eneg, ed) = split_sign xs
                in case (mantissa me, digits ed) of
                     (Some r, Some (k, _)) \<Rightarrow> Some (Fin (sg (if eneg then r / 10 ^ k else r * 10 ^ k)))
                   | _ \<Rightarrow> None))"

definition trunc_real :: "real \<Rightarrow> int" where
  "trunc_real r = (if r < 0 then - \<lfloor>- r\<rfloor> else \<lfloor>r\<rfloor>)"

definition bytes_text :: "byte list \<Rightarrow> string" where
  "bytes_text bs = map (\<lambda>b. char_of (unat b)) bs"

fun py_int :: "pyval \<Rightarrow> int res" where
  "py_int (PInt i) = Ok i"
| "py_int (PBool b) = Ok (if b then 1 else 0)"
| "py_int (PFloat (Fin r)) = Ok (trunc_real r)"
| "py_int (PFloat NaN) = Err (ValueError ''cannot convert float NaN to integer'')"
| "py_int (PFloat _) = Err (OverflowError ''cannot convert float infinity to integer'')"
| "py_int (PStr s) = (case int_of_str s of
      None \<Rightarrow> Err (ValueError ''invalid literal for int() with base 10'') | Some i \<Rightarrow> Ok i)"
| "py_int (PBytes b) = (case int_of_str (bytes_text b) of
      None \<Rightarrow> Err (ValueError ''invalid literal for int() with base 10'') | Some i \<Rightarrow> Ok i)"
| "py_int _ = Err (TypeError ''int() argument must be a string or a real number'')"

fun py_float :: "pyval \<Rightarrow> pyfloat res" where
  "py_float (PFloat f) = Ok f"
| "py_float (PInt i) = Ok (Fin (of_int i))"
| "py_float (PBool b) = Ok (Fin (if b then 1 else 0))"
| "py_float (PStr s) = (case float_of_str s of
      None \<Rightarrow> Err (ValueError ''could not convert string to float'') | Some f \<Rightarrow> Ok f)"
| "py_float (PBytes b) = (case float_of_str (bytes_text b) of
      None \<Rightarrow> Err (ValueError ''could not convert string to float'') | Some f \<Rightarrow> Ok f)"
| "py_float _ = Err (TypeError ''float() argument must be a string or a real number'')"

text \<open>\<open>str(value)\<close>: the text of a value that is not a string is a parameter.\<close>

definition py_str :: "(pyval \<Rightarrow> string) \<Rightarrow> pyval \<Rightarrow> string" where
  "py_str show_val v = (case v of PStr s \<Rightarrow> s | _ \<Rightarrow> show_val v)"

text \<open>The values a \<open>for\<close> loop sees; a \<open>str\<close> gives its characters, a \<open>dict\<close> its keys.\<close>

fun py_iter :: "pyval \<Rightarrow> pyval list res" where
  "py_iter (PList xs) = Ok xs"
| "py_iter (PStr s) = Ok (map (\<lambda>c. PStr [c]) s)"
| "py_iter (PBytes bs) = Ok (map (\<lambda>b. PInt (uint b)) bs)"
| "py_iter (PDict d) = Ok (map fst d)"
| "py_iter _ = Err (TypeError ''object is not iterable'')"

text \<open>\<open>tuple(config.get("camera_order", ...))\<close>; camera names in a configuration are strings.\<close>

fun str_item :: "pyval \<Rightarrow> string res" where
  "str_item (PStr s) = Ok s"
| "str_item _ = Err (TypeError ''camera name must be a string'')"

fun camera_names :: "pyval \<Rightarrow> string list res" where
  "camera_names (PList vs) = mapM str_item vs"
| "camera_names (PStr s) = Ok (map (\<lambda>c. [c]) s)"
| "camera_names (PDict d) = mapM str_item (map fst d)"
| "camera_names _ = Err (TypeError ''object is not iterable'')"

text \<open>Python's \<open>round\<close>: to the nearest integer, ties to the even one.\<close>

definition round_half_even :: "real \<Rightarrow> int" where
  "round_half_even x =
     (let f = \<lfloor>x\<rfloor>; d = x - of_int f
      in if d < 1 / 2 then f else if d > 1 / 2 then f + 1 else if even f then f else f + 1)"

fun pf_real :: "pyfloat \<Rightarrow> real" where
  "pf_real (Fin r) = r"
| "pf_real _ = 0"

section \<open>Generic lemmas\<close>

lemma res_bind_Ok [simp]: "res_bind (Ok x) f = f x"
  by (simp add: res_bind_def)

lemma res_bind_Err [simp]: "res_bind (Err e) f = Err e"
  by (simp add: res_bind_def)

lemma res_bind_eq_Ok [simp]: "(res_bind r f = Ok y) = (\<exists>x. r = Ok x \<and> f x = Ok y)"
  by (cases r) simp_all

lemma res_bind_eq_Err: "(res_bind r f = Err e) = (r = Err e \<or> (\<exists>x. r = Ok x \<and> f x = Err e))"
  by (cases r) simp_all

lemma guard_res_eq_Ok [simp]: "(guard_res b e k = Ok y) = (\<not> b \<and> k = Ok y)"
  by (simp add: guard_res_def)

lemma guard_res_False [simp]: "guard_res False e k = k"
  by (simp add: guard_res_def)

lemma guard_res_True [simp]: "guard_res True e k = Err e"
  by (simp add: guard_res_def)

lemma le_mult_pos: "0 < (b :: nat) \<Longrightarrow> a \<le> a * b"
  by (cases b) simp_all

lemma is_ok_iff: "is_ok r = (\<exists>x. r = Ok x)"
  by (cases r) simp_all

lemma mapM_eq_Ok: "(mapM f xs = Ok ys) = list_all2 (\<lambda>x y. f x = Ok y) xs ys"
proof (induction xs arbitrary: ys)
  case Nil
  then show ?case by auto
next
  case (Cons x xs)
  show ?case
    by (cases ys) (auto simp: Cons.IH [symmetric] split: res.splits)
qed

lemma mapM_length: "mapM f xs = Ok ys \<Longrightarrow> length ys = length xs"
  by (auto simp: mapM_eq_Ok dest: list_all2_lengthD)

lemma mapM_nth: "mapM f xs = Ok ys \<Longrightarrow> i < length xs \<Longrightarrow> f (xs ! i) = Ok (ys ! i)"
  by (auto simp: mapM_eq_Ok dest: list_all2_nthD)

lemma mapM_cong_Ok: "(\<And>x. x \<in> set xs \<Longrightarrow> f x = Ok (g x)) \<Longrightarrow> mapM f xs = Ok (map g xs)"
  by (induction xs) auto

lemma mapM_cong: "xs = ys \<Longrightarrow> (\<And>x. x \<in> set ys \<Longrightarrow> f x = g x) \<Longrightarrow> mapM f xs = mapM g ys"
  by (induction ys arbitrary: xs) (auto split: res.splits)

lemma mapM_map: "mapM f (map g xs) = mapM (\<lambda>x. f (g x)) xs"
  by (induction xs) (auto split: res.splits)

lemma mapM_Err: "mapM f xs = Err e \<Longrightarrow> \<exists>x \<in> set xs. f x = Err e"
  by (induction xs) (auto split: res.splits)

lemma dget_Cons: "dget ((k, v) # d) n = (if k = PStr n then Some v else dget d n)"
  by (simp add: dget_def)

lemma dget_Nil: "dget [] n = None"
  by (simp add: dget_def)

lemmas dget_simps [simp] = dget_Cons dget_Nil

lemma dget_dput: "dget (dput d k v) n = (if n = k then Some v else dget d n)"
  by (induction d k v rule: dput.induct) auto

lemma dget_ddisplay_notin: "n \<notin> fst ` set kvs \<Longrightarrow> dget (ddisplay d kvs) n = dget d n"
  by (induction d kvs rule: ddisplay.induct) (auto simp: dget_dput)

lemma dget_ddisplay:
  "distinct (map fst kvs) \<Longrightarrow> (n, v) \<in> set kvs \<Longrightarrow> dget (ddisplay d kvs) n = Some v"
proof (induction d kvs rule: ddisplay.induct)
  case (1 d)
  then show ?case by simp
next
  case (2 d k w kvs)
  then show ?case
    by (cases "n = k") (auto simp: dget_ddisplay_notin dget_dput image_iff)
qed

lemma is_pynum_float [simp]: "is_pynum (PFloat f)"
  by simp

section \<open>Rounding\<close>

lemma round_half_even_error: "\<bar>of_int (round_half_even x) - x\<bar> \<le> 1 / 2"
  using floor_correct [of x] by (auto simp: round_half_even_def Let_def abs_le_iff)

lemma round_half_even_int [simp]: "round_half_even (of_int n) = n"
  by (simp add: round_half_even_def)

lemma round_half_even_mono: "x \<le> y \<Longrightarrow> round_half_even x \<le> round_half_even y"
proof -
  assume le: "x \<le> y"
  then have "\<lfloor>x\<rfloor> \<le> \<lfloor>y\<rfloor>" by (rule floor_mono)
  moreover have "round_half_even x \<le> \<lfloor>x\<rfloor> + 1" "\<lfloor>y\<rfloor> \<le> round_half_even y"
    by (simp_all add: round_half_even_def Let_def)
  moreover have "round_half_even x \<le> round_half_even y" if "\<lfloor>x\<rfloor> = \<lfloor>y\<rfloor>"
    using that le by (auto simp: round_half_even_def Let_def)
  ultimately show ?thesis by linarith
qed

lemma round_half_even_minus: "round_half_even (- x) = - round_half_even x"
proof (cases "x \<in> \<int>")
  case True
  then obtain n where n: "x = of_int n" by (auto elim: Ints_cases)
  from round_half_even_int [of "- n"] n show ?thesis by simp
next
  case False
  then have "x \<noteq> of_int \<lfloor>x\<rfloor>" by (metis Ints_of_int)
  then have f: "\<lfloor>- x\<rfloor> = - \<lfloor>x\<rfloor> - 1" by (simp add: floor_minus ceiling_altdef)
  then show ?thesis by (auto simp: round_half_even_def Let_def)
qed

end
