(* ===== verification/Tensors.thy ===== *)
theory Tensors
  imports EI_Prelude
begin

text \<open>
  NumPy arrays as the sources use them.  An array is its element type, its
  shape and its C-order bytes, so that the wire format is modelled to the
  bit.  A \<open>float32\<close> is its 32-bit pattern (\<open>f32\<close>): copying, selecting and
  comparing are exact, and rounding arithmetic enters the model only as a
  parameter of the definitions that need it.
\<close>

unbundle bit_operations_syntax

section \<open>Single-precision floats\<close>

type_synonym f32 = "32 word"

definition f32_exponent :: "f32 \<Rightarrow> nat" where
  "f32_exponent w = unat (take_bit 8 (drop_bit 23 w))"

definition f32_mantissa :: "f32 \<Rightarrow> nat" where
  "f32_mantissa w = unat (take_bit 23 w)"

text \<open>\<open>np.isfinite\<close>: neither an infinity nor a NaN, whose exponent is all ones.\<close>

definition f32_finite :: "f32 \<Rightarrow> bool" where
  "f32_finite w = (f32_exponent w \<noteq> 255)"

text \<open>The real number a finite pattern denotes (IEEE 754 binary32).\<close>

definition f32_real :: "f32 \<Rightarrow> real" where
  "f32_real w =
     (if bit w 31 then - 1 else 1) *
     (if f32_exponent w = 0 then real (f32_mantissa w) / 2 ^ 149
      else (2 ^ 23 + real (f32_mantissa w)) * 2 ^ f32_exponent w / 2 ^ 150)"

definition f32_zero :: f32 where
  "f32_zero = 0"

definition f32_one :: f32 where
  "f32_one = 0x3F800000"

definition f32_lt :: "f32 \<Rightarrow> f32 \<Rightarrow> bool" where
  "f32_lt a b = (f32_real a < f32_real b)"

text \<open>Little-endian bytes of a pattern and back.\<close>

definition f32_bytes :: "f32 \<Rightarrow> byte list" where
  "f32_bytes w = [ucast w, ucast (drop_bit 8 w), ucast (drop_bit 16 w), ucast (drop_bit 24 w)]"

definition f32_of_bytes :: "byte \<Rightarrow> byte \<Rightarrow> byte \<Rightarrow> byte \<Rightarrow> f32" where
  "f32_of_bytes a b c d =
     ucast a OR push_bit 8 (ucast b) OR push_bit 16 (ucast c) OR push_bit 24 (ucast d)"

fun f32s_of_bytes :: "byte list \<Rightarrow> f32 list" where
  "f32s_of_bytes (a # b # c # d # rest) = f32_of_bytes a b c d # f32s_of_bytes rest"
| "f32s_of_bytes _ = []"

definition bytes_of_f32s :: "f32 list \<Rightarrow> byte list" where
  "bytes_of_f32s ws = concat (map f32_bytes ws)"

section \<open>Arrays\<close>

text \<open>The element types the wire format knows, their big-endian variants, and any other.\<close>

datatype dtype = DU8 | DI32 | DF32 | DI32BE | DF32BE | DOther string nat

fun itemsize :: "dtype \<Rightarrow> nat" where
  "itemsize DU8 = 1"
| "itemsize DI32 = 4"
| "itemsize DF32 = 4"
| "itemsize DI32BE = 4"
| "itemsize DF32BE = 4"
| "itemsize (DOther _ n) = n"

record ndarray =
  nd_dtype :: dtype
  nd_shape :: "nat list"
  nd_data :: "byte list"

definition nd_wf :: "ndarray \<Rightarrow> bool" where
  "nd_wf a = (length (nd_data a) = prod_list (nd_shape a) * itemsize (nd_dtype a))"

abbreviation nd_ndim :: "ndarray \<Rightarrow> nat" where
  "nd_ndim a \<equiv> length (nd_shape a)"

text \<open>\<open>np.ascontiguousarray\<close> returns at least one dimension.\<close>

definition ascontiguous :: "ndarray \<Rightarrow> ndarray" where
  "ascontiguous a = (if nd_shape a = [] then a\<lparr>nd_shape := [1]\<rparr> else a)"

text \<open>
  Conversion to an element type: nothing to do when the array has it already;
  otherwise NumPy's cast, a parameter (it may raise).
\<close>

definition as_dtype :: "(dtype \<Rightarrow> ndarray \<Rightarrow> ndarray res) \<Rightarrow> dtype \<Rightarrow> ndarray \<Rightarrow> ndarray res" where
  "as_dtype cast d a = (if nd_dtype a = d then Ok a else cast d a)"

definition nd_f32s :: "ndarray \<Rightarrow> f32 list" where
  "nd_f32s a = f32s_of_bytes (nd_data a)"

definition nd_isfinite :: "ndarray \<Rightarrow> bool" where
  "nd_isfinite a = list_all f32_finite (nd_f32s a)"

definition nd_of_f32s :: "nat list \<Rightarrow> f32 list \<Rightarrow> ndarray" where
  "nd_of_f32s sh ws = \<lparr>nd_dtype = DF32, nd_shape = sh, nd_data = bytes_of_f32s ws\<rparr>"

text \<open>The rows of an array of rank two.\<close>

fun chunks :: "nat \<Rightarrow> nat \<Rightarrow> 'a list \<Rightarrow> 'a list list" where
  "chunks 0 w xs = []"
| "chunks (Suc n) w xs = take w xs # chunks n w (drop w xs)"

section \<open>Lemmas\<close>

lemma f32_finite_samples [simp]: "f32_finite f32_zero" "f32_finite f32_one"
  by (simp_all add: f32_finite_def f32_exponent_def f32_zero_def f32_one_def drop_bit_eq_div take_bit_eq_mod)

lemma length_f32_bytes [simp]: "length (f32_bytes w) = 4"
  by (simp add: f32_bytes_def)

lemma length_bytes_of_f32s [simp]: "length (bytes_of_f32s ws) = 4 * length ws"
  by (induction ws) (simp_all add: bytes_of_f32s_def)

lemma bytes_of_f32s_simps [simp]:
  "bytes_of_f32s [] = []"
  "bytes_of_f32s (w # ws) = f32_bytes w @ bytes_of_f32s ws"
  by (simp_all add: bytes_of_f32s_def)

lemma f32_of_bytes_ucast:
  "f32_of_bytes (ucast w) (ucast (drop_bit 8 w)) (ucast (drop_bit 16 w)) (ucast (drop_bit 24 w)) = w"
  unfolding f32_of_bytes_def
  by (rule bit_word_eqI, subgoal_tac "n < 24 \<or> 24 \<le> n")
    (auto simp: bit_or_iff bit_push_bit_iff bit_ucast_iff bit_drop_bit_eq not_less)

lemma f32s_of_bytes_append [simp]: "f32s_of_bytes (f32_bytes w @ bs) = w # f32s_of_bytes bs"
  by (simp add: f32_bytes_def f32_of_bytes_ucast)

lemma f32s_of_bytes_of_f32s [simp]: "f32s_of_bytes (bytes_of_f32s ws) = ws"
  by (induction ws) simp_all

lemma nd_f32s_of_f32s [simp]: "nd_f32s (nd_of_f32s sh ws) = ws"
  by (simp add: nd_f32s_def nd_of_f32s_def)

lemma nd_of_f32s_fields [simp]:
  "nd_dtype (nd_of_f32s sh ws) = DF32" "nd_shape (nd_of_f32s sh ws) = sh"
  by (simp_all add: nd_of_f32s_def)

lemma nd_wf_of_f32s: "nd_wf (nd_of_f32s sh ws) = (length ws = prod_list sh)"
  by (auto simp: nd_wf_def nd_of_f32s_def)

lemma length_f32s_of_bytes: "length (f32s_of_bytes bs) = length bs div 4"
  by (induction bs rule: f32s_of_bytes.induct) simp_all

lemma nd_wf_length_f32s:
  "nd_wf a \<Longrightarrow> nd_dtype a = DF32 \<Longrightarrow> length (nd_f32s a) = prod_list (nd_shape a)"
  by (simp add: nd_wf_def nd_f32s_def length_f32s_of_bytes)

lemma length_chunks [simp]: "length (chunks n w xs) = n"
  by (induction n arbitrary: xs) simp_all

lemma chunks_concat:
  "\<forall>r \<in> set rs. length r = w \<Longrightarrow> chunks (length rs) w (concat rs) = rs"
  by (induction rs) auto

lemma concat_chunks: "length xs = n * w \<Longrightarrow> concat (chunks n w xs) = xs"
  by (induction n arbitrary: xs) simp_all

lemma chunks_width: "length xs = n * w \<Longrightarrow> r \<in> set (chunks n w xs) \<Longrightarrow> length r = w"
proof (induction n arbitrary: xs)
  case 0
  then show ?case by simp
next
  case (Suc n)
  from Suc.prems(2) have "r = take w xs \<or> r \<in> set (chunks n w (drop w xs))"
    by simp
  with Suc.prems(1) Suc.IH [of "drop w xs"] show ?case by auto
qed

lemma ascontiguous_id [simp]: "nd_shape a \<noteq> [] \<Longrightarrow> ascontiguous a = a"
  by (simp add: ascontiguous_def)

lemma ascontiguous_dtype [simp]: "nd_dtype (ascontiguous a) = nd_dtype a"
  by (simp add: ascontiguous_def)

lemma ascontiguous_data [simp]: "nd_data (ascontiguous a) = nd_data a"
  by (simp add: ascontiguous_def)

lemma ascontiguous_wf [simp]: "nd_wf (ascontiguous a) = nd_wf a"
  by (simp add: ascontiguous_def nd_wf_def)

lemma as_dtype_same [simp]: "nd_dtype a = d \<Longrightarrow> as_dtype cast d a = Ok a"
  by (simp add: as_dtype_def)

end
