(* ===== verification/Contracts.thy ===== *)
theory Contracts
  imports Tensors
begin

text \<open>
  The model-neutral contracts of \<open>core/contracts.py\<close>, \<open>core/request.py\<close> and
  \<open>core/runner.py\<close>: the static tensor contract of a model (\<open>ModelSpec\<close>) with the
  checks of its constructor, the metadata it publishes, the checks it applies
  to requests and to action chunks; the request envelope; the sequential
  runner.  The canonical request (the dictionary \<open>parse_infer_request\<close> returns)
  is the record \<open>infer_req\<close>.
\<close>

section \<open>Canonical request and result\<close>

record infer_req =
  rq_request_id :: int
  rq_control_step :: int
  rq_timestamp_ns :: int
  rq_timeout_ms :: pyfloat
  rq_instruction :: string
  rq_images :: "(string \<times> ndarray) list"
  rq_image_timestamps :: "(string \<times> int) list"
  rq_state :: ndarray

record backend_result =
  br_actions :: ndarray
  br_representation :: string
  br_control_period_ns :: int
  br_timing :: "(string \<times> pyfloat) list"

section \<open>ModelSpec\<close>

record model_spec =
  ms_name :: string
  ms_backend :: string
  ms_raw_state_dim :: int
  ms_model_state_dim :: int
  ms_raw_action_dim :: int
  ms_model_action_dim :: int
  ms_action_horizon :: int
  ms_camera_order :: "string list"
  ms_action_representation :: string
  ms_control_period_ns :: int
  ms_extras :: pydict

definition action_representations :: "string list" where
  "action_representations = [''absolute'', ''delta'', ''relative'']"

definition model_spec_post_init :: "model_spec \<Rightarrow> model_spec res" where
  "model_spec_post_init s =
     (let dimensions = [ms_raw_state_dim s, ms_model_state_dim s, ms_raw_action_dim s,
                        ms_model_action_dim s, ms_action_horizon s]
      in if ms_name s = [] \<or> ms_backend s = []
         then Err (ValueError ''model name and backend must be non-empty'')
         else if list_ex (\<lambda>v. v \<le> 0) dimensions
         then Err (ValueError ''model dimensions and action horizon must be positive'')
         else if ms_camera_order s = [] \<or>
                 length (remdups (ms_camera_order s)) \<noteq> length (ms_camera_order s)
         then Err (ValueError ''camera_order must contain unique camera names'')
         else if \<not> List.member action_representations (ms_action_representation s)
         then Err (ValueError ''unsupported action representation'')
         else if ms_control_period_ns s < 0
         then Err (ValueError ''control_period_ns must be non-negative'')
         else Ok s)"

definition model_spec_wf :: "model_spec \<Rightarrow> bool" where
  "model_spec_wf s =
     (ms_name s \<noteq> [] \<and> ms_backend s \<noteq> [] \<and>
      0 < ms_raw_state_dim s \<and> 0 < ms_model_state_dim s \<and>
      0 < ms_raw_action_dim s \<and> 0 < ms_model_action_dim s \<and> 0 < ms_action_horizon s \<and>
      ms_camera_order s \<noteq> [] \<and> distinct (ms_camera_order s) \<and>
      ms_action_representation s \<in> {''absolute'', ''delta'', ''relative''} \<and>
      0 \<le> ms_control_period_ns s)"

definition spec_fields :: "model_spec \<Rightarrow> (string \<times> pyval) list" where
  "spec_fields s =
     [(''backend'', PStr (ms_backend s)),
      (''model'', PStr (ms_name s)),
      (''raw_state_dim'', PInt (ms_raw_state_dim s)),
      (''model_state_dim'', PInt (ms_model_state_dim s)),
      (''raw_action_dim'', PInt (ms_raw_action_dim s)),
      (''model_action_dim'', PInt (ms_model_action_dim s)),
      (''state_dim'', PInt (ms_model_state_dim s)),
      (''action_dim'', PInt (ms_model_action_dim s)),
      (''action_horizon'', PInt (ms_action_horizon s)),
      (''action_representation'', PStr (ms_action_representation s)),
      (''camera_order'', PList (map PStr (ms_camera_order s))),
      (''control_period_ns'', PInt (ms_control_period_ns s))]"

definition spec_metadata :: "model_spec \<Rightarrow> pydict" where
  "spec_metadata s = ddisplay (ms_extras s) (spec_fields s)"

definition missing_cameras :: "model_spec \<Rightarrow> infer_req \<Rightarrow> string list" where
  "missing_cameras s r = filter (\<lambda>n. map_of (rq_images r) n = None) (ms_camera_order s)"

definition validate_request :: "model_spec \<Rightarrow> infer_req \<Rightarrow> unit res" where
  "validate_request s r =
     (if map int (nd_shape (rq_state r)) \<noteq> [ms_model_state_dim s]
      then Err (ValueError ''model state must have shape'')
      else if missing_cameras s r \<noteq> []
      then Err (ValueError ''missing required cameras'')
      else Ok ())"

text \<open>The images of a request in the order of the model's cameras, as every backend takes them.\<close>

definition spec_images :: "model_spec \<Rightarrow> infer_req \<Rightarrow> ndarray list res" where
  "spec_images spec request =
     mapM (\<lambda>name. case map_of (rq_images request) name of None \<Rightarrow> Err (KeyError name) | Some a \<Rightarrow> Ok a)
       (ms_camera_order spec)"

text \<open>The conversion \<open>np.asarray(actions, dtype=np.float32)\<close> is \<open>as_dtype\<close> with NumPy's cast.\<close>

definition validate_actions ::
    "(dtype \<Rightarrow> ndarray \<Rightarrow> ndarray res) \<Rightarrow> model_spec \<Rightarrow> ndarray \<Rightarrow> ndarray res" where
  "validate_actions cast s actions =
     res_bind (as_dtype cast DF32 actions) (\<lambda>v.
       if map int (nd_shape v) \<noteq> [ms_action_horizon s, ms_model_action_dim s]
       then Err (ValueError ''model actions must have shape'')
       else if \<not> nd_isfinite v
       then Err (ValueError ''model actions contain NaN or infinity'')
       else Ok (ascontiguous v))"

text \<open>What the rest of the system may assume of a chunk that passed the check.\<close>

definition chunk_ok :: "model_spec \<Rightarrow> ndarray \<Rightarrow> bool" where
  "chunk_ok s a =
     (map int (nd_shape a) = [ms_action_horizon s, ms_model_action_dim s] \<and> nd_isfinite a)"

section \<open>Request envelope\<close>

text \<open>
  The envelope reads two keys of its payload; everything else in the payload
  is passed through unread.
\<close>

record 'b payload =
  pl_request_id :: "pyval option"
  pl_timeout_ms :: "pyval option"
  pl_body :: 'b

record 'b inference_request =
  ir_payload :: "'b payload"
  ir_deadline :: "pyfloat option"

definition ir_request_id :: "'b inference_request \<Rightarrow> int res" where
  "ir_request_id r =
     py_int (case pl_request_id (ir_payload r) of None \<Rightarrow> PInt 0 | Some v \<Rightarrow> v)"

definition ir_timeout_ms :: "'b inference_request \<Rightarrow> pyfloat res" where
  "ir_timeout_ms r =
     py_float (case pl_timeout_ms (ir_payload r) of None \<Rightarrow> PInt 300000 | Some v \<Rightarrow> v)"

definition as_backend_request :: "'b inference_request \<Rightarrow> 'b payload" where
  "as_backend_request r = ir_payload r"

section \<open>Sequential runner\<close>

text \<open>A backend's \<open>infer\<close> may change the backend's state \<open>'s\<close> and may raise.\<close>

fun sequential_execute ::
    "('s \<Rightarrow> 'b payload \<Rightarrow> 's \<times> 'o res) \<Rightarrow> 's \<Rightarrow> 'b inference_request list \<Rightarrow> 's \<times> 'o list res" where
  "sequential_execute infer s [] = (s, Ok [])"
| "sequential_execute infer s (r # rs) =
     (case infer s (as_backend_request r) of
        (s', Err e) \<Rightarrow> (s', Err e)
      | (s', Ok o1) \<Rightarrow>
          (case sequential_execute infer s' rs of
             (s'', Err e) \<Rightarrow> (s'', Err e)
           | (s'', Ok os) \<Rightarrow> (s'', Ok (o1 # os))))"

section \<open>Properties\<close>

lemma length_remdups_distinct: "(length (remdups xs) = length xs) = distinct xs"
  by (metis distinct_remdups distinct_remdups_id length_remdups_eq)

lemma model_spec_post_init_Ok_iff:
  "(model_spec_post_init s = Ok t) = (t = s \<and> model_spec_wf s)"
  by (auto simp: model_spec_post_init_def model_spec_wf_def Let_def action_representations_def
      length_remdups_distinct not_le)

lemma validate_actions_Ok: "validate_actions cast s a = Ok v \<Longrightarrow> chunk_ok s v"
  by (auto simp: validate_actions_def chunk_ok_def split: if_splits)

lemma validate_actions_same:
  "nd_dtype a = DF32 \<Longrightarrow> chunk_ok s a \<Longrightarrow> validate_actions cast s a = Ok a"
  by (auto simp: validate_actions_def chunk_ok_def ascontiguous_def)

lemma spec_fields_distinct [simp]: "distinct (map fst (spec_fields s))"
  by (simp add: spec_fields_def)

lemma spec_metadata_field: "(k, v) \<in> set (spec_fields s) \<Longrightarrow> dget (spec_metadata s) k = Some v"
  by (simp add: spec_metadata_def dget_ddisplay)

text \<open>
  The contract between the scheduler and a runner: a batch that succeeds with
  one output per request answers each request in its own place.
\<close>

locale request_runner =
  fixes run :: "'s \<Rightarrow> 'b inference_request list \<Rightarrow> 's \<times> 'o list res"
    and answers :: "'b inference_request \<Rightarrow> 'o \<Rightarrow> bool"
  assumes run_answers:
    "run s rs = (s', Ok outs) \<Longrightarrow> length outs = length rs \<Longrightarrow> list_all2 answers rs outs"

text \<open>What the sequential runner answers: the backend's own result for that payload.\<close>

definition infer_answers ::
    "('s \<Rightarrow> 'b payload \<Rightarrow> 's \<times> 'o res) \<Rightarrow> 'b inference_request \<Rightarrow> 'o \<Rightarrow> bool" where
  "infer_answers infer r out = (\<exists>s s'. infer s (as_backend_request r) = (s', Ok out))"

lemma sequential_execute_answers:
  "sequential_execute infer s rs = (s', Ok outs) \<Longrightarrow> list_all2 (infer_answers infer) rs outs"
proof (induction infer s rs arbitrary: s' outs rule: sequential_execute.induct)
  case (2 infer s r rs)
  then show ?case
    by (auto split: prod.splits res.splits) (auto simp: infer_answers_def)
qed simp

interpretation sequential: request_runner "sequential_execute infer" "infer_answers infer" for infer
  by unfold_locales (rule sequential_execute_answers)

lemma sequential_execute_length:
  "sequential_execute infer s rs = (s', Ok os) \<Longrightarrow> length os = length rs"
  by (induction infer s rs arbitrary: s' os rule: sequential_execute.induct)
    (auto split: prod.splits res.splits)

end
