(* ===== verification/Protocol.thy ===== *)
theory Protocol
  imports Contracts
begin

text \<open>
  The versioned wire format of \<open>protocol.py\<close>.  Messages are dictionaries of
  Python values; MessagePack itself is a parameter of the two codec functions
  (\<open>packb\<close>, \<open>unpackb\<close>), and so is NumPy's cast between element types, which is
  only reached when an array does not have the wanted type.  An exception of
  \<open>unpackb\<close> keeps its base class: the four MessagePack exceptions the source
  catches are subclasses of \<open>ValueError\<close>.
\<close>

section \<open>Constants\<close>

definition PROTOCOL_VERSION :: string where
  "PROTOCOL_VERSION = ''embodied-infer/1''"

definition MAX_MESSAGE_BYTES :: nat where
  "MAX_MESSAGE_BYTES = 64 * 1024 * 1024"

definition MAX_TENSOR_BYTES :: nat where
  "MAX_TENSOR_BYTES = 48 * 1024 * 1024"

definition MAX_TENSOR_RANK :: nat where
  "MAX_TENSOR_RANK = 8"

definition MAX_IMAGES :: nat where
  "MAX_IMAGES = 16"

definition MAX_INSTRUCTION_BYTES :: nat where
  "MAX_INSTRUCTION_BYTES = 16 * 1024"

definition MAX_TIMEOUT_MS :: int where
  "MAX_TIMEOUT_MS = 10 * 60 * 1000"

fun WIRE_DTYPES :: "string \<Rightarrow> dtype option" where
  "WIRE_DTYPES n =
     (if n = ''u8'' then Some DU8 else if n = ''i32'' then Some DI32
      else if n = ''f32'' then Some DF32 else None)"

fun NUMPY_TO_WIRE :: "dtype \<Rightarrow> string option" where
  "NUMPY_TO_WIRE DU8 = Some ''u8''"
| "NUMPY_TO_WIRE DI32 = Some ''i32''"
| "NUMPY_TO_WIRE DI32BE = Some ''i32''"
| "NUMPY_TO_WIRE DF32 = Some ''f32''"
| "NUMPY_TO_WIRE DF32BE = Some ''f32''"
| "NUMPY_TO_WIRE (DOther _ _) = None"

section \<open>Message codec\<close>

definition encode_message :: "(pyval \<Rightarrow> byte list res) \<Rightarrow> pydict \<Rightarrow> byte list res" where
  "encode_message packb message =
     res_bind (packb (PDict message)) (\<lambda>payload.
       if MAX_MESSAGE_BYTES < length payload
       then Err (ProtocolError ''message exceeds 67108864 bytes'')
       else Ok payload)"

definition decode_message :: "(byte list \<Rightarrow> pyval res) \<Rightarrow> byte list \<Rightarrow> pydict res" where
  "decode_message unpackb payload =
     (if MAX_MESSAGE_BYTES < length payload
      then Err (ProtocolError ''message exceeds 67108864 bytes'')
      else case unpackb payload of
          Err (ValueError m) \<Rightarrow> Err (ProtocolError ''invalid MessagePack payload'')
        | Err e \<Rightarrow> Err e
        | Ok (PDict value) \<Rightarrow>
            (if dget_none value ''protocol'' \<noteq> PStr PROTOCOL_VERSION
             then Err (ProtocolError ''unsupported protocol'')
             else Ok value)
        | Ok _ \<Rightarrow> Err (ProtocolError ''top-level payload must be a map''))"

section \<open>Tensors on the wire\<close>

definition pack_array ::
    "(dtype \<Rightarrow> ndarray \<Rightarrow> ndarray res) \<Rightarrow> ndarray \<Rightarrow> string option \<Rightarrow> pydict res" where
  "pack_array cast array dtype =
     (case (case dtype of Some d \<Rightarrow> Some d | None \<Rightarrow> NUMPY_TO_WIRE (nd_dtype array)) of
        None \<Rightarrow> Err (ProtocolError ''unsupported tensor dtype'')
      | Some d \<Rightarrow>
          (case WIRE_DTYPES d of
             None \<Rightarrow> Err (ProtocolError ''unsupported wire dtype'')
           | Some wd \<Rightarrow>
               res_bind (as_dtype cast wd array) (\<lambda>a0.
                 let a = ascontiguous a0
                 in if MAX_TENSOR_RANK < nd_ndim a
                    then Err (ProtocolError ''tensor rank exceeds 8'')
                    else if MAX_TENSOR_BYTES < length (nd_data a)
                    then Err (ProtocolError ''tensor exceeds 50331648 bytes'')
                    else Ok [(PStr ''dtype'', PStr d),
                             (PStr ''shape'', PList (map (\<lambda>n. PInt (int n)) (nd_shape a))),
                             (PStr ''data'', PBytes (nd_data a))])))"

text \<open>
  \<open>dtype_name not in _WIRE_DTYPES\<close> hashes the name first, which raises for a
  list or a map.
\<close>

fun hashable :: "pyval \<Rightarrow> bool" where
  "hashable (PList _) = False"
| "hashable (PDict _) = False"
| "hashable _ = True"

fun wire_dtype_of :: "pyval \<Rightarrow> dtype res" where
  "wire_dtype_of (PStr n) = (case WIRE_DTYPES n of
      None \<Rightarrow> Err (ProtocolError ''unsupported wire dtype'') | Some d \<Rightarrow> Ok d)"
| "wire_dtype_of v = (if hashable v then Err (ProtocolError ''unsupported wire dtype'')
      else Err (TypeError ''unhashable type''))"

fun wire_shape_of :: "pyval \<Rightarrow> nat list res" where
  "wire_shape_of (PList items) =
     (if MAX_TENSOR_RANK < length items \<or> \<not> list_all (\<lambda>v. is_pyint v \<and> 0 \<le> pyint_val v) items
      then Err (ProtocolError ''tensor shape is invalid'')
      else Ok (map (\<lambda>v. nat (pyint_val v)) items))"
| "wire_shape_of _ = Err (ProtocolError ''tensor shape is invalid'')"

fun wire_data_of :: "pyval \<Rightarrow> byte list res" where
  "wire_data_of (PBytes b) =
     (if MAX_TENSOR_BYTES < length b
      then Err (ProtocolError ''tensor data is invalid or too large'') else Ok b)"
| "wire_data_of _ = Err (ProtocolError ''tensor data is invalid or too large'')"

text \<open>The running product of the extents, abandoned as soon as it exceeds the limit.\<close>

fun count_elements :: "nat \<Rightarrow> nat list \<Rightarrow> nat res" where
  "count_elements n [] = Ok n"
| "count_elements n (e # es) =
     (if MAX_TENSOR_BYTES < n * e then Err (ProtocolError ''tensor shape is too large'')
      else count_elements (n * e) es)"

fun unpack_array :: "pyval \<Rightarrow> ndarray res" where
  "unpack_array (PDict tensor) =
     res_bind (wire_dtype_of (dget_none tensor ''dtype'')) (\<lambda>d.
     res_bind (wire_shape_of (dget_none tensor ''shape'')) (\<lambda>shape.
     res_bind (wire_data_of (dget_none tensor ''data'')) (\<lambda>data.
     res_bind (count_elements 1 shape) (\<lambda>elements.
       if elements * itemsize d \<noteq> length data
       then Err (ProtocolError ''tensor shape does not match its byte length'')
       else Ok \<lparr>nd_dtype = d, nd_shape = shape, nd_data = data\<rparr>))))"
| "unpack_array _ = Err (ProtocolError ''tensor must be a map'')"

section \<open>Hello, health and error messages\<close>

definition make_hello :: "pydict \<Rightarrow> pydict" where
  "make_hello metadata =
     [(PStr ''protocol'', PStr PROTOCOL_VERSION), (PStr ''type'', PStr ''hello''),
      (PStr ''metadata'', PDict metadata)]"

definition make_health_request :: "pyval \<Rightarrow> pydict res" where
  "make_health_request request_id =
     (if \<not> is_pyint request_id \<or> pyint_val request_id < 0
      then Err (ProtocolError ''request_id must be a non-negative integer'')
      else Ok [(PStr ''protocol'', PStr PROTOCOL_VERSION), (PStr ''type'', PStr ''health''),
               (PStr ''request_id'', request_id)])"

definition health_counter_ok :: "pydict \<Rightarrow> string \<Rightarrow> bool" where
  "health_counter_ok message key =
     (let v = dget_none message key
      in is_pynum v \<and> pf_finite (pynum_val v) \<and> \<not> pf_lt (pynum_val v) (Fin 0))"

definition parse_health_response :: "pydict \<Rightarrow> pydict res" where
  "parse_health_response message =
     (if dget_none message ''type'' \<noteq> PStr ''health''
      then Err (ProtocolError ''message is not a health response'')
      else if \<not> hashable (dget_none message ''status'')
      then Err (TypeError ''unhashable type'')
      else if dget_none message ''status'' \<notin>
                {PStr ''starting'', PStr ''ready'', PStr ''draining'', PStr ''stopped''}
      then Err (ProtocolError ''health status is invalid'')
      else if \<not> is_pydict (dget_none message ''metadata'')
      then Err (ProtocolError ''health metadata must be a map'')
      else if \<not> list_all (health_counter_ok message)
                [''uptime_ms'', ''requests_total'', ''requests_failed'']
      then Err (ProtocolError ''health field is invalid or negative'')
      else Ok message)"

definition make_error :: "string \<Rightarrow> int \<Rightarrow> string \<Rightarrow> pydict" where
  "make_error message request_id code =
     [(PStr ''protocol'', PStr PROTOCOL_VERSION), (PStr ''type'', PStr ''error''),
      (PStr ''request_id'', PInt request_id), (PStr ''code'', PStr code),
      (PStr ''message'', PStr message)]"

section \<open>Inference requests\<close>

definition timeout_ok :: "pyfloat \<Rightarrow> bool" where
  "timeout_ok t = (pf_finite t \<and> pf_lt (Fin 0) t \<and> pf_le t (Fin (of_int MAX_TIMEOUT_MS)))"

definition hwc_channels_ok :: "nat list \<Rightarrow> bool" where
  "hwc_channels_ok sh = (length sh = 3 \<and> last sh \<in> {1, 3, 4})"

definition color_of :: "nat list \<Rightarrow> string" where
  "color_of sh = (if last sh = 1 then ''gray'' else if last sh = 4 then ''rgba'' else ''rgb'')"

definition pack_image ::
    "(dtype \<Rightarrow> ndarray \<Rightarrow> ndarray res) \<Rightarrow> string \<times> ndarray \<times> int \<Rightarrow> pyval res" where
  "pack_image cast entry =
     (case entry of (name, img, ts) \<Rightarrow>
        if name = [] \<or> ts < 0
        then Err (ProtocolError ''image name must be non-empty and timestamp non-negative'')
        else if \<not> hwc_channels_ok (nd_shape img)
        then Err (ProtocolError ''image must have HWC layout'')
        else res_bind (pack_array cast img (Some ''u8'')) (\<lambda>t.
          Ok (PDict [(PStr ''name'', PStr name), (PStr ''timestamp_ns'', PInt ts),
                     (PStr ''color'', PStr (color_of (nd_shape img))),
                     (PStr ''tensor'', PDict t)])))"

definition make_infer_request ::
    "(dtype \<Rightarrow> ndarray \<Rightarrow> ndarray res) \<Rightarrow> int \<Rightarrow> int \<Rightarrow> int \<Rightarrow> string \<Rightarrow>
     (string \<times> ndarray \<times> int) list \<Rightarrow> ndarray \<Rightarrow> pyfloat \<Rightarrow> pydict res" where
  "make_infer_request cast request_id control_step timestamp_ns instruction images state timeout_ms =
     (if request_id < 0 \<or> control_step < 0 \<or> timestamp_ns < 0
      then Err (ProtocolError ''request counters and timestamp must be non-negative'')
      else if instruction = [] \<or> MAX_INSTRUCTION_BYTES < length instruction
      then Err (ProtocolError ''instruction must not be empty'')
      else if \<not> timeout_ok timeout_ms
      then Err (ProtocolError ''timeout_ms must be in (0,600000]'')
      else if MAX_IMAGES < length images
      then Err (ProtocolError ''at most 16 images are allowed'')
      else res_bind (mapM (pack_image cast) images) (\<lambda>packed_images.
           res_bind (pack_array cast state (Some ''f32'')) (\<lambda>packed_state.
             Ok [(PStr ''protocol'', PStr PROTOCOL_VERSION), (PStr ''type'', PStr ''infer''),
                 (PStr ''request_id'', PInt request_id), (PStr ''control_step'', PInt control_step),
                 (PStr ''timestamp_ns'', PInt timestamp_ns), (PStr ''timeout_ms'', PFloat timeout_ms),
                 (PStr ''instruction'', PStr instruction), (PStr ''images'', PList packed_images),
                 (PStr ''state'', PDict packed_state)])))"

text \<open>The loop over the image entries, with the two dictionaries it fills.\<close>

fun parse_images ::
    "pyval list \<Rightarrow> (string \<times> ndarray) list \<Rightarrow> (string \<times> int) list \<Rightarrow>
     ((string \<times> ndarray) list \<times> (string \<times> int) list) res" where
  "parse_images [] images stamps = Ok (images, stamps)"
| "parse_images (PDict item # rest) images stamps =
     (case dget_none item ''name'' of
        PStr name \<Rightarrow>
          (if name = [] then Err (ProtocolError ''image entry is invalid'')
           else if map_of images name \<noteq> None then Err (ProtocolError ''duplicate image name'')
           else res_bind (unpack_array (dget_or item ''tensor'' (PDict []))) (\<lambda>array.
             if nd_dtype array \<noteq> DU8 \<or> \<not> hwc_channels_ok (nd_shape array)
             then Err (ProtocolError ''image must be HWC uint8'')
             else let ts = dget_none item ''timestamp_ns''
                  in if \<not> is_pyint ts \<or> pyint_val ts < 0
                     then Err (ProtocolError ''image timestamp is invalid'')
                     else parse_images rest (images @ [(name, array)])
                            (stamps @ [(name, pyint_val ts)])))
      | _ \<Rightarrow> Err (ProtocolError ''image entry is invalid''))"
| "parse_images (_ # rest) images stamps = Err (ProtocolError ''image entry is invalid'')"

definition required_int_ok :: "pydict \<Rightarrow> string \<Rightarrow> bool" where
  "required_int_ok message key =
     (is_pyint (dget_none message key) \<and> 0 \<le> pyint_val (dget_none message key))"

definition instruction_ok :: "pyval \<Rightarrow> bool" where
  "instruction_ok v =
     (case v of PStr s \<Rightarrow> s \<noteq> [] \<and> length s \<le> MAX_INSTRUCTION_BYTES | _ \<Rightarrow> False)"

fun str_of :: "pyval \<Rightarrow> string" where
  "str_of (PStr s) = s"
| "str_of _ = []"

definition parse_infer_request :: "pydict \<Rightarrow> infer_req res" where
  "parse_infer_request message =
     (if dget_none message ''type'' \<noteq> PStr ''infer''
      then Err (ProtocolError ''message is not an inference request'')
      else if \<not> list_all (required_int_ok message) [''request_id'', ''control_step'', ''timestamp_ns'']
      then Err (ProtocolError ''field must be a non-negative integer'')
      else if \<not> instruction_ok (dget_none message ''instruction'')
      then Err (ProtocolError ''instruction is empty or too large'')
      else if \<not> is_pynum (dget_none message ''timeout_ms'') \<or>
              \<not> timeout_ok (pynum_val (dget_none message ''timeout_ms''))
      then Err (ProtocolError ''timeout_ms must be in (0,600000]'')
      else case dget_none message ''images'' of
          PList raw_images \<Rightarrow>
            (if MAX_IMAGES < length raw_images
             then Err (ProtocolError ''images must be a list of at most 16 entries'')
             else res_bind (parse_images raw_images [] []) (\<lambda>(images, stamps).
                  res_bind (unpack_array (dget_or message ''state'' (PDict []))) (\<lambda>state.
                    if nd_dtype state \<noteq> DF32 \<or> nd_ndim state \<noteq> 1
                    then Err (ProtocolError ''state must be a one-dimensional float32 tensor'')
                    else if \<not> nd_isfinite state
                    then Err (ProtocolError ''state contains NaN or infinity'')
                    else Ok \<lparr>rq_request_id = pyint_val (dget_none message ''request_id''),
                             rq_control_step = pyint_val (dget_none message ''control_step''),
                             rq_timestamp_ns = pyint_val (dget_none message ''timestamp_ns''),
                             rq_timeout_ms = pynum_val (dget_none message ''timeout_ms''),
                             rq_instruction = str_of (dget_none message ''instruction''),
                             rq_images = images, rq_image_timestamps = stamps,
                             rq_state = state\<rparr>)))
        | _ \<Rightarrow> Err (ProtocolError ''images must be a list of at most 16 entries''))"

section \<open>Action responses\<close>

definition make_action_response ::
    "(dtype \<Rightarrow> ndarray \<Rightarrow> ndarray res) \<Rightarrow> infer_req \<Rightarrow> ndarray \<Rightarrow> string \<Rightarrow> int \<Rightarrow>
     (string \<times> pyfloat) list \<Rightarrow> pydict res" where
  "make_action_response cast request actions0 rep control_period_ns timing =
     res_bind (as_dtype cast DF32 actions0) (\<lambda>actions.
       if nd_ndim actions \<noteq> 2 \<or> \<not> nd_isfinite actions
       then Err (ProtocolError ''actions must be a finite [steps, action_dim] tensor'')
       else if \<not> List.member action_representations rep
       then Err (ProtocolError ''invalid action representation'')
       else res_bind (pack_array cast actions (Some ''f32'')) (\<lambda>packed.
         Ok [(PStr ''protocol'', PStr PROTOCOL_VERSION), (PStr ''type'', PStr ''action''),
             (PStr ''request_id'', PInt (rq_request_id request)),
             (PStr ''first_control_step'', PInt (rq_control_step request)),
             (PStr ''source_timestamp_ns'', PInt (rq_timestamp_ns request)),
             (PStr ''control_period_ns'', PInt control_period_ns),
             (PStr ''representation'', PStr rep),
             (PStr ''actions'', PDict packed),
             (PStr ''timing'', PDict (map (\<lambda>(k, v). (PStr k, PFloat v)) timing))]))"

record action_response =
  ar_message :: pydict
  ar_actions :: ndarray

definition parse_action_response :: "pydict \<Rightarrow> action_response res" where
  "parse_action_response message =
     (if dget_none message ''type'' = PStr ''error''
      then Err (ProtocolError (str_of (dget_or message ''message'' (PStr ''remote inference failed''))))
      else if dget_none message ''type'' \<noteq> PStr ''action''
      then Err (ProtocolError ''message is not an action response'')
      else res_bind (unpack_array (dget_or message ''actions'' (PDict []))) (\<lambda>actions.
        if nd_dtype actions \<noteq> DF32 \<or> nd_ndim actions \<noteq> 2
        then Err (ProtocolError ''actions must be a [steps, action_dim] float32 tensor'')
        else if \<not> nd_isfinite actions
        then Err (ProtocolError ''actions contain NaN or infinity'')
        else Ok \<lparr>ar_message = message, ar_actions = actions\<rparr>))"

section \<open>Exact reads from a stream socket\<close>

text \<open>
  A socket is the list of segments the peer's bytes arrive in: \<open>recv(n)\<close>
  returns at most \<open>n\<close> bytes of the next segment and the empty string once the
  peer has closed the connection.
\<close>

type_synonym sock = "byte list list"

fun sock_recv :: "sock \<Rightarrow> nat \<Rightarrow> byte list \<times> sock" where
  "sock_recv [] n = ([], [])"
| "sock_recv (seg # segs) n =
     (if length seg \<le> n then (seg, segs) else (take n seg, drop n seg # segs))"

function recv_exact :: "sock \<Rightarrow> nat \<Rightarrow> byte list \<Rightarrow> (byte list \<times> sock) res" where
  "recv_exact s sz acc =
     (if sz \<le> length acc then Ok (acc, s)
      else case sock_recv s (sz - length acc) of
          ([], s') \<Rightarrow> Err (ConnectionError ''peer closed the connection'')
        | (b # bs, s') \<Rightarrow> recv_exact s' sz (acc @ b # bs))"
  by pat_completeness auto
termination
  by (relation "measure (\<lambda>(s, sz, acc). sz - length acc)") auto

declare recv_exact.simps [simp del]

section \<open>Tensor lemmas\<close>

text \<open>An array the wire format can carry and hand back: a wire element type, no empty extent.\<close>

definition wire_ok :: "ndarray \<Rightarrow> bool" where
  "wire_ok a = (nd_wf a \<and> nd_shape a \<noteq> [] \<and> 0 \<notin> set (nd_shape a))"

lemma prod_list_pos: "0 \<notin> set es \<Longrightarrow> 0 < prod_list (es :: nat list)"
  by (induction es) auto

lemma count_elements_Ok: "count_elements n es = Ok m \<Longrightarrow> m = n * prod_list es"
  by (induction n es rule: count_elements.induct) (auto split: if_splits simp: mult.assoc)

lemma count_elements_fits:
  "n * prod_list es \<le> MAX_TENSOR_BYTES \<Longrightarrow> 0 \<notin> set es \<Longrightarrow> count_elements n es = Ok (n * prod_list es)"
proof (induction n es rule: count_elements.induct)
  case (1 n)
  then show ?case by simp
next
  case (2 n e es)
  have "n * e \<le> n * e * prod_list es"
    using 2(3) by (intro le_mult_pos prod_list_pos) auto
  also have "\<dots> \<le> MAX_TENSOR_BYTES"
    using 2(2) by (simp add: mult.assoc)
  finally have "\<not> MAX_TENSOR_BYTES < n * e" by simp
  with 2 show ?case by (simp add: mult.assoc)
qed

lemma unpack_array_Ok:
  assumes "unpack_array v = Ok a"
  shows "nd_wf a \<and> nd_ndim a \<le> MAX_TENSOR_RANK \<and> length (nd_data a) \<le> MAX_TENSOR_BYTES"
proof (cases v)
  case (PDict t)
  then show ?thesis
    using assms
    by (cases "dget_none t ''shape''"; cases "dget_none t ''data''")
      (auto simp: nd_wf_def split: if_splits dest: count_elements_Ok)
qed (use assms in auto)

lemma pack_array_same_Ok:
  assumes "pack_array cast a (Some d) = Ok t" and "WIRE_DTYPES d = Some (nd_dtype a)"
    and "nd_shape a \<noteq> []"
  shows "t = [(PStr ''dtype'', PStr d), (PStr ''shape'', PList (map (\<lambda>n. PInt (int n)) (nd_shape a))),
              (PStr ''data'', PBytes (nd_data a))]"
    and "nd_ndim a \<le> MAX_TENSOR_RANK" and "length (nd_data a) \<le> MAX_TENSOR_BYTES"
  using assms by (auto simp: pack_array_def Let_def simp del: WIRE_DTYPES.simps split: if_splits)

lemma map_nat_int_wire [simp]: "map ((\<lambda>v. nat (pyint_val v)) \<circ> (\<lambda>n. PInt (int n))) ns = ns"
  by (induction ns) simp_all

lemma itemsize_wire_pos: "WIRE_DTYPES d = Some wd \<Longrightarrow> 0 < itemsize wd"
  by (auto split: if_splits)

lemma unpack_pack_same:
  assumes "pack_array cast a (Some d) = Ok t" and "WIRE_DTYPES d = Some (nd_dtype a)" and "wire_ok a"
  shows "unpack_array (PDict t) = Ok a"
proof -
  from assms(3) have ne: "nd_shape a \<noteq> []" and wf: "nd_wf a" and z: "0 \<notin> set (nd_shape a)"
    by (auto simp: wire_ok_def)
  note t = pack_array_same_Ok [OF assms(1,2) ne]
  have "1 * prod_list (nd_shape a) \<le> prod_list (nd_shape a) * itemsize (nd_dtype a)"
    using le_mult_pos [OF itemsize_wire_pos [OF assms(2)]] by simp
  also have "\<dots> \<le> MAX_TENSOR_BYTES"
    using wf t(3) by (simp add: nd_wf_def)
  finally have "1 * prod_list (nd_shape a) \<le> MAX_TENSOR_BYTES" .
  from count_elements_fits [OF this z] have "count_elements 1 (nd_shape a) = Ok (prod_list (nd_shape a))"
    by simp
  with t wf assms(2) show ?thesis
    by (simp add: dget_none_def nd_wf_def list_all_iff not_less del: WIRE_DTYPES.simps)
qed

lemma wire_u8 [simp]: "WIRE_DTYPES ''u8'' = Some DU8"
  by simp

lemma wire_f32 [simp]: "WIRE_DTYPES ''f32'' = Some DF32"
  by simp

declare WIRE_DTYPES.simps [simp del]

section \<open>Request and response lemmas\<close>

text \<open>What the receiving side builds from the entries the sending side was given.\<close>

fun image_entry_ok :: "string \<times> ndarray \<times> int \<Rightarrow> bool" where
  "image_entry_ok (name, img, ts) = (nd_dtype img = DU8 \<and> wire_ok img)"

lemma pack_image_Ok:
  "pack_image cast (name, img, ts) = Ok v \<Longrightarrow>
     \<exists>t. pack_array cast img (Some ''u8'') = Ok t \<and> name \<noteq> [] \<and> 0 \<le> ts \<and>
       hwc_channels_ok (nd_shape img) \<and>
       v = PDict [(PStr ''name'', PStr name), (PStr ''timestamp_ns'', PInt ts),
          (PStr ''color'', PStr (color_of (nd_shape img))), (PStr ''tensor'', PDict t)]"
  by (auto simp: pack_image_def split: if_splits)

lemma parse_images_packed:
  assumes "mapM (pack_image cast) entries = Ok packed"
    and "list_all image_entry_ok entries"
    and "distinct (map fst images @ map fst entries)"
  shows "parse_images packed images stamps =
    Ok (images @ map (\<lambda>(n, img, ts). (n, img)) entries, stamps @ map (\<lambda>(n, img, ts). (n, ts)) entries)"
  using assms
proof (induction entries arbitrary: packed images stamps)
  case Nil
  then show ?case by simp
next
  case (Cons entry entries)
  obtain name img ts where e: "entry = (name, img, ts)" by (cases entry) auto
  from Cons.prems(1) e obtain t packed' where t: "pack_array cast img (Some ''u8'') = Ok t"
      and name: "name \<noteq> []" "0 \<le> ts" and hwc: "hwc_channels_ok (nd_shape img)"
      and rest: "mapM (pack_image cast) entries = Ok packed'"
      and packed: "packed = PDict [(PStr ''name'', PStr name), (PStr ''timestamp_ns'', PInt ts),
          (PStr ''color'', PStr (color_of (nd_shape img))), (PStr ''tensor'', PDict t)] # packed'"
    by (auto split: res.splits dest!: pack_image_Ok)
  from Cons.prems(2) e have ok: "nd_dtype img = DU8" "wire_ok img" "list_all image_entry_ok entries"
    by auto
  have u: "unpack_array (PDict t) = Ok img"
    using ok by (intro unpack_pack_same [OF t]) (simp_all add: wire_u8)
  have fresh: "map_of images name = None"
    using Cons.prems(3) e by (auto simp: map_of_eq_None_iff)
  have "distinct (map fst (images @ [(name, img)]) @ map fst entries)"
    using Cons.prems(3) e by auto
  from Cons.IH [OF rest ok(3) this] show ?case
    using packed name fresh u ok hwc e by (simp add: dget_none_def dget_or_def del: unpack_array.simps)
qed

definition received_request ::
    "int \<Rightarrow> int \<Rightarrow> int \<Rightarrow> string \<Rightarrow> (string \<times> ndarray \<times> int) list \<Rightarrow> ndarray \<Rightarrow> pyfloat \<Rightarrow> infer_req" where
  "received_request request_id control_step timestamp_ns instruction images state timeout_ms =
     \<lparr>rq_request_id = request_id, rq_control_step = control_step, rq_timestamp_ns = timestamp_ns,
      rq_timeout_ms = timeout_ms, rq_instruction = instruction,
      rq_images = map (\<lambda>(n, img, ts). (n, img)) images,
      rq_image_timestamps = map (\<lambda>(n, img, ts). (n, ts)) images, rq_state = state\<rparr>"

lemma parse_make_infer_request:
  assumes mk: "make_infer_request cast rid step ts instr images state tmo = Ok m"
    and images: "list_all image_entry_ok images" "distinct (map fst images)"
    and state: "nd_dtype state = DF32" "nd_ndim state = 1" "wire_ok state" "nd_isfinite state"
  shows "parse_infer_request m = Ok (received_request rid step ts instr images state tmo)"
proof -
  from mk obtain packed t where
      p: "mapM (pack_image cast) images = Ok packed" "pack_array cast state (Some ''f32'') = Ok t"
      and g: "0 \<le> rid" "0 \<le> step" "0 \<le> ts" "instr \<noteq> []" "length instr \<le> MAX_INSTRUCTION_BYTES"
        "timeout_ok tmo" "length images \<le> MAX_IMAGES"
      and m: "m = [(PStr ''protocol'', PStr PROTOCOL_VERSION), (PStr ''type'', PStr ''infer''),
           (PStr ''request_id'', PInt rid), (PStr ''control_step'', PInt step),
           (PStr ''timestamp_ns'', PInt ts), (PStr ''timeout_ms'', PFloat tmo),
           (PStr ''instruction'', PStr instr), (PStr ''images'', PList packed),
           (PStr ''state'', PDict t)]"
    by (auto simp: make_infer_request_def split: if_splits)
  have "parse_images packed [] [] =
      Ok (map (\<lambda>(n, img, ts). (n, img)) images, map (\<lambda>(n, img, ts). (n, ts)) images)"
    using parse_images_packed [OF p(1) images(1), of "[]" "[]"] images(2) by simp
  moreover have "unpack_array (PDict t) = Ok state"
    using p(2) state by (intro unpack_pack_same [OF p(2)]) (simp_all add: wire_f32)
  ultimately show ?thesis
    using g state mapM_length [OF p(1)]
    by (simp add: parse_infer_request_def m dget_none_def dget_or_def required_int_ok_def
        instruction_ok_def received_request_def not_less del: unpack_array.simps)
qed

text \<open>What the backend may rely on when it is handed a parsed request.\<close>

definition infer_req_wf :: "infer_req \<Rightarrow> bool" where
  "infer_req_wf r =
     (0 \<le> rq_request_id r \<and> 0 \<le> rq_control_step r \<and> 0 \<le> rq_timestamp_ns r \<and>
      timeout_ok (rq_timeout_ms r) \<and>
      rq_instruction r \<noteq> [] \<and> length (rq_instruction r) \<le> MAX_INSTRUCTION_BYTES \<and>
      length (rq_images r) \<le> MAX_IMAGES \<and> distinct (map fst (rq_images r)) \<and>
      map fst (rq_image_timestamps r) = map fst (rq_images r) \<and>
      (\<forall>(n, ts) \<in> set (rq_image_timestamps r). 0 \<le> ts) \<and>
      (\<forall>(n, img) \<in> set (rq_images r). n \<noteq> [] \<and> nd_dtype img = DU8 \<and> nd_wf img \<and>
         hwc_channels_ok (nd_shape img) \<and> length (nd_data img) \<le> MAX_TENSOR_BYTES) \<and>
      nd_dtype (rq_state r) = DF32 \<and> nd_ndim (rq_state r) = 1 \<and> nd_wf (rq_state r) \<and>
      nd_isfinite (rq_state r))"

lemma parse_images_wf:
  assumes "parse_images items images stamps = Ok (images', stamps')"
    and "distinct (map fst images)" and "map fst stamps = map fst images"
    and "\<forall>(n, ts) \<in> set stamps. 0 \<le> ts"
    and "\<forall>(n, img) \<in> set images. n \<noteq> [] \<and> nd_dtype img = DU8 \<and> nd_wf img \<and>
         hwc_channels_ok (nd_shape img) \<and> length (nd_data img) \<le> MAX_TENSOR_BYTES"
  shows "length images' = length images + length items \<and> distinct (map fst images') \<and>
    map fst stamps' = map fst images' \<and> (\<forall>(n, ts) \<in> set stamps'. 0 \<le> ts) \<and>
    (\<forall>(n, img) \<in> set images'. n \<noteq> [] \<and> nd_dtype img = DU8 \<and> nd_wf img \<and>
       hwc_channels_ok (nd_shape img) \<and> length (nd_data img) \<le> MAX_TENSOR_BYTES)"
  using assms
proof (induction items images stamps rule: parse_images.induct)
  case (1 images stamps)
  then show ?case by auto
next
  case (2 item rest images stamps)
  from 2(2) obtain name array where n: "dget_none item ''name'' = PStr name" "name \<noteq> []"
      "map_of images name = None"
      and u: "unpack_array (dget_or item ''tensor'' (PDict [])) = Ok array"
      and a: "nd_dtype array = DU8" "hwc_channels_ok (nd_shape array)"
      and ts: "is_pyint (dget_none item ''timestamp_ns'')"
        "0 \<le> pyint_val (dget_none item ''timestamp_ns'')"
      and rest: "parse_images rest (images @ [(name, array)])
        (stamps @ [(name, pyint_val (dget_none item ''timestamp_ns''))]) = Ok (images', stamps')"
    by (auto simp: Let_def split: pyval.splits if_splits)
  note wf = unpack_array_Ok [OF u]
  have fresh: "name \<notin> fst ` set images"
    using n(3) by (simp add: map_of_eq_None_iff)
  show ?case
    using 2(1) [OF n(1), of array] n u a ts rest fresh wf 2(3-6) by (auto simp: Let_def)
qed auto

lemma parse_infer_request_wf:
  assumes "parse_infer_request m = Ok r"
  shows "infer_req_wf r"
proof -
  from assms obtain raw where raw: "dget_none m ''images'' = PList raw"
    by (auto simp: parse_infer_request_def split: if_splits pyval.splits)
  with assms obtain images stamps state where
      im: "parse_images raw [] [] = Ok (images, stamps)" "length raw \<le> MAX_IMAGES"
      and st: "unpack_array (dget_or m ''state'' (PDict [])) = Ok state"
        "nd_dtype state = DF32" "nd_ndim state = 1" "nd_isfinite state"
      and g: "list_all (required_int_ok m) [''request_id'', ''control_step'', ''timestamp_ns'']"
        "instruction_ok (dget_none m ''instruction'')"
        "timeout_ok (pynum_val (dget_none m ''timeout_ms''))"
      and r: "r = \<lparr>rq_request_id = pyint_val (dget_none m ''request_id''),
          rq_control_step = pyint_val (dget_none m ''control_step''),
          rq_timestamp_ns = pyint_val (dget_none m ''timestamp_ns''),
          rq_timeout_ms = pynum_val (dget_none m ''timeout_ms''),
          rq_instruction = str_of (dget_none m ''instruction''),
          rq_images = images, rq_image_timestamps = stamps, rq_state = state\<rparr>"
    by (auto simp: parse_infer_request_def split: if_splits)
  from parse_images_wf [OF im(1)] unpack_array_Ok [OF st(1)] g im(2) st(2-) show ?thesis
    by (auto simp: r infer_req_wf_def required_int_ok_def instruction_ok_def split: pyval.splits)
qed

lemma unpack_array_Err:
  assumes "unpack_array v = Err e"
  shows "(\<exists>x. e = ProtocolError x) \<or> e = TypeError ''unhashable type''"
proof (cases v)
  case (PDict t)
  have d: "wire_dtype_of w = Err e \<Longrightarrow> (\<exists>x. e = ProtocolError x) \<or> e = TypeError ''unhashable type''" for w
    by (cases w) (auto split: option.splits if_splits)
  have s: "wire_shape_of w = Err e \<Longrightarrow> \<exists>x. e = ProtocolError x" for w
    by (cases w) (auto split: if_splits)
  have b: "wire_data_of w = Err e \<Longrightarrow> \<exists>x. e = ProtocolError x" for w
    by (cases w) (auto split: if_splits)
  have c: "count_elements n es = Err e \<Longrightarrow> \<exists>x. e = ProtocolError x" for n es
    by (induction n es rule: count_elements.induct) (auto split: if_splits)
  show ?thesis
    using assms PDict by (auto simp: res_bind_eq_Err split: if_splits dest: d s b c)
qed (use assms in auto)

lemma parse_images_Err:
  "parse_images items images stamps = Err e \<Longrightarrow>
     (\<exists>x. e = ProtocolError x) \<or> e = TypeError ''unhashable type''"
  by (induction items images stamps rule: parse_images.induct)
    (auto simp: res_bind_eq_Err Let_def split: pyval.splits if_splits dest: unpack_array_Err)

lemma parse_infer_request_Err:
  "parse_infer_request m = Err e \<Longrightarrow> (\<exists>x. e = ProtocolError x) \<or> e = TypeError ''unhashable type''"
  by (auto simp: parse_infer_request_def res_bind_eq_Err split: if_splits pyval.splits
      dest: unpack_array_Err parse_images_Err)

lemma pack_array_fits:
  "WIRE_DTYPES d = Some (nd_dtype a) \<Longrightarrow> nd_shape a \<noteq> [] \<Longrightarrow> nd_ndim a \<le> MAX_TENSOR_RANK \<Longrightarrow>
   length (nd_data a) \<le> MAX_TENSOR_BYTES \<Longrightarrow> \<exists>t. pack_array cast a (Some d) = Ok t"
  by (simp add: pack_array_def Let_def not_less)

lemma pack_image_fits:
  assumes "image_entry_ok (name, img, ts)" and "name \<noteq> []" and "0 \<le> ts"
    and "hwc_channels_ok (nd_shape img)" and "length (nd_data img) \<le> MAX_TENSOR_BYTES"
  shows "\<exists>v. pack_image cast (name, img, ts) = Ok v"
proof -
  have "nd_ndim img \<le> MAX_TENSOR_RANK"
    using assms(4) by (simp add: hwc_channels_ok_def MAX_TENSOR_RANK_def)
  with assms obtain t where "pack_array cast img (Some ''u8'') = Ok t"
    using pack_array_fits [of "''u8''" img cast] by (auto simp: wire_u8 wire_ok_def)
  with assms show ?thesis by (simp add: pack_image_def)
qed

lemma mapM_all_Ok: "(\<And>x. x \<in> set xs \<Longrightarrow> \<exists>y. f x = Ok y) \<Longrightarrow> \<exists>ys. mapM f xs = Ok ys"
  by (induction xs) force+

text \<open>The arguments for which the client's request reaches the server.\<close>

definition sendable ::
    "int \<Rightarrow> int \<Rightarrow> int \<Rightarrow> string \<Rightarrow> (string \<times> ndarray \<times> int) list \<Rightarrow> ndarray \<Rightarrow> pyfloat \<Rightarrow> bool" where
  "sendable rid step ts instr images state tmo =
     (0 \<le> rid \<and> 0 \<le> step \<and> 0 \<le> ts \<and> instr \<noteq> [] \<and> length instr \<le> MAX_INSTRUCTION_BYTES \<and>
      timeout_ok tmo \<and> length images \<le> MAX_IMAGES \<and> distinct (map fst images) \<and>
      list_all (\<lambda>(n, img, t). image_entry_ok (n, img, t) \<and> n \<noteq> [] \<and> 0 \<le> t \<and>
        hwc_channels_ok (nd_shape img) \<and> length (nd_data img) \<le> MAX_TENSOR_BYTES) images \<and>
      nd_dtype state = DF32 \<and> nd_ndim state = 1 \<and> wire_ok state \<and> nd_isfinite state \<and>
      length (nd_data state) \<le> MAX_TENSOR_BYTES)"

lemma make_infer_request_sendable:
  assumes "sendable rid step ts instr images state tmo"
  shows "\<exists>m. make_infer_request cast rid step ts instr images state tmo = Ok m"
proof -
  have "\<exists>packed. mapM (pack_image cast) images = Ok packed"
  proof (rule mapM_all_Ok)
    fix e
    assume "e \<in> set images"
    with assms show "\<exists>y. pack_image cast e = Ok y"
      by (cases e) (auto simp: sendable_def list_all_iff intro!: pack_image_fits)
  qed
  moreover have "\<exists>t. pack_array cast state (Some ''f32'') = Ok t"
    using assms by (intro pack_array_fits) (auto simp: sendable_def wire_f32 wire_ok_def MAX_TENSOR_RANK_def)
  ultimately show ?thesis
    using assms by (auto simp: make_infer_request_def sendable_def not_less)
qed

lemma parse_make_action_response:
  assumes "make_action_response cast r a rep period timing = Ok m"
    and "nd_dtype a = DF32" and "wire_ok a"
  shows "parse_action_response m = Ok \<lparr>ar_message = m, ar_actions = a\<rparr> \<and>
    dget m ''protocol'' = Some (PStr PROTOCOL_VERSION) \<and>
    dget m ''request_id'' = Some (PInt (rq_request_id r)) \<and>
    dget m ''first_control_step'' = Some (PInt (rq_control_step r)) \<and>
    dget m ''representation'' = Some (PStr rep)"
proof -
  from assms obtain t where t: "pack_array cast a (Some ''f32'') = Ok t"
      and a: "nd_ndim a = 2" "nd_isfinite a"
      and m: "m = [(PStr ''protocol'', PStr PROTOCOL_VERSION), (PStr ''type'', PStr ''action''),
             (PStr ''request_id'', PInt (rq_request_id r)),
             (PStr ''first_control_step'', PInt (rq_control_step r)),
             (PStr ''source_timestamp_ns'', PInt (rq_timestamp_ns r)),
             (PStr ''control_period_ns'', PInt period), (PStr ''representation'', PStr rep),
             (PStr ''actions'', PDict t),
             (PStr ''timing'', PDict (map (\<lambda>(k, v). (PStr k, PFloat v)) timing))]"
    by (auto simp: make_action_response_def split: if_splits)
  have "unpack_array (PDict t) = Ok a"
    using assms by (intro unpack_pack_same [OF t]) (simp_all add: wire_f32)
  with a assms(2) show ?thesis
    by (simp add: parse_action_response_def m dget_none_def dget_or_def del: unpack_array.simps)
qed

lemma parse_action_response_Ok:
  assumes "parse_action_response m = Ok p"
  shows "ar_message p = m \<and> nd_dtype (ar_actions p) = DF32 \<and> nd_ndim (ar_actions p) = 2 \<and>
    nd_wf (ar_actions p) \<and> nd_isfinite (ar_actions p)"
proof -
  from assms have "unpack_array (dget_or m ''actions'' (PDict [])) = Ok (ar_actions p)"
    by (auto simp: parse_action_response_def split: if_splits)
  with unpack_array_Ok [OF this] assms show ?thesis
    by (cases p) (auto simp: parse_action_response_def split: if_splits)
qed

lemma decode_encode_message:
  assumes "encode_message packb m = Ok b" and "\<And>v p. packb v = Ok p \<Longrightarrow> unpackb p = Ok v"
    and "dget m ''protocol'' = Some (PStr PROTOCOL_VERSION)"
  shows "decode_message unpackb b = Ok m"
proof -
  from assms(1) have "packb (PDict m) = Ok b" and "length b \<le> MAX_MESSAGE_BYTES"
    by (auto simp: encode_message_def split: if_splits)
  then show ?thesis
    using assms(2) [of "PDict m" b] assms(3) by (simp add: decode_message_def dget_none_def)
qed

lemma decode_message_Ok:
  "decode_message unpackb b = Ok m \<Longrightarrow>
     unpackb b = Ok (PDict m) \<and> length b \<le> MAX_MESSAGE_BYTES \<and>
     dget m ''protocol'' = Some (PStr PROTOCOL_VERSION)"
  by (auto simp: decode_message_def dget_none_def split: if_splits res.splits pyval.splits
      pyerr.splits option.splits)

section \<open>Lemmas on exact reads\<close>

lemma sock_recv_stream:
  "sock_recv s n = (bs, s') \<Longrightarrow> bs @ concat s' = concat s \<and> length bs \<le> n"
  by (cases s) (auto split: if_splits)

lemma sock_recv_nonempty:
  "sock_recv s n = (bs, s') \<Longrightarrow> [] \<notin> set s \<Longrightarrow> 0 < n \<Longrightarrow>
     [] \<notin> set s' \<and> (bs = [] \<longrightarrow> concat s = [])"
  by (cases s) (auto split: if_splits)

lemma recv_exact_spec:
  assumes "[] \<notin> set s" and "length acc \<le> sz"
  shows "if sz \<le> length acc + length (concat s)
    then \<exists>s'. recv_exact s sz acc = Ok (take sz (acc @ concat s), s') \<and>
           concat s' = drop sz (acc @ concat s) \<and> [] \<notin> set s'
    else recv_exact s sz acc = Err (ConnectionError ''peer closed the connection'')"
  using assms
proof (induction s sz acc rule: recv_exact.induct)
  case (1 s sz acc)
  show ?case
  proof (cases "sz \<le> length acc")
    case True
    with 1(2,3) show ?thesis by (simp add: recv_exact.simps [of s sz acc])
  next
    case False
    obtain bs s' where r: "sock_recv s (sz - length acc) = (bs, s')"
      by (cases "sock_recv s (sz - length acc)")
    note st = sock_recv_stream [OF r]
    have ne: "[] \<notin> set s'" "bs = [] \<longrightarrow> concat s = []"
      using sock_recv_nonempty [OF r 1(2)] False by auto
    show ?thesis
    proof (cases bs)
      case Nil
      with ne(2) 1(2) have "s = []" by (cases s) auto
      with False show ?thesis by (simp add: recv_exact.simps [of "[]" sz acc])
    next
      case (Cons b bs')
      have "length (acc @ b # bs') \<le> sz"
        using st Cons False by auto
      note ih = 1(1) [OF False r [symmetric] Cons ne(1) this]
      have eq: "recv_exact s sz acc = recv_exact s' sz (acc @ b # bs')"
        using r Cons False by (simp add: recv_exact.simps [of s sz acc])
      have cc: "acc @ concat s = (acc @ b # bs') @ concat s'"
        using st Cons by simp
      then have len: "length acc + length (concat s) = length (acc @ b # bs') + length (concat s')"
        by (metis length_append)
      show ?thesis
        using ih by (simp only: eq cc len)
    qed
  qed
qed

section \<open>Properties\<close>

text \<open>
  A tensor survives the wire.  An array of one of the three wire element
  types, within the rank and size limits and without an empty extent, is packed
  by \<open>pack_array\<close>, and \<open>unpack_array\<close> gives back the same array: element type,
  shape and every byte.
\<close>
theorem tensor_roundtrip:
  assumes "WIRE_DTYPES d = Some (nd_dtype a)" and "wire_ok a"
    and "nd_ndim a \<le> MAX_TENSOR_RANK" and "length (nd_data a) \<le> MAX_TENSOR_BYTES"
  shows "\<exists>t. pack_array cast a (Some d) = Ok t \<and> unpack_array (PDict t) = Ok a"
proof -
  have "nd_shape a \<noteq> []" using assms(2) by (simp add: wire_ok_def)
  with assms obtain t where t: "pack_array cast a (Some d) = Ok t"
    using pack_array_fits by blast
  with unpack_pack_same [OF t assms(1,2)] show ?thesis by blast
qed

definition sample_state :: ndarray where
  "sample_state = nd_of_f32s [2] [0x3F800000, 0]"

definition sample_image :: ndarray where
  "sample_image = \<lparr>nd_dtype = DU8, nd_shape = [1, 1, 3], nd_data = [255, 0, 7]\<rparr>"

lemma sample_state_ok:
  "nd_dtype sample_state = DF32 \<and> nd_ndim sample_state = 1 \<and> wire_ok sample_state \<and>
   nd_isfinite sample_state \<and> length (nd_data sample_state) \<le> MAX_TENSOR_BYTES"
  by (simp add: sample_state_def wire_ok_def nd_wf_of_f32s nd_isfinite_def f32_finite_def
      f32_exponent_def MAX_TENSOR_BYTES_def) (simp add: nd_of_f32s_def)

lemma sample_image_ok:
  "image_entry_ok (n, sample_image, t) \<and> hwc_channels_ok (nd_shape sample_image) \<and>
   length (nd_data sample_image) \<le> MAX_TENSOR_BYTES"
  by (simp add: sample_image_def wire_ok_def nd_wf_def hwc_channels_ok_def MAX_TENSOR_BYTES_def)

theorem tensor_roundtrip_witness:
  "\<exists>t. pack_array (\<lambda>d a. Ok a) sample_image (Some ''u8'') = Ok t \<and> unpack_array (PDict t) = Ok sample_image"
  by (rule tensor_roundtrip)
    (simp_all add: sample_image_def wire_ok_def nd_wf_def MAX_TENSOR_RANK_def MAX_TENSOR_BYTES_def wire_u8)

text \<open>
  Everything \<open>unpack_array\<close> accepts is a well-formed array: its byte length
  is the product of its extents times the element size, its rank is at most
  eight and it is at most 48 MiB.  Hence \<open>reshape\<close> after \<open>frombuffer\<close> never fails
  on a message that passed the checks.
\<close>
theorem unpack_array_wellformed:
  assumes "unpack_array v = Ok a"
  shows "nd_wf a \<and> nd_ndim a \<le> 8 \<and> length (nd_data a) \<le> 48 * 1024 * 1024"
  using unpack_array_Ok [OF assms] by (simp add: MAX_TENSOR_RANK_def MAX_TENSOR_BYTES_def)

theorem unpack_array_wellformed_witness:
  "nd_wf sample_image \<and> nd_ndim sample_image \<le> 8 \<and> length (nd_data sample_image) \<le> 48 * 1024 * 1024"
proof -
  have "unpack_array (PDict [(PStr ''dtype'', PStr ''u8''),
      (PStr ''shape'', PList [PInt 1, PInt 1, PInt 3]), (PStr ''data'', PBytes [255, 0, 7])]) = Ok sample_image"
    by (simp add: dget_none_def MAX_TENSOR_RANK_def MAX_TENSOR_BYTES_def sample_image_def wire_u8)
  then show ?thesis by (rule unpack_array_wellformed)
qed

text \<open>
  C2: A request survives the wire.  For arguments within the protocol's limits
  (pairwise different image names, \<open>uint8\<close> HWC images, a finite rank-one
  \<open>float32\<close> state), \<open>make_infer_request\<close> builds a message and
  \<open>parse_infer_request\<close> recovers exactly the values that were sent.
\<close>
theorem infer_request_roundtrip:
  assumes "sendable rid step ts instr images state tmo"
  shows "\<exists>m. make_infer_request cast rid step ts instr images state tmo = Ok m \<and>
    parse_infer_request m = Ok (received_request rid step ts instr images state tmo)"
proof -
  obtain m where m: "make_infer_request cast rid step ts instr images state tmo = Ok m"
    using make_infer_request_sendable [OF assms] by blast
  have "parse_infer_request m = Ok (received_request rid step ts instr images state tmo)"
    using assms by (intro parse_make_infer_request [OF m]) (auto simp: sendable_def list_all_iff)
  with m show ?thesis by blast
qed

theorem infer_request_roundtrip_witness:
  "\<exists>m. make_infer_request (\<lambda>d a. Ok a) 3 0 5 ''go'' [(''head'', sample_image, 5)] sample_state (Fin 250) = Ok m \<and>
    parse_infer_request m = Ok (received_request 3 0 5 ''go'' [(''head'', sample_image, 5)] sample_state (Fin 250))"
  by (rule infer_request_roundtrip)
    (use sample_state_ok sample_image_ok in
      \<open>simp add: sendable_def MAX_INSTRUCTION_BYTES_def timeout_ok_def MAX_TIMEOUT_MS_def MAX_IMAGES_def\<close>)


text \<open>
  The validation is not total in \<open>ProtocolError\<close>: a tensor whose \<open>dtype\<close> is a
  list or a map makes \<open>unpack_array\<close> raise \<open>TypeError\<close> from the membership test,
  whatever the other fields are.
\<close>
theorem unhashable_dtype_escapes:
  assumes "dget t ''dtype'' = Some v" and "\<not> hashable v"
  shows "unpack_array (PDict t) = Err (TypeError ''unhashable type'')"
  using assms by (cases v) (simp_all add: dget_none_def)

theorem unhashable_dtype_escapes_witness:
  "unpack_array (PDict [(PStr ''dtype'', PList [PStr ''f32''])]) = Err (TypeError ''unhashable type'')"
  by (rule unhashable_dtype_escapes [of _ "PList [PStr ''f32'']"]) simp_all

text \<open>
  A response survives the wire and is tied to its request.  The message
  \<open>make_action_response\<close> builds for a \<open>float32\<close> chunk is accepted by
  \<open>parse_action_response\<close>, which recovers the chunk to the bit; it carries the
  protocol version, the identifier and the control step of the request.
\<close>
theorem action_response_roundtrip:
  assumes "make_action_response cast r a rep period timing = Ok m"
    and "nd_dtype a = DF32" and "wire_ok a"
  shows "\<exists>p. parse_action_response m = Ok p \<and> ar_actions p = a \<and>
    dget (ar_message p) ''protocol'' = Some (PStr PROTOCOL_VERSION) \<and>
    dget (ar_message p) ''request_id'' = Some (PInt (rq_request_id r)) \<and>
    dget (ar_message p) ''first_control_step'' = Some (PInt (rq_control_step r)) \<and>
    dget (ar_message p) ''representation'' = Some (PStr rep)"
  using parse_make_action_response [OF assms] by simp

definition sample_chunk :: ndarray where
  "sample_chunk = nd_of_f32s [1, 2] [0x3F800000, 0]"

definition sample_request :: infer_req where
  "sample_request = received_request 3 0 5 ''go'' [(''head'', sample_image, 5)] sample_state (Fin 250)"

lemma sample_chunk_ok:
  "nd_dtype sample_chunk = DF32 \<and> nd_shape sample_chunk = [1, 2] \<and> wire_ok sample_chunk \<and>
   nd_isfinite sample_chunk \<and> length (nd_data sample_chunk) = 8"
  by (simp add: sample_chunk_def wire_ok_def nd_wf_of_f32s nd_isfinite_def f32_finite_def
      f32_exponent_def) (simp add: nd_of_f32s_def)

theorem action_response_roundtrip_witness:
  "\<exists>m p. make_action_response (\<lambda>d a. Ok a) sample_request sample_chunk ''delta'' 20 [] = Ok m \<and>
     parse_action_response m = Ok p \<and> ar_actions p = sample_chunk \<and>
     dget (ar_message p) ''request_id'' = Some (PInt 3)"
proof -
  obtain t where "pack_array (\<lambda>d a. Ok a) sample_chunk (Some ''f32'') = Ok t"
    using pack_array_fits [of "''f32''" sample_chunk] sample_chunk_ok
    by (auto simp: wire_f32 MAX_TENSOR_RANK_def MAX_TENSOR_BYTES_def)
  then obtain m where m: "make_action_response (\<lambda>d a. Ok a) sample_request sample_chunk ''delta'' 20 [] = Ok m"
    using sample_chunk_ok by (simp add: make_action_response_def action_representations_def)
  from action_response_roundtrip [OF this] sample_chunk_ok m show ?thesis
    by (auto simp: sample_request_def received_request_def)
qed

text \<open>
  Reading from a stream socket does not depend on how the network cuts the
  stream.  With at least \<open>sz\<close> bytes to come, \<open>recv_exact\<close> returns exactly the
  next \<open>sz\<close> bytes and leaves the rest unread, for every segmentation; with fewer
  it raises \<open>ConnectionError\<close>.  It always returns.
\<close>
theorem recv_exact_exact:
  assumes "[] \<notin> set s"
  shows "if sz \<le> length (concat s)
    then \<exists>s'. recv_exact s sz [] = Ok (take sz (concat s), s') \<and> concat s' = drop sz (concat s)
    else recv_exact s sz [] = Err (ConnectionError ''peer closed the connection'')"
  using recv_exact_spec [OF assms, of "[]" sz] by (auto split: if_splits)

theorem recv_exact_exact_witness:
  "\<exists>s'. recv_exact [[1, 2], [3, 4, 5]] 3 [] = Ok ([1, 2, 3], s') \<and> concat s' = [4, 5]"
  using recv_exact_exact [of "[[1, 2], [3, 4, 5]]" 3] by (simp add: numeral_3_eq_3)

text \<open>
  Decoding inverts encoding.  If MessagePack's \<open>unpackb\<close> inverts its \<open>packb\<close>,
  every message of this protocol version that \<open>encode_message\<close> accepts is
  recovered by \<open>decode_message\<close>.
\<close>
theorem message_codec_roundtrip:
  assumes "encode_message packb m = Ok b" and "\<And>v p. packb v = Ok p \<Longrightarrow> unpackb p = Ok v"
    and "dget m ''protocol'' = Some (PStr PROTOCOL_VERSION)"
  shows "decode_message unpackb b = Ok m"
  using assms by (rule decode_encode_message)

theorem message_codec_roundtrip_witness:
  "decode_message (\<lambda>p. if p = [128] then Ok (PDict (make_hello [])) else Err (ValueError ''bad''))
     [128] = Ok (make_hello [])"
  by (rule message_codec_roundtrip
        [where packb = "\<lambda>v. if v = PDict (make_hello []) then Ok [128] else Err (TypeError ''x'')"])
    (auto simp: encode_message_def MAX_MESSAGE_BYTES_def make_hello_def split: if_splits)

end
