(* ===== verification/Scheduler.thy ===== *)
theory Scheduler
  imports Contracts
begin

text \<open>
  The request scheduler of \<open>core/scheduler.py\<close>: a bounded queue filled by any
  number of client threads and one worker thread that coalesces requests into
  batches, drops cancelled and expired ones and hands the rest to a runner.

  The worker's loop is a program counter (\<open>wpc\<close>); one rule of \<open>sched_step\<close> is
  one atomic action of the worker, of a client inside \<open>submit\<close>, \<open>cancel\<close> or
  \<open>close\<close>, or the passing of time, so every interleaving of the threads is a
  run.  \<open>time.monotonic()\<close> is the clock \<open>sc_now\<close>.  Futures are numbered in the
  order their requests enter the queue.  The runner is a parameter: it may
  change its own state and may raise.  Four ghost fields count what the source
  does not: requests enqueued but not yet counted by their \<open>submit\<close>, requests
  rejected by a full queue, cancelled requests skipped, and dequeued items.
\<close>

section \<open>Batch policy\<close>

record batch_policy =
  bp_max_batch_size :: int
  bp_batch_wait_ms :: pyfloat
  bp_max_queue_size :: int

definition default_batch_policy :: batch_policy where
  "default_batch_policy =
     \<lparr>bp_max_batch_size = 4, bp_batch_wait_ms = Fin 2, bp_max_queue_size = 32\<rparr>"

definition batch_policy_post_init :: "batch_policy \<Rightarrow> batch_policy res" where
  "batch_policy_post_init p =
     (if bp_max_batch_size p < 1 \<or> bp_max_queue_size p < 1
      then Err (ValueError ''max_batch_size and max_queue_size must be positive'')
      else if pf_lt (bp_batch_wait_ms p) (Fin 0)
      then Err (ValueError ''batch_wait_ms must be non-negative'')
      else Ok p)"

fun batch_policy_from_mapping :: "pyval \<Rightarrow> batch_policy res" where
  "batch_policy_from_mapping PNone = batch_policy_post_init default_batch_policy"
| "batch_policy_from_mapping (PDict d) =
     res_bind (py_int (dget_or d ''max_batch_size'' (PInt 4))) (\<lambda>b.
     res_bind (py_float (dget_or d ''batch_wait_ms'' (PFloat (Fin 2)))) (\<lambda>w.
     res_bind (py_int (dget_or d ''max_queue_size'' (PInt 32))) (\<lambda>q.
       batch_policy_post_init
         \<lparr>bp_max_batch_size = b, bp_batch_wait_ms = w, bp_max_queue_size = q\<rparr>)))"
| "batch_policy_from_mapping _ = Err (TypeError ''batch_policy must be a mapping or None'')"

section \<open>State\<close>

datatype 'o fut = FPending | FCancelled | FResult 'o | FExc pyerr

record 'b queue_item =
  qi_request :: "'b inference_request"
  qi_future :: nat

datatype ('b, 'o) wpc =
    WIdle
  | WGet
  | WCollect "'b queue_item list" real
  | WFilter "'b queue_item list" "'b queue_item list" real
  | WExpire "'b queue_item" "'b queue_item list" "'b queue_item list" real
  | WExec "'b queue_item list" real
  | WResolve "('b queue_item \<times> 'o) list" nat
  | WFail "'b queue_item list" pyerr nat
  | WExited
  | WCrashed

record ('b, 'o, 's) sched =
  sc_policy :: batch_policy
  sc_now :: real
  sc_queue :: "'b queue_item option list"
  sc_stop :: bool
  sc_futures :: "nat \<Rightarrow> 'o fut"
  sc_requests :: "nat \<Rightarrow> 'b inference_request option"
  sc_next :: nat
  sc_worker :: "('b, 'o) wpc"
  sc_runner :: 's
  sc_submitted :: nat
  sc_completed :: nat
  sc_failed :: nat
  sc_expired :: nat
  sc_closing :: nat
  sc_uncounted :: nat
  sc_rejected :: nat
  sc_skipped :: nat
  sc_taken :: nat

definition sched_init :: "batch_policy \<Rightarrow> real \<Rightarrow> 's \<Rightarrow> ('b, 'o, 's) sched" where
  "sched_init p now r =
     \<lparr>sc_policy = p, sc_now = now, sc_queue = [], sc_stop = False,
      sc_futures = (\<lambda>_. FPending), sc_requests = (\<lambda>_. None), sc_next = 0,
      sc_worker = WIdle, sc_runner = r, sc_submitted = 0, sc_completed = 0,
      sc_failed = 0, sc_expired = 0, sc_closing = 0, sc_uncounted = 0, sc_rejected = 0,
      sc_skipped = 0, sc_taken = 0\<rparr>"

definition sched_stats :: "('b, 'o, 's) sched \<Rightarrow> (string \<times> nat) list" where
  "sched_stats s =
     [(''submitted'', sc_submitted s), (''completed'', sc_completed s), (''failed'', sc_failed s),
      (''expired'', sc_expired s), (''queue_depth'', length (sc_queue s))]"

abbreviation queue_full :: "('b, 'o, 's) sched \<Rightarrow> bool" where
  "queue_full s \<equiv> bp_max_queue_size (sc_policy s) \<le> int (length (sc_queue s))"

section \<open>Operations\<close>

text \<open>\<open>submit\<close> takes an envelope or a plain dictionary.\<close>

datatype 'b submission = SubRequest "'b inference_request" | SubDict "'b payload"

fun deadline_after :: "real \<Rightarrow> pyfloat \<Rightarrow> pyfloat" where
  "deadline_after now (Fin t) = Fin (now + t / 1000)"
| "deadline_after now t = t"

definition submit_envelope ::
    "real \<Rightarrow> 'b submission \<Rightarrow> pyfloat option \<Rightarrow> 'b inference_request res" where
  "submit_envelope now sub deadline =
     (let envelope = (case sub of SubRequest r \<Rightarrow> r
                      | SubDict p \<Rightarrow> \<lparr>ir_payload = p, ir_deadline = deadline\<rparr>)
      in case deadline of
           Some d \<Rightarrow> Ok (envelope\<lparr>ir_deadline := Some d\<rparr>)
         | None \<Rightarrow>
             (case ir_deadline envelope of
                Some d \<Rightarrow> Ok envelope
              | None \<Rightarrow> res_bind (ir_timeout_ms envelope) (\<lambda>t.
                  Ok (envelope\<lparr>ir_deadline := Some (deadline_after now t)\<rparr>))))"

text \<open>\<open>put_nowait(_QueueItem(envelope, future))\<close> on a queue with room.\<close>

definition submit_put :: "'b inference_request \<Rightarrow> ('b, 'o, 's) sched \<Rightarrow> ('b, 'o, 's) sched" where
  "submit_put r s =
     s\<lparr>sc_queue := sc_queue s @ [Some \<lparr>qi_request = r, qi_future = sc_next s\<rparr>],
       sc_futures := (sc_futures s)(sc_next s := FPending),
       sc_requests := (sc_requests s)(sc_next s := Some r),
       sc_next := Suc (sc_next s), sc_uncounted := Suc (sc_uncounted s)\<rparr>"

definition submit_count :: "('b, 'o, 's) sched \<Rightarrow> ('b, 'o, 's) sched" where
  "submit_count s = s\<lparr>sc_uncounted := sc_uncounted s - 1, sc_submitted := Suc (sc_submitted s)\<rparr>"

definition submit_full :: "('b, 'o, 's) sched \<Rightarrow> ('b, 'o, 's) sched" where
  "submit_full s = s\<lparr>sc_failed := Suc (sc_failed s), sc_rejected := Suc (sc_rejected s)\<rparr>"

definition close_begin :: "('b, 'o, 's) sched \<Rightarrow> ('b, 'o, 's) sched" where
  "close_begin s = s\<lparr>sc_stop := True, sc_closing := Suc (sc_closing s)\<rparr>"

definition close_put :: "('b, 'o, 's) sched \<Rightarrow> ('b, 'o, 's) sched" where
  "close_put s = s\<lparr>sc_closing := sc_closing s - 1,
     sc_queue := (if queue_full s then sc_queue s else sc_queue s @ [None])\<rparr>"

text \<open>\<open>Future.set_result\<close> and \<open>set_exception\<close> raise unless the future is pending.\<close>

definition set_future ::
    "nat \<Rightarrow> 'o fut \<Rightarrow> ('b, 'o, 's) sched \<Rightarrow> ('b, 'o, 's) sched option" where
  "set_future f v s =
     (if sc_futures s f = FPending then Some (s\<lparr>sc_futures := (sc_futures s)(f := v)\<rparr>) else None)"

definition batch_remaining :: "('b, 'o, 's) sched \<Rightarrow> real \<Rightarrow> pyfloat" where
  "batch_remaining s started =
     (case bp_batch_wait_ms (sc_policy s) of
        Fin w \<Rightarrow> Fin (w / 1000 - (sc_now s - started)) | w \<Rightarrow> w)"

definition collecting :: "('b, 'o, 's) sched \<Rightarrow> 'b queue_item list \<Rightarrow> real \<Rightarrow> bool" where
  "collecting s batch started =
     (int (length batch) < bp_max_batch_size (sc_policy s) \<and>
      \<not> pf_le (batch_remaining s started) (Fin 0))"

definition deadline_passed :: "real \<Rightarrow> 'b queue_item \<Rightarrow> bool" where
  "deadline_passed now it =
     (case ir_deadline (qi_request it) of None \<Rightarrow> False | Some d \<Rightarrow> pf_le d (Fin now))"

abbreviation expired_exc :: "'o fut" where
  "expired_exc \<equiv> FExc (TimeoutError ''request deadline expired in scheduler queue'')"

definition worker_execute ::
    "('s \<Rightarrow> 'b inference_request list \<Rightarrow> 's \<times> 'o list res) \<Rightarrow> 'b queue_item list \<Rightarrow>
     ('b, 'o, 's) sched \<Rightarrow> ('b, 'o, 's) sched" where
  "worker_execute run valid s =
     (case run (sc_runner s) (map qi_request valid) of
        (r', Err e) \<Rightarrow> s\<lparr>sc_runner := r', sc_worker := WFail valid e (length valid)\<rparr>
      | (r', Ok outputs) \<Rightarrow>
          (if length outputs \<noteq> length valid
           then s\<lparr>sc_runner := r',
                  sc_worker := WFail valid (RuntimeError ''scheduler runner returned wrong number of outputs'')
                                 (length valid)\<rparr>
           else s\<lparr>sc_runner := r', sc_worker := WResolve (zip valid outputs) (length valid)\<rparr>))"

section \<open>Steps\<close>

inductive worker_step ::
    "('s \<Rightarrow> 'b inference_request list \<Rightarrow> 's \<times> 'o list res) \<Rightarrow>
     ('b, 'o, 's) sched \<Rightarrow> ('b, 'o, 's) sched \<Rightarrow> bool" for run where
  w_loop: "sc_worker s = WIdle \<Longrightarrow> \<not> sc_stop s \<Longrightarrow> worker_step run s (s\<lparr>sc_worker := WGet\<rparr>)"
| w_stop: "sc_worker s = WIdle \<Longrightarrow> sc_stop s \<Longrightarrow> worker_step run s (s\<lparr>sc_worker := WExited\<rparr>)"
| w_empty: "sc_worker s = WGet \<Longrightarrow> sc_queue s = [] \<Longrightarrow> worker_step run s (s\<lparr>sc_worker := WIdle\<rparr>)"
| w_sentinel: "sc_worker s = WGet \<Longrightarrow> sc_queue s = None # q \<Longrightarrow>
    worker_step run s (s\<lparr>sc_queue := q, sc_worker := WExited\<rparr>)"
| w_first: "sc_worker s = WGet \<Longrightarrow> sc_queue s = Some it # q \<Longrightarrow>
    worker_step run s (s\<lparr>sc_queue := q, sc_taken := Suc (sc_taken s),
      sc_worker := WCollect [it] (sc_now s)\<rparr>)"
| w_more: "sc_worker s = WCollect batch started \<Longrightarrow> collecting s batch started \<Longrightarrow>
    sc_queue s = Some it # q \<Longrightarrow>
    worker_step run s (s\<lparr>sc_queue := q, sc_taken := Suc (sc_taken s),
      sc_worker := WCollect (batch @ [it]) started\<rparr>)"
| w_more_sentinel: "sc_worker s = WCollect batch started \<Longrightarrow> collecting s batch started \<Longrightarrow>
    sc_queue s = None # q \<Longrightarrow>
    worker_step run s (s\<lparr>sc_queue := q, sc_stop := True, sc_worker := WFilter batch [] started\<rparr>)"
| w_window: "sc_worker s = WCollect batch started \<Longrightarrow>
    \<not> collecting s batch started \<or> sc_queue s = [] \<Longrightarrow>
    worker_step run s (s\<lparr>sc_worker := WFilter batch [] started\<rparr>)"
| w_cancelled: "sc_worker s = WFilter (it # todo) valid started \<Longrightarrow>
    sc_futures s (qi_future it) = FCancelled \<Longrightarrow>
    worker_step run s (s\<lparr>sc_skipped := Suc (sc_skipped s), sc_worker := WFilter todo valid started\<rparr>)"
| w_late: "sc_worker s = WFilter (it # todo) valid started \<Longrightarrow>
    sc_futures s (qi_future it) \<noteq> FCancelled \<Longrightarrow> deadline_passed (sc_now s) it \<Longrightarrow>
    worker_step run s (s\<lparr>sc_worker := WExpire it todo valid started\<rparr>)"
| w_expire: "sc_worker s = WExpire it todo valid started \<Longrightarrow>
    set_future (qi_future it) expired_exc s = Some s' \<Longrightarrow>
    worker_step run s (s'\<lparr>sc_expired := Suc (sc_expired s), sc_worker := WFilter todo valid started\<rparr>)"
| w_expire_crash: "sc_worker s = WExpire it todo valid started \<Longrightarrow>
    set_future (qi_future it) (expired_exc :: 'o fut) s = None \<Longrightarrow>
    worker_step run s (s\<lparr>sc_worker := WCrashed\<rparr>)"
| w_valid: "sc_worker s = WFilter (it # todo) valid started \<Longrightarrow>
    sc_futures s (qi_future it) \<noteq> FCancelled \<Longrightarrow> \<not> deadline_passed (sc_now s) it \<Longrightarrow>
    worker_step run s (s\<lparr>sc_worker := WFilter todo (valid @ [it]) started\<rparr>)"
| w_none_valid: "sc_worker s = WFilter [] [] started \<Longrightarrow> worker_step run s (s\<lparr>sc_worker := WIdle\<rparr>)"
| w_dispatch: "sc_worker s = WFilter [] valid started \<Longrightarrow> valid \<noteq> [] \<Longrightarrow>
    worker_step run s (s\<lparr>sc_worker := WExec valid started\<rparr>)"
| w_execute: "sc_worker s = WExec valid started \<Longrightarrow> worker_step run s (worker_execute run valid s)"
| w_result: "sc_worker s = WResolve ((it, out) # rest) n \<Longrightarrow>
    set_future (qi_future it) (FResult out) s = Some s' \<Longrightarrow>
    worker_step run s (s'\<lparr>sc_worker := WResolve rest n\<rparr>)"
| w_result_crash: "sc_worker s = WResolve ((it, out) # rest) n \<Longrightarrow>
    set_future (qi_future it) (FResult out) s = None \<Longrightarrow>
    worker_step run s (s\<lparr>sc_worker := WCrashed\<rparr>)"
| w_completed: "sc_worker s = WResolve [] n \<Longrightarrow>
    worker_step run s (s\<lparr>sc_completed := sc_completed s + n, sc_worker := WIdle\<rparr>)"
| w_exception: "sc_worker s = WFail (it # rest) e n \<Longrightarrow>
    set_future (qi_future it) (FExc e) s = Some s' \<Longrightarrow>
    worker_step run s (s'\<lparr>sc_worker := WFail rest e n\<rparr>)"
| w_exception_crash: "sc_worker s = WFail (it # rest) e n \<Longrightarrow>
    set_future (qi_future it) (FExc e :: 'o fut) s = None \<Longrightarrow>
    worker_step run s (s\<lparr>sc_worker := WCrashed\<rparr>)"
| w_failed: "sc_worker s = WFail [] e n \<Longrightarrow>
    worker_step run s (s\<lparr>sc_failed := sc_failed s + n, sc_worker := WIdle\<rparr>)"

inductive client_step :: "('b, 'o, 's) sched \<Rightarrow> ('b, 'o, 's) sched \<Rightarrow> bool" where
  c_put: "submit_envelope (sc_now s) sub d = Ok r \<Longrightarrow> \<not> queue_full s \<Longrightarrow> client_step s (submit_put r s)"
| c_count: "0 < sc_uncounted s \<Longrightarrow> client_step s (submit_count s)"
| c_full: "submit_envelope (sc_now s) (sub :: 'b submission) d = Ok r \<Longrightarrow> queue_full s \<Longrightarrow> client_step s (submit_full s)"
| c_cancel: "i < sc_next s \<Longrightarrow> sc_futures s i = FPending \<Longrightarrow>
    client_step s (s\<lparr>sc_futures := (sc_futures s)(i := FCancelled)\<rparr>)"
| c_close: "\<not> sc_stop s \<Longrightarrow> client_step s (close_begin s)"
| c_sentinel: "0 < sc_closing s \<Longrightarrow> client_step s (close_put s)"
| c_tick: "sc_now s \<le> now' \<Longrightarrow> client_step s (s\<lparr>sc_now := now'\<rparr>)"

definition sched_step ::
    "('s \<Rightarrow> 'b inference_request list \<Rightarrow> 's \<times> 'o list res) \<Rightarrow>
     ('b, 'o, 's) sched \<Rightarrow> ('b, 'o, 's) sched \<Rightarrow> bool" where
  "sched_step run s t = (worker_step run s t \<or> client_step s t)"

inductive sched_reach ::
    "('s \<Rightarrow> 'b inference_request list \<Rightarrow> 's \<times> 'o list res) \<Rightarrow> ('b, 'o, 's) sched \<Rightarrow>
     ('b, 'o, 's) sched \<Rightarrow> bool" for run where
  reach_refl: "sched_reach run s s"
| reach_step: "sched_reach run s t \<Longrightarrow> sched_step run t u \<Longrightarrow> sched_reach run s u"

section \<open>Invariants\<close>

fun held :: "('b, 'o) wpc \<Rightarrow> 'b queue_item list" where
  "held (WCollect batch _) = batch"
| "held (WFilter todo valid _) = valid @ todo"
| "held (WExpire it todo valid _) = valid @ it # todo"
| "held (WExec valid _) = valid"
| "held (WResolve ps _) = map fst ps"
| "held (WFail its _ _) = its"
| "held _ = []"

definition queue_items :: "('b, 'o, 's) sched \<Rightarrow> 'b queue_item list" where
  "queue_items s = map the (filter (\<lambda>x. x \<noteq> None) (sc_queue s))"

definition policy_ok :: "batch_policy \<Rightarrow> bool" where
  "policy_ok p = (1 \<le> bp_max_batch_size p \<and> 1 \<le> bp_max_queue_size p)"

text \<open>The queue is bounded, and a sentinel is in it only after \<open>close\<close>.\<close>

definition inv_queue :: "('b, 'o, 's) sched \<Rightarrow> bool" where
  "inv_queue s =
     (policy_ok (sc_policy s) \<and> int (length (sc_queue s)) \<le> bp_max_queue_size (sc_policy s) \<and>
      (None \<in> set (sc_queue s) \<or> 0 < sc_closing s \<longrightarrow> sc_stop s))"

text \<open>
  First in, first out: the queue holds the futures from \<open>sc_taken\<close> on, in order;
  the worker holds earlier ones, in order; held and queued futures are unresolved.
\<close>

definition tracked :: "('b, 'o, 's) sched \<Rightarrow> 'b queue_item \<Rightarrow> bool" where
  "tracked s it =
     (sc_requests s (qi_future it) = Some (qi_request it) \<and>
      sc_futures s (qi_future it) \<in> {FPending, FCancelled})"

definition inv_order :: "('b, 'o, 's) sched \<Rightarrow> bool" where
  "inv_order s =
     (map qi_future (queue_items s) = [sc_taken s ..< sc_next s] \<and> sc_taken s \<le> sc_next s \<and>
      sorted_wrt (<) (map qi_future (held (sc_worker s))) \<and>
      (\<forall>it \<in> set (held (sc_worker s)). qi_future it < sc_taken s) \<and>
      (\<forall>it \<in> set (held (sc_worker s)). tracked s it) \<and> (\<forall>it \<in> set (queue_items s). tracked s it))"

text \<open>Batches respect the policy; no request past its deadline stays in a batch.\<close>

fun inv_pc :: "int \<Rightarrow> nat \<Rightarrow> real \<Rightarrow> ('b, 'o) wpc \<Rightarrow> bool" where
  "inv_pc mx tk now (WCollect batch st) =
     (batch \<noteq> [] \<and> int (length batch) \<le> mx \<and> st \<le> now \<and>
      map qi_future batch = [tk - length batch ..< tk] \<and> length batch \<le> tk)"
| "inv_pc mx tk now (WFilter todo valid st) =
     (int (length todo + length valid) \<le> mx \<and> st \<le> now \<and> list_all (\<lambda>it. \<not> deadline_passed st it) valid)"
| "inv_pc mx tk now (WExpire it todo valid st) =
     (int (Suc (length todo + length valid)) \<le> mx \<and> st \<le> now \<and>
      list_all (\<lambda>it. \<not> deadline_passed st it) valid \<and> deadline_passed now it)"
| "inv_pc mx tk now (WExec valid st) =
     (valid \<noteq> [] \<and> int (length valid) \<le> mx \<and> st \<le> now \<and> list_all (\<lambda>it. \<not> deadline_passed st it) valid)"
| "inv_pc mx tk now (WResolve ps n) = (length ps \<le> n)"
| "inv_pc mx tk now (WFail its e n) = (length its \<le> n)"
| "inv_pc mx tk now _ = True"

definition inv_batch :: "('b, 'o, 's) sched \<Rightarrow> bool" where
  "inv_batch s = inv_pc (bp_max_batch_size (sc_policy s)) (sc_taken s) (sc_now s) (sc_worker s)"

text \<open>Every accepted request is in exactly one place; \<open>unposted\<close> are resolved but not yet counted.\<close>

fun unposted :: "('b, 'o) wpc \<Rightarrow> nat" where
  "unposted (WResolve ps n) = n - length ps"
| "unposted (WFail its _ n) = n - length its"
| "unposted _ = 0"

definition inv_count :: "('b, 'o, 's) sched \<Rightarrow> bool" where
  "inv_count s =
     (sc_next s = sc_submitted s + sc_uncounted s \<and>
      (sc_worker s \<noteq> WCrashed \<longrightarrow>
         sc_taken s + sc_rejected s =
           length (held (sc_worker s)) + unposted (sc_worker s) + sc_completed s + sc_failed s +
           sc_expired s + sc_skipped s))"

lemma queue_items_simps [simp]:
  "sc_queue s = [] \<Longrightarrow> queue_items s = []"
  "sc_queue s = None # q \<Longrightarrow> queue_items s = map the (filter (\<lambda>x. x \<noteq> None) q)"
  "sc_queue s = Some it # q \<Longrightarrow> queue_items s = it # map the (filter (\<lambda>x. x \<noteq> None) q)"
  by (simp_all add: queue_items_def)

lemma deadline_passed_mono: "deadline_passed st it \<Longrightarrow> st \<le> now \<Longrightarrow> deadline_passed now it"
proof -
  assume a: "deadline_passed st it" "st \<le> now"
  then obtain d where "ir_deadline (qi_request it) = Some d" "pf_le d (Fin st)"
    by (auto simp: deadline_passed_def split: option.splits)
  with a(2) show ?thesis
    by (cases d) (auto simp: deadline_passed_def)
qed

lemma set_future_Some:
  "(set_future f v s = Some s') =
     (sc_futures s f = FPending \<and> s' = s\<lparr>sc_futures := (sc_futures s)(f := v)\<rparr>)"
  by (auto simp: set_future_def)

lemma upt_Cons_eq: "[i ..< j] = x # xs \<Longrightarrow> x = i \<and> i < j \<and> xs = [Suc i ..< j]"
  by (cases "i < j") (auto simp: upt_conv_Cons)

section \<open>Preservation\<close>

lemma inv_queue_worker [ei_inv]: "worker_step run s t \<Longrightarrow> inv_queue s \<Longrightarrow> inv_queue t"
  by (induction rule: worker_step.induct)
    (auto simp: inv_queue_def set_future_Some worker_execute_def split: prod.splits res.splits)

lemma inv_queue_client [ei_inv]: "client_step s t \<Longrightarrow> inv_queue s \<Longrightarrow> inv_queue t"
  by (induction rule: client_step.induct)
    (auto simp: inv_queue_def submit_put_def submit_count_def submit_full_def close_begin_def close_put_def)

lemma held_worker_execute:
  "sc_worker s = WExec valid st \<Longrightarrow> held (sc_worker (worker_execute run valid s)) = valid"
  by (auto simp: worker_execute_def split: prod.splits res.splits)

lemma worker_execute_frame [simp]:
  "sc_policy (worker_execute run valid s) = sc_policy s"
  "sc_now (worker_execute run valid s) = sc_now s"
  "sc_queue (worker_execute run valid s) = sc_queue s"
  "sc_stop (worker_execute run valid s) = sc_stop s"
  "sc_futures (worker_execute run valid s) = sc_futures s"
  "sc_requests (worker_execute run valid s) = sc_requests s"
  "sc_next (worker_execute run valid s) = sc_next s"
  "sc_taken (worker_execute run valid s) = sc_taken s"
  "sc_submitted (worker_execute run valid s) = sc_submitted s"
  "sc_uncounted (worker_execute run valid s) = sc_uncounted s"
  "sc_completed (worker_execute run valid s) = sc_completed s"
  "sc_failed (worker_execute run valid s) = sc_failed s"
  "sc_expired (worker_execute run valid s) = sc_expired s"
  "sc_skipped (worker_execute run valid s) = sc_skipped s"
  "sc_rejected (worker_execute run valid s) = sc_rejected s"
  "sc_closing (worker_execute run valid s) = sc_closing s"
  by (simp_all add: worker_execute_def split: prod.splits res.splits)

lemma queue_items_cong: "sc_queue s = sc_queue t \<Longrightarrow> queue_items s = queue_items t"
  by (simp add: queue_items_def)

text \<open>An item leaves the worker's hands: its future is no other held or queued future.\<close>

lemma inv_order_release:
  assumes "inv_order s" and "held (sc_worker s) = pre @ it # post"
  shows "\<forall>x \<in> set pre \<union> set post \<union> set (queue_items s). qi_future x \<noteq> qi_future it"
proof -
  have q: "\<forall>x \<in> set (queue_items s). sc_taken s \<le> qi_future x"
  proof
    fix x assume "x \<in> set (queue_items s)"
    then have "qi_future x \<in> set (map qi_future (queue_items s))" by simp
    with assms(1) show "sc_taken s \<le> qi_future x" by (simp add: inv_order_def)
  qed
  moreover have "qi_future it < sc_taken s"
    using assms by (auto simp: inv_order_def)
  moreover have "sorted_wrt (<) (map qi_future (pre @ it # post))"
    using assms by (auto simp: inv_order_def)
  ultimately show ?thesis
    by (fastforce simp: sorted_wrt_append)
qed

lemma inv_order_frame:
  assumes "inv_order s" and "set (held (sc_worker t)) \<subseteq> set (held (sc_worker s))"
    and "sorted_wrt (<) (map qi_future (held (sc_worker t)))"
    and "queue_items t = queue_items s" and "sc_taken t = sc_taken s" and "sc_next t = sc_next s"
    and "\<And>it. it \<in> set (held (sc_worker t)) \<union> set (queue_items s) \<Longrightarrow> tracked s it \<Longrightarrow> tracked t it"
  shows "inv_order t"
  using assms unfolding inv_order_def by (auto simp: subset_iff)

lemma inv_order_take:
  assumes "inv_order s" and "sc_queue s = Some it # q"
    and "held (sc_worker t) = held (sc_worker s) @ [it]"
    and "sc_queue t = q" and "sc_taken t = Suc (sc_taken s)" and "sc_next t = sc_next s"
    and "sc_requests t = sc_requests s" and "sc_futures t = sc_futures s"
  shows "inv_order t"
proof -
  have qs: "queue_items s = it # queue_items t"
    using assms(2,4) by (simp add: queue_items_def)
  with assms(1) have "qi_future it # map qi_future (queue_items t) = [sc_taken s ..< sc_next s]"
    by (simp add: inv_order_def)
  from upt_Cons_eq [OF this [symmetric]]
  have "qi_future it = sc_taken s" "sc_taken s < sc_next s"
      "map qi_future (queue_items t) = [Suc (sc_taken s) ..< sc_next s]"
    by auto
  moreover have "tracked t = tracked s"
    using assms by (simp add: tracked_def fun_eq_iff)
  ultimately show ?thesis
    using assms(1,3,5,6) qs by (auto simp: inv_order_def sorted_wrt_append less_Suc_eq)
qed

lemma tracked_cong:
  "sc_requests t = sc_requests s \<Longrightarrow> sc_futures t = sc_futures s \<Longrightarrow> tracked t = tracked s"
  by (simp add: tracked_def fun_eq_iff)

lemma inv_order_simple:
  assumes "inv_order s" and "held (sc_worker t) = held (sc_worker s) \<or> held (sc_worker t) = []"
    and "queue_items t = queue_items s" and "sc_taken t = sc_taken s" and "sc_next t = sc_next s"
    and "sc_requests t = sc_requests s" and "sc_futures t = sc_futures s"
  shows "inv_order t"
  using assms tracked_cong [OF assms(6,7)] by (auto simp: inv_order_def)

lemma inv_order_set_future:
  assumes "inv_order s" and "held (sc_worker s) = pre @ it # post" and "held (sc_worker t) = pre @ post"
    and "sc_queue t = sc_queue s" and "sc_taken t = sc_taken s" and "sc_next t = sc_next s"
    and "sc_requests t = sc_requests s" and "sc_futures t = (sc_futures s)(qi_future it := v)"
  shows "inv_order t"
proof (rule inv_order_frame [OF assms(1)])
  show "sorted_wrt (<) (map qi_future (held (sc_worker t)))"
    using assms(1-3) by (auto simp: inv_order_def sorted_wrt_append)
  show "queue_items t = queue_items s"
    using assms(4) by (simp add: queue_items_def)
  fix x
  assume "x \<in> set (held (sc_worker t)) \<union> set (queue_items s)" and "tracked s x"
  with inv_order_release [OF assms(1,2)] assms(3,7,8) show "tracked t x"
    by (auto simp: tracked_def)
qed (use assms in auto)

lemma inv_order_worker [ei_inv]: "worker_step run s t \<Longrightarrow> inv_order s \<Longrightarrow> inv_order t"
proof (induction rule: worker_step.induct)
  case (w_first s it q)
  then show ?case by (auto intro: inv_order_take [OF w_first.prems w_first.hyps(2)])
next
  case (w_more s batch started it q)
  then show ?case by (auto intro: inv_order_take [OF w_more.prems w_more.hyps(3)])
next
  case (w_expire s it todo valid started s')
  then show ?case
    by (auto simp: set_future_Some intro: inv_order_set_future [OF w_expire.prems])
next
  case (w_cancelled s it todo valid started)
  then show ?case
    by (auto intro: inv_order_set_future [OF w_cancelled.prems, of valid it todo _ FCancelled] simp: fun_upd_idem)
next
  case (w_result s it out rest n s')
  then show ?case
    by (auto simp: set_future_Some
        intro: inv_order_set_future [OF w_result.prems, of "[]" it "map fst rest"])
next
  case (w_exception s it rest e n s')
  then show ?case
    by (auto simp: set_future_Some intro: inv_order_set_future [OF w_exception.prems, of "[]" it rest])
next
  case (w_execute s valid started)
  with held_worker_execute [OF w_execute.hyps, of run] show ?case
    by (auto intro: inv_order_simple [OF w_execute.prems] simp: queue_items_def)
qed (erule inv_order_simple; simp add: queue_items_def)+

lemma inv_order_client [ei_inv]: "client_step s t \<Longrightarrow> inv_order s \<Longrightarrow> inv_order t"
proof (induction rule: client_step.induct)
  case (c_put s sub d r)
  let ?it = "\<lparr>qi_request = r, qi_future = sc_next s\<rparr>"
  have qi: "queue_items (submit_put r s) = queue_items s @ [?it]"
    by (simp add: queue_items_def submit_put_def)
  have lt: "qi_future x < sc_next s" if "x \<in> set (held (sc_worker s)) \<union> set (queue_items s)" for x
  proof -
    have "qi_future ` set (queue_items s) = {sc_taken s ..< sc_next s}"
      using c_put.prems by (metis inv_order_def set_map set_upt)
    with that c_put.prems show ?thesis by (auto simp: inv_order_def)
  qed
  have tr: "tracked s x \<Longrightarrow> qi_future x < sc_next s \<Longrightarrow> tracked (submit_put r s) x" for x
    by (simp add: tracked_def submit_put_def)
  have "tracked (submit_put r s) ?it"
    by (simp add: tracked_def submit_put_def)
  moreover have "\<forall>x \<in> set (held (sc_worker s)). tracked (submit_put r s) x"
    using c_put.prems lt tr by (simp add: inv_order_def)
  moreover have "\<forall>x \<in> set (queue_items s). tracked (submit_put r s) x"
    using c_put.prems lt tr by (simp add: inv_order_def)
  ultimately show ?case
    using c_put.prems unfolding inv_order_def qi by (simp add: submit_put_def)
next
  case (c_cancel i s)
  show ?case
    by (rule inv_order_frame [OF c_cancel.prems])
      (use c_cancel.prems in \<open>auto simp: queue_items_def inv_order_def tracked_def\<close>)
qed (erule inv_order_simple;
     simp add: submit_count_def submit_full_def close_begin_def close_put_def queue_items_def)+

lemma inv_pc_tick: "inv_pc mx tk now pc \<Longrightarrow> now \<le> now' \<Longrightarrow> inv_pc mx tk now' pc"
  by (cases pc) (auto dest: deadline_passed_mono)

lemma inv_batch_worker [ei_inv]:
  "worker_step run s t \<Longrightarrow> inv_batch s \<Longrightarrow> inv_order s \<Longrightarrow> inv_queue s \<Longrightarrow> inv_batch t"
proof (induction rule: worker_step.induct)
  case (w_first s it q)
  then have "qi_future it # map qi_future (map the (filter (\<lambda>x. x \<noteq> None) q)) = [sc_taken s ..< sc_next s]"
    by (simp add: inv_order_def)
  from upt_Cons_eq [OF this [symmetric]] w_first.prems show ?case
    by (simp add: inv_batch_def inv_queue_def policy_ok_def)
next
  case (w_more s batch started it q)
  then have "qi_future it # map qi_future (map the (filter (\<lambda>x. x \<noteq> None) q)) = [sc_taken s ..< sc_next s]"
    by (simp add: inv_order_def)
  from upt_Cons_eq [OF this [symmetric]] w_more show ?case
    by (simp add: inv_batch_def collecting_def Suc_diff_le)
next
  case (w_execute s valid started)
  then show ?case
    by (auto simp: inv_batch_def worker_execute_def split: prod.splits res.splits)
next
  case (w_valid s it todo valid started)
  then show ?case
    by (auto simp: inv_batch_def dest: deadline_passed_mono)
qed (auto simp: inv_batch_def set_future_Some)

lemma inv_batch_client [ei_inv]: "client_step s t \<Longrightarrow> inv_batch s \<Longrightarrow> inv_batch t"
  by (induction rule: client_step.induct)
    (auto simp: inv_batch_def submit_put_def submit_count_def submit_full_def close_begin_def
      close_put_def inv_pc_tick)

lemma inv_count_worker [ei_inv]:
  "worker_step run s t \<Longrightarrow> inv_count s \<Longrightarrow> inv_batch s \<Longrightarrow> inv_count t"
proof (induction rule: worker_step.induct)
  case (w_execute s valid started)
  then show ?case
    by (auto simp: inv_count_def worker_execute_def split: prod.splits res.splits)
qed (auto simp: inv_count_def inv_batch_def set_future_Some)

lemma inv_count_client [ei_inv]: "client_step s t \<Longrightarrow> inv_count s \<Longrightarrow> inv_count t"
  by (induction rule: client_step.induct)
    (auto simp: inv_count_def submit_put_def submit_count_def submit_full_def close_begin_def close_put_def)

text \<open>A pending future is still queued or held, unless the worker has crashed.\<close>

definition inv_pending :: "('b, 'o, 's) sched \<Rightarrow> bool" where
  "inv_pending s =
     (sc_worker s \<noteq> WCrashed \<longrightarrow>
      (\<forall>i < sc_next s. sc_futures s i = FPending \<longrightarrow>
         i \<in> qi_future ` set (held (sc_worker s)) \<union> qi_future ` set (queue_items s)))"

lemma inv_pending_worker [ei_inv]: "worker_step run s t \<Longrightarrow> inv_pending s \<Longrightarrow> inv_pending t"
proof (induction rule: worker_step.induct)
  case (w_execute s valid started)
  with held_worker_execute [OF w_execute.hyps, of run] queue_items_cong [of "worker_execute run valid s" s]
  show ?case by (simp add: inv_pending_def)
qed (fastforce simp: inv_pending_def set_future_Some queue_items_def)+

lemma queue_items_client [simp]:
  "queue_items (submit_put r s) = queue_items s @ [\<lparr>qi_request = r, qi_future = sc_next s\<rparr>]"
  "queue_items (submit_count s) = queue_items s"
  "queue_items (submit_full s) = queue_items s"
  "queue_items (close_begin s) = queue_items s"
  "queue_items (close_put s) = queue_items s"
  "queue_items (s\<lparr>sc_futures := g\<rparr>) = queue_items s"
  "queue_items (s\<lparr>sc_now := now'\<rparr>) = queue_items s"
  by (simp_all add: queue_items_def submit_put_def submit_count_def submit_full_def close_begin_def
      close_put_def)

lemma inv_pending_client [ei_inv]: "client_step s t \<Longrightarrow> inv_pending s \<Longrightarrow> inv_pending t"
  unfolding inv_pending_def
  by (induction rule: client_step.induct)
    (simp_all, auto simp: submit_put_def submit_count_def submit_full_def close_begin_def
      close_put_def less_Suc_eq)

definition sched_inv :: "('b, 'o, 's) sched \<Rightarrow> bool" where
  "sched_inv s = (inv_queue s \<and> inv_order s \<and> inv_batch s \<and> inv_count s \<and> inv_pending s)"

lemma sched_inv_init: "policy_ok p \<Longrightarrow> sched_inv (sched_init p now r)"
  by (simp add: sched_inv_def sched_init_def inv_queue_def inv_order_def inv_batch_def inv_count_def
      inv_pending_def queue_items_def policy_ok_def)

lemma sched_inv_step: "sched_step run s t \<Longrightarrow> sched_inv s \<Longrightarrow> sched_inv t"
  by (auto simp: sched_inv_def sched_step_def intro: ei_inv)

lemma sched_inv_reach: "sched_reach run s t \<Longrightarrow> sched_inv s \<Longrightarrow> sched_inv t"
  by (induction rule: sched_reach.induct) (auto intro: sched_inv_step)

lemma sched_inv_reachable:
  "sched_reach run (sched_init p now r) s \<Longrightarrow> policy_ok p \<Longrightarrow> sched_inv s"
  by (blast intro: sched_inv_reach sched_inv_init)

section \<open>Futures are resolved once\<close>

lemma future_final_step:
  assumes "sched_step run s t" and "i < sc_next s" and "sc_futures s i \<noteq> FPending"
  shows "sc_futures t i = sc_futures s i \<and> i < sc_next t"
proof -
  have w: "sc_futures t i = sc_futures s i \<and> i < sc_next t" if "worker_step run s t"
    using that assms(2,3) by (induction rule: worker_step.induct) (auto simp: set_future_Some)
  have c: "sc_futures t i = sc_futures s i \<and> i < sc_next t" if "client_step s t"
    using that assms(2,3)
    by (induction rule: client_step.induct)
      (auto simp: submit_put_def submit_count_def submit_full_def close_begin_def close_put_def)
  from assms(1) w c show ?thesis by (auto simp: sched_step_def)
qed

lemma future_final_reach:
  "sched_reach run s t \<Longrightarrow> i < sc_next s \<Longrightarrow> sc_futures s i \<noteq> FPending \<Longrightarrow>
     sc_futures t i = sc_futures s i \<and> i < sc_next t"
proof (induction rule: sched_reach.induct)
  case (reach_step s t u)
  then show ?case using future_final_step [OF reach_step.hyps(2), of i] by simp
qed simp

section \<open>Progress of the worker\<close>

fun pc_weight :: "('b, 'o) wpc \<Rightarrow> nat" where
  "pc_weight WIdle = 1"
| "pc_weight (WCollect batch _) = 3 * length batch + 5"
| "pc_weight (WFilter todo valid _) = 3 * length todo + length valid + 4"
| "pc_weight (WExpire it todo valid _) = 3 * length todo + length valid + 6"
| "pc_weight (WExec valid _) = length valid + 3"
| "pc_weight (WResolve ps _) = length ps + 2"
| "pc_weight (WFail its _ _) = length its + 2"
| "pc_weight _ = 0"

definition work_left :: "('b, 'o, 's) sched \<Rightarrow> nat" where
  "work_left s = 9 * length (sc_queue s) + pc_weight (sc_worker s)"

definition drained :: "('b, 'o, 's) sched \<Rightarrow> bool" where
  "drained s = (sc_queue s = [] \<and> sc_worker s \<in> {WIdle, WGet})"

text \<open>The worker runs, nobody has closed the scheduler, no unresolved future is cancelled.\<close>

definition undisturbed :: "('b, 'o, 's) sched \<Rightarrow> bool" where
  "undisturbed s =
     (sched_inv s \<and> \<not> sc_stop s \<and> sc_worker s \<notin> {WExited, WCrashed} \<and>
      (\<forall>i < sc_next s. sc_futures s i \<noteq> FCancelled))"

inductive worker_run ::
    "('s \<Rightarrow> 'b inference_request list \<Rightarrow> 's \<times> 'o list res) \<Rightarrow> ('b, 'o, 's) sched \<Rightarrow>
     ('b, 'o, 's) sched \<Rightarrow> bool" for run where
  run_refl: "worker_run run s s"
| run_step: "worker_step run s t \<Longrightarrow> worker_run run t u \<Longrightarrow> worker_run run s u"

lemma sched_step_worker: "worker_step run s t \<Longrightarrow> sched_step run s t"
  by (simp add: sched_step_def)

lemma sched_step_client: "client_step s t \<Longrightarrow> sched_step run s t"
  by (simp add: sched_step_def)

lemma worker_run_reach:
  "worker_run run s t \<Longrightarrow> sched_reach run r s \<Longrightarrow> sched_reach run r t"
  by (induction rule: worker_run.induct) (blast intro: reach_step sched_step_worker)+

lemma worker_step_next: "worker_step run s t \<Longrightarrow> sc_next t = sc_next s"
  by (induction rule: worker_step.induct) (auto simp: set_future_Some)

lemma worker_run_next: "worker_run run s t \<Longrightarrow> sc_next t = sc_next s"
  by (induction rule: worker_run.induct) (auto dest: worker_step_next)

lemma worker_execute_weight: "pc_weight (sc_worker (worker_execute run valid s)) = length valid + 2"
  by (auto simp: worker_execute_def split: prod.splits res.splits)

lemma worker_execute_alive: "sc_worker (worker_execute run valid s) \<notin> {WExited, WCrashed}"
  by (auto simp: worker_execute_def split: prod.splits res.splits)

lemma undisturbed_held:
  assumes "undisturbed s" and "it \<in> set (held (sc_worker s))"
  shows "sc_futures s (qi_future it) = FPending"
proof -
  from assms have "tracked s it" and "qi_future it < sc_next s"
    by (auto simp: undisturbed_def sched_inv_def inv_order_def)
  with assms(1) show ?thesis by (auto simp: tracked_def undisturbed_def)
qed

text \<open>A step of the worker that shrinks the work and disturbs nothing.\<close>

definition productive ::
    "('s \<Rightarrow> 'b inference_request list \<Rightarrow> 's \<times> 'o list res) \<Rightarrow> ('b, 'o, 's) sched \<Rightarrow>
     ('b, 'o, 's) sched \<Rightarrow> bool" where
  "productive run s t =
     (worker_step run s t \<and> work_left t < work_left s \<and> \<not> sc_stop t \<and>
      sc_worker t \<notin> {WExited, WCrashed} \<and> (\<forall>i. sc_futures t i = FCancelled \<longrightarrow> sc_futures s i = FCancelled))"

lemma undisturbed_productive:
  assumes "undisturbed s" and "\<not> drained s"
  shows "\<exists>t. productive run s t"
proof -
  have pend: "sc_futures s (qi_future it) = FPending" if "it \<in> set (held (sc_worker s))" for it
    using undisturbed_held [OF assms(1) that] .
  have st: "\<not> sc_stop s" and nn: "None \<notin> set (sc_queue s)"
    using assms(1) by (auto simp: undisturbed_def sched_inv_def inv_queue_def)
  have queue: "sc_queue s = [] \<or> (\<exists>it q. sc_queue s = Some it # q)"
    using nn by (cases "sc_queue s"; cases "hd (sc_queue s)") auto
  show ?thesis
  proof (cases "sc_worker s")
    case WIdle
    with st show ?thesis
      by (intro exI [of _ "s\<lparr>sc_worker := WGet\<rparr>"]) (auto simp: productive_def work_left_def intro: w_loop)
  next
    case WGet
    with assms(2) queue obtain it q where "sc_queue s = Some it # q"
      by (auto simp: drained_def)
    with WGet st w_first [OF WGet this, of run] show ?thesis
      by (auto simp: productive_def work_left_def)
  next
    case (WCollect batch started)
    show ?thesis
    proof (cases "collecting s batch started \<and> sc_queue s \<noteq> []")
      case True
      with queue obtain it q where q: "sc_queue s = Some it # q" by auto
      with True st w_more [OF WCollect _ q, of run] WCollect show ?thesis
        by (auto simp: productive_def work_left_def)
    next
      case False
      with st w_window [OF WCollect, of run] WCollect show ?thesis
        by (auto simp: productive_def work_left_def)
    qed
  next
    case (WFilter todo valid started)
    show ?thesis
    proof (cases todo)
      case Nil
      with WFilter st w_none_valid [of s started run] w_dispatch [of s valid started run] show ?thesis
        by (cases valid) (auto simp: productive_def work_left_def)
    next
      case (Cons it todo')
      with WFilter pend [of it] st w_late [of s it todo' valid started run]
        w_valid [of s it todo' valid started run] show ?thesis
        by (cases "deadline_passed (sc_now s) it") (auto simp: productive_def work_left_def)
    qed
  next
    case (WExpire it todo valid started)
    with pend [of it] st w_expire [OF WExpire, of _ run] show ?thesis
      by (auto simp: productive_def work_left_def set_future_Some split: if_splits)
  next
    case (WExec valid started)
    with st w_execute [OF WExec, of run] worker_execute_alive [of run valid s] show ?thesis
      by (auto simp: productive_def work_left_def worker_execute_weight)
  next
    case (WResolve ps n)
    with pend st w_completed [of s n run] w_result [of s "fst (hd ps)" "snd (hd ps)" "tl ps" n _ run]
    show ?thesis
      by (cases ps) (auto simp: productive_def work_left_def set_future_Some split: if_splits)
  next
    case (WFail its e n)
    with pend st w_failed [of s e n run] w_exception [of s "hd its" "tl its" e n _ run]
    show ?thesis
      by (cases its) (auto simp: productive_def work_left_def set_future_Some split: if_splits)
  qed (use assms(1) in \<open>auto simp: undisturbed_def\<close>)
qed

lemma productive_undisturbed: "productive run s t \<Longrightarrow> undisturbed s \<Longrightarrow> undisturbed t"
  unfolding productive_def undisturbed_def
  using worker_step_next [of run s t] sched_inv_step [of run s t] by (auto simp: sched_step_def)

lemma worker_drains:
  "undisturbed s \<Longrightarrow> \<exists>t. worker_run run s t \<and> drained t \<and> undisturbed t"
proof (induction "work_left s" arbitrary: s rule: less_induct)
  case less
  show ?case
  proof (cases "drained s")
    case True
    with less.prems show ?thesis by (blast intro: run_refl)
  next
    case False
    from undisturbed_productive [OF less.prems False] obtain t where t: "productive run s t" by blast
    then have "work_left t < work_left s" and "worker_step run s t"
      by (auto simp: productive_def)
    with less.hyps [of t] productive_undisturbed [OF t less.prems] show ?thesis
      by (blast intro: run_step)
  qed
qed

lemma drained_resolved:
  "drained s \<Longrightarrow> sched_inv s \<Longrightarrow> i < sc_next s \<Longrightarrow> sc_futures s i \<noteq> FPending"
  by (auto simp: drained_def sched_inv_def inv_pending_def)

end
