(* ===== verification/Scheduler_Props.thy ===== *)
theory Scheduler_Props
  imports Scheduler
begin

text \<open>
  What the scheduler promises, over every interleaving of its worker with any
  number of clients: bounds and first-in-first-out order, deadlines,
  accounting, futures resolved once and with the answer to their own request,
  draining of an undisturbed scheduler, and two ways a request can be lost
  (a queued request at \<open>close\<close>, a cancellation during execution).
\<close>

section \<open>Routing of results\<close>

fun routed_pc :: "('b inference_request \<Rightarrow> 'o \<Rightarrow> bool) \<Rightarrow> ('b, 'o) wpc \<Rightarrow> bool" where
  "routed_pc answers (WResolve ps n) = list_all (\<lambda>(it, out). answers (qi_request it) out) ps"
| "routed_pc answers _ = True"

definition routed :: "('b inference_request \<Rightarrow> 'o \<Rightarrow> bool) \<Rightarrow> ('b, 'o, 's) sched \<Rightarrow> bool" where
  "routed answers s =
     (routed_pc answers (sc_worker s) \<and>
      (\<forall>i < sc_next s. \<forall>out. sc_futures s i = FResult out \<longrightarrow>
         (\<exists>r. sc_requests s i = Some r \<and> answers r out)))"

lemma routed_init: "routed answers (sched_init p now r)"
  by (simp add: routed_def sched_init_def)

lemma routed_client: "client_step s t \<Longrightarrow> routed answers s \<Longrightarrow> routed answers t"
  by (induction rule: client_step.induct)
    (auto simp: routed_def submit_put_def submit_count_def submit_full_def close_begin_def
      close_put_def less_Suc_eq)

context request_runner
begin

lemma routed_execute:
  assumes "routed answers s"
  shows "routed answers (worker_execute run valid s)"
proof (cases "run (sc_runner s) (map qi_request valid)")
  case (Pair r' out)
  show ?thesis
  proof (cases "\<exists>outs. out = Ok outs \<and> length outs = length valid")
    case True
    then obtain outs where o1: "out = Ok outs" "length outs = length valid" by blast
    with run_answers [of "sc_runner s" "map qi_request valid" r' outs] Pair
    have "list_all2 answers (map qi_request valid) outs" by simp
    then have "list_all (\<lambda>(it, out). answers (qi_request it) out) (zip valid outs)"
      by (auto simp: list_all2_iff list_all_iff zip_map1)
    with Pair o1 assms show ?thesis
      by (simp add: routed_def worker_execute_def)
  next
    case False
    with Pair assms show ?thesis
      by (auto simp: routed_def worker_execute_def split: res.splits)
  qed
qed

lemma routed_worker:
  "worker_step run s t \<Longrightarrow> inv_order s \<Longrightarrow> routed answers s \<Longrightarrow> routed answers t"
proof (induction rule: worker_step.induct)
  case (w_result s it out rest n s')
  then have "tracked s it" by (simp add: inv_order_def)
  with w_result show ?case
    by (auto simp: routed_def set_future_Some tracked_def)
next
  case (w_execute s valid started)
  then show ?case by (intro routed_execute)
qed (auto simp: routed_def set_future_Some)

lemma routed_reach:
  assumes "sched_reach run s0 s" and "sched_inv s0" and "routed answers s0"
  shows "routed answers s"
  using assms
proof (induction rule: sched_reach.induct)
  case (reach_step s t u)
  from reach_step.hyps(1) reach_step.prems(1) have "inv_order t"
    using sched_inv_reach by (auto simp: sched_inv_def)
  with reach_step show ?case
    by (auto simp: sched_step_def intro: routed_worker routed_client)
qed simp

lemma results_answer:
  assumes "sched_reach run (sched_init p now r0) s" and "policy_ok p"
    and "i < sc_next s" and "sc_futures s i = FResult out"
  shows "\<exists>r. sc_requests s i = Some r \<and> answers r out"
  using routed_reach [OF assms(1) sched_inv_init [OF assms(2)] routed_init] assms(3,4)
  by (simp add: routed_def)

end

section \<open>Stopped workers\<close>

lemma dead_worker_step:
  assumes "sched_step run s t" and "sc_worker s = WExited \<or> sc_worker s = WCrashed"
  shows "sc_worker t = sc_worker s \<and> sc_next s \<le> sc_next t \<and>
         (\<forall>i < sc_next s. sc_futures t i = sc_futures s i \<or> sc_futures t i = FCancelled)"
proof -
  have "\<not> worker_step run s t"
  proof
    assume "worker_step run s t"
    then show False using assms(2) by cases simp_all
  qed
  with assms(1) have "client_step s t" by (simp add: sched_step_def)
  then show ?thesis
    by (induction rule: client_step.induct)
      (auto simp: submit_put_def submit_count_def submit_full_def close_begin_def close_put_def)
qed

lemma dead_worker_reach:
  assumes "sched_reach run s t" and "sc_worker s = WExited \<or> sc_worker s = WCrashed"
  shows "sc_worker t = sc_worker s \<and> sc_next s \<le> sc_next t \<and>
         (\<forall>i < sc_next s. sc_futures t i = sc_futures s i \<or> sc_futures t i = FCancelled)"
  using assms
proof (induction rule: sched_reach.induct)
  case (reach_refl s)
  then show ?case by simp
next
  case (reach_step s t u)
  note ih = reach_step.IH [OF reach_step.prems]
  with reach_step.prems have "sc_worker t = WExited \<or> sc_worker t = WCrashed" by simp
  note st = dead_worker_step [OF reach_step.hyps(2) this]
  have "sc_futures u i = sc_futures s i \<or> sc_futures u i = FCancelled" if "i < sc_next s" for i
  proof -
    from ih that have "i < sc_next t" by simp
    with st ih that show ?thesis by metis
  qed
  with ih st show ?case by simp
qed

section \<open>Inevitable draining\<close>

lemma worker_step_shrinks:
  assumes "worker_step run s t" and "undisturbed s" and "\<not> drained s"
  shows "productive run s t"
proof -
  have nn: "None \<notin> set (sc_queue s)" and st: "\<not> sc_stop s"
    using assms(2) by (auto simp: undisturbed_def sched_inv_def inv_queue_def)
  have pend: "\<And>it. it \<in> set (held (sc_worker s)) \<Longrightarrow> sc_futures s (qi_future it) = FPending"
    using undisturbed_held [OF assms(2)] .
  from assms(1) nn st pend assms(3) show ?thesis
  proof (induction rule: worker_step.induct)
    case (w_execute s valid started)
    with worker_step.w_execute [OF w_execute.hyps, of run] worker_execute_alive [of run valid s]
    show ?case by (auto simp: productive_def work_left_def worker_execute_weight)
  qed (auto simp: productive_def work_left_def set_future_def drained_def
        intro: worker_step.intros split: if_splits)
qed

lemma drains_within:
  assumes "\<And>k. worker_step run (\<sigma> k) (\<sigma> (Suc k))" and "undisturbed (\<sigma> j)"
  shows "\<exists>k \<le> j + work_left (\<sigma> j). drained (\<sigma> k) \<and> undisturbed (\<sigma> k)"
  using assms(2)
proof (induction "work_left (\<sigma> j)" arbitrary: j rule: less_induct)
  case less
  show ?case
  proof (cases "drained (\<sigma> j)")
    case True
    with less.prems show ?thesis by (intro exI [of _ j]) simp
  next
    case False
    note p = worker_step_shrinks [OF assms(1) less.prems False]
    then have lt: "work_left (\<sigma> (Suc j)) < work_left (\<sigma> j)" by (simp add: productive_def)
    from less.hyps [OF lt productive_undisturbed [OF p less.prems]]
    obtain k where "k \<le> Suc j + work_left (\<sigma> (Suc j))" "drained (\<sigma> k)" "undisturbed (\<sigma> k)" by blast
    with lt show ?thesis by (intro exI [of _ k]) simp
  qed
qed

section \<open>The worker as a function\<close>

text \<open>
  The step the worker takes when the queue it waits on does not change; it
  moves from every state but the two in which its thread has ended.
\<close>

fun resolve_next :: "nat \<Rightarrow> 'o fut \<Rightarrow> (('b, 'o, 's) sched \<Rightarrow> ('b, 'o, 's) sched) \<Rightarrow>
    ('b, 'o, 's) sched \<Rightarrow> ('b, 'o, 's) sched" where
  "resolve_next f v k s =
     (case set_future f v s of None \<Rightarrow> s\<lparr>sc_worker := WCrashed\<rparr> | Some s' \<Rightarrow> k s')"

definition worker_next ::
    "('s \<Rightarrow> 'b inference_request list \<Rightarrow> 's \<times> 'o list res) \<Rightarrow> ('b, 'o, 's) sched \<Rightarrow>
     ('b, 'o, 's) sched" where
  "worker_next run s =
     (case sc_worker s of
        WIdle \<Rightarrow> s\<lparr>sc_worker := (if sc_stop s then WExited else WGet)\<rparr>
      | WGet \<Rightarrow>
          (case sc_queue s of
             [] \<Rightarrow> s\<lparr>sc_worker := WIdle\<rparr>
           | None # q \<Rightarrow> s\<lparr>sc_queue := q, sc_worker := WExited\<rparr>
           | Some it # q \<Rightarrow> s\<lparr>sc_queue := q, sc_taken := Suc (sc_taken s),
                              sc_worker := WCollect [it] (sc_now s)\<rparr>)
      | WCollect batch started \<Rightarrow>
          (case sc_queue s of
             None # q \<Rightarrow>
               (if collecting s batch started
                then s\<lparr>sc_queue := q, sc_stop := True, sc_worker := WFilter batch [] started\<rparr>
                else s\<lparr>sc_worker := WFilter batch [] started\<rparr>)
           | Some it # q \<Rightarrow>
               (if collecting s batch started
                then s\<lparr>sc_queue := q, sc_taken := Suc (sc_taken s),
                       sc_worker := WCollect (batch @ [it]) started\<rparr>
                else s\<lparr>sc_worker := WFilter batch [] started\<rparr>)
           | [] \<Rightarrow> s\<lparr>sc_worker := WFilter batch [] started\<rparr>)
      | WFilter [] valid started \<Rightarrow>
          s\<lparr>sc_worker := (if valid = [] then WIdle else WExec valid started)\<rparr>
      | WFilter (it # todo) valid started \<Rightarrow>
          (if sc_futures s (qi_future it) = FCancelled
           then s\<lparr>sc_skipped := Suc (sc_skipped s), sc_worker := WFilter todo valid started\<rparr>
           else if deadline_passed (sc_now s) it
           then s\<lparr>sc_worker := WExpire it todo valid started\<rparr>
           else s\<lparr>sc_worker := WFilter todo (valid @ [it]) started\<rparr>)
      | WExpire it todo valid started \<Rightarrow>
          resolve_next (qi_future it) expired_exc
            (\<lambda>s'. s'\<lparr>sc_expired := Suc (sc_expired s), sc_worker := WFilter todo valid started\<rparr>) s
      | WExec valid started \<Rightarrow> worker_execute run valid s
      | WResolve [] n \<Rightarrow> s\<lparr>sc_completed := sc_completed s + n, sc_worker := WIdle\<rparr>
      | WResolve ((it, out) # rest) n \<Rightarrow>
          resolve_next (qi_future it) (FResult out) (\<lambda>s'. s'\<lparr>sc_worker := WResolve rest n\<rparr>) s
      | WFail [] e n \<Rightarrow> s\<lparr>sc_failed := sc_failed s + n, sc_worker := WIdle\<rparr>
      | WFail (it # rest) e n \<Rightarrow>
          resolve_next (qi_future it) (FExc e) (\<lambda>s'. s'\<lparr>sc_worker := WFail rest e n\<rparr>) s
      | WExited \<Rightarrow> s
      | WCrashed \<Rightarrow> s)"

lemma w_first_valid:
  "sc_worker s = WFilter (it # todo) [] started \<Longrightarrow> sc_futures s (qi_future it) \<noteq> FCancelled \<Longrightarrow>
   \<not> deadline_passed (sc_now s) it \<Longrightarrow> worker_step run s (s\<lparr>sc_worker := WFilter todo [it] started\<rparr>)"
  using w_valid [of s it todo "[]" started run] by simp

lemma worker_next_step:
  "sc_worker s \<notin> {WExited, WCrashed} \<Longrightarrow> worker_step run s (worker_next run s)"
  by (auto simp: worker_next_def intro: worker_step.intros w_first_valid split: wpc.splits list.splits option.splits)

text \<open>\<open>n\<close> steps of a live worker.\<close>

fun worker_iter ::
    "('s \<Rightarrow> 'b inference_request list \<Rightarrow> 's \<times> 'o list res) \<Rightarrow> nat \<Rightarrow> ('b, 'o, 's) sched \<Rightarrow>
     ('b, 'o, 's) sched" where
  "worker_iter run 0 s = s"
| "worker_iter run (Suc n) s =
     (if sc_worker s \<in> {WExited, WCrashed} then s else worker_iter run n (worker_next run s))"

lemma worker_iter_reach: "sched_reach run s0 s \<Longrightarrow> sched_reach run s0 (worker_iter run n s)"
proof (induction run n s rule: worker_iter.induct)
  case (2 run n s)
  then show ?case
    using reach_step [OF 2(2) sched_step_worker [OF worker_next_step, of s run]] by simp
qed simp

lemma client_reach: "sched_reach run s0 s \<Longrightarrow> client_step s t \<Longrightarrow> sched_reach run s0 t"
  by (blast intro: reach_step sched_step_client)

section \<open>A concrete run\<close>

definition sample_envelope :: "unit inference_request" where
  "sample_envelope =
     \<lparr>ir_payload = \<lparr>pl_request_id = Some (PInt 7), pl_timeout_ms = Some (PInt 1000), pl_body = ()\<rparr>,
      ir_deadline = Some (Fin 1)\<rparr>"

definition sample_infer :: "unit \<Rightarrow> unit payload \<Rightarrow> unit \<times> int res" where
  "sample_infer s p = (s, py_int (case pl_request_id p of None \<Rightarrow> PInt 0 | Some v \<Rightarrow> v))"

abbreviation sample_start :: "(unit, int, unit) sched" where
  "sample_start \<equiv> sched_init default_batch_policy 0 ()"

definition sample_queued :: "(unit, int, unit) sched" where
  "sample_queued = submit_put sample_envelope sample_start"

definition sample_at :: "nat \<Rightarrow> (unit, int, unit) sched" where
  "sample_at n = worker_iter (sequential_execute sample_infer) n sample_queued"

lemma default_policy_ok: "policy_ok default_batch_policy"
  by (simp add: policy_ok_def default_batch_policy_def)

lemma submit_sample: "submit_envelope now (SubRequest sample_envelope) None = Ok sample_envelope"
  by (simp add: submit_envelope_def sample_envelope_def)

lemma sample_queued_reach: "sched_reach run sample_start sample_queued"
  unfolding sample_queued_def
  by (rule client_reach [OF reach_refl c_put [OF submit_sample]])
    (simp add: sched_init_def default_batch_policy_def)

lemma sample_at_reach: "sched_reach (sequential_execute sample_infer) sample_start (sample_at n)"
  unfolding sample_at_def by (rule worker_iter_reach [OF sample_queued_reach])

lemmas sample_simps = sample_at_def sample_queued_def submit_put_def sched_init_def worker_next_def
  collecting_def batch_remaining_def default_batch_policy_def deadline_passed_def sample_envelope_def
  sample_infer_def worker_execute_def as_backend_request_def set_future_def eval_nat_numeral

text \<open>After five steps the batch is with the runner; after seven the future has its result.\<close>

lemma sample_exec:
  "sc_worker (sample_at 5) = WExec [\<lparr>qi_request = sample_envelope, qi_future = 0\<rparr>] 0"
  by (simp add: sample_simps)

lemma sample_done:
  "sc_futures (sample_at 7) 0 = FResult 7" "sc_next (sample_at 7) = 1"
  by (simp_all add: sample_simps)

section \<open>Properties\<close>

lemma valid_policy_ok: "batch_policy_post_init p = Ok q \<Longrightarrow> policy_ok q \<and> q = p"
  by (auto simp: batch_policy_post_init_def policy_ok_def split: if_splits)

lemma default_policy_valid: "batch_policy_post_init default_batch_policy = Ok default_batch_policy"
  by (simp add: batch_policy_post_init_def default_batch_policy_def)

lemma reachable_inv:
  "batch_policy_post_init p = Ok p \<Longrightarrow> sched_reach run (sched_init p now r0) s \<Longrightarrow> sched_inv s"
  by (blast intro: sched_inv_reachable dest: valid_policy_ok)

lemma policy_step: "sched_step run s t \<Longrightarrow> sc_policy t = sc_policy s"
  by (auto simp: sched_step_def elim!: worker_step.cases client_step.cases)
    (auto simp: set_future_Some submit_put_def submit_count_def submit_full_def close_begin_def
      close_put_def)

lemma policy_reach: "sched_reach run s t \<Longrightarrow> sc_policy t = sc_policy s"
  by (induction rule: sched_reach.induct) (simp_all add: policy_step)

lemma policy_reachable: "sched_reach run (sched_init p now r0) s \<Longrightarrow> sc_policy s = p"
  by (auto dest: policy_reach simp: sched_init_def)

text \<open>
  C8: In every interleaving of clients and worker the queue never exceeds
  \<open>max_queue_size\<close>, and every batch given to the runner is non-empty and has at
  most \<open>max_batch_size\<close> requests.
\<close>

theorem sched_bounds:
  assumes "batch_policy_post_init p = Ok p" and "sched_reach run (sched_init p now r0) s"
  shows "int (length (sc_queue s)) \<le> bp_max_queue_size p \<and>
         (\<forall>valid started. sc_worker s = WExec valid started \<longrightarrow>
            1 \<le> length valid \<and> int (length valid) \<le> bp_max_batch_size p)"
  using reachable_inv [OF assms] policy_reachable [OF assms(2)]
  by (auto simp: sched_inv_def inv_queue_def inv_batch_def Suc_le_eq)

theorem sched_bounds_witness:
  "int (length (sc_queue sample_queued)) \<le> 32 \<and>
   (\<exists>valid started. sc_worker (sample_at 5) = WExec valid started \<and> length valid \<le> 4)"
  using sched_bounds [OF default_policy_valid sample_queued_reach [of "sequential_execute sample_infer"]]
    sched_bounds [OF default_policy_valid sample_at_reach [of 5]] sample_exec
  by (simp add: default_batch_policy_def)

text \<open>
  C6: First in, first out: with requests numbered in the order they enter the
  queue, the queue holds exactly the numbers not yet taken, in order; a batch
  being collected is a run of consecutive numbers ending at the last one taken;
  the batch given to the runner is in increasing order; and each item still
  carries the request its number was submitted with.
\<close>

theorem sched_fifo:
  assumes "batch_policy_post_init p = Ok p" and "sched_reach run (sched_init p now r0) s"
  shows "map qi_future (queue_items s) = [sc_taken s ..< sc_next s] \<and>
         (\<forall>batch started. sc_worker s = WCollect batch started \<longrightarrow>
            map qi_future batch = [sc_taken s - length batch ..< sc_taken s]) \<and>
         (\<forall>valid started. sc_worker s = WExec valid started \<longrightarrow>
            sorted_wrt (<) (map qi_future valid)) \<and>
         (\<forall>it \<in> set (queue_items s) \<union> set (held (sc_worker s)).
            sc_requests s (qi_future it) = Some (qi_request it))"
  using reachable_inv [OF assms]
  by (auto simp: sched_inv_def inv_order_def inv_batch_def tracked_def)

theorem sched_fifo_witness:
  "map qi_future (queue_items sample_queued) = [0] \<and>
   sc_requests (sample_at 5) 0 = Some sample_envelope"
  using sched_fifo [OF default_policy_valid sample_queued_reach [of "sequential_execute sample_infer"]]
    sched_fifo [OF default_policy_valid sample_at_reach [of 5]] sample_exec
  by (simp add: sample_queued_def submit_put_def sched_init_def)

text \<open>
  C9: Deadlines: a request given to the runner had not passed its deadline
  when its batch was opened, and only a request whose deadline has passed is
  about to be expired.
\<close>

theorem sched_deadlines:
  assumes "batch_policy_post_init p = Ok p" and "sched_reach run (sched_init p now r0) s"
  shows "(\<forall>valid started. sc_worker s = WExec valid started \<longrightarrow>
            started \<le> sc_now s \<and> (\<forall>it \<in> set valid. \<not> deadline_passed started it)) \<and>
         (\<forall>it todo valid started. sc_worker s = WExpire it todo valid started \<longrightarrow>
            deadline_passed (sc_now s) it)"
  using reachable_inv [OF assms]
  by (auto simp: sched_inv_def inv_batch_def list_all_iff)

theorem sched_deadlines_witness:
  "\<not> deadline_passed 0 \<lparr>qi_request = sample_envelope, qi_future = 0\<rparr>"
  using sched_deadlines [OF default_policy_valid sample_at_reach [of 5]] sample_exec by simp





text \<open>
  C4: Results are routed to the right caller: under the sequential runner, a
  future that holds a result holds what the backend's \<open>infer\<close> returned for the
  payload of the request submitted with that future, whatever the batching.
\<close>

theorem sched_routing:
  assumes "batch_policy_post_init p = Ok p"
    and "sched_reach (sequential_execute infer) (sched_init p now r0) s"
    and "i < sc_next s" and "sc_futures s i = FResult out"
  shows "\<exists>r b b'. sc_requests s i = Some r \<and> infer b (as_backend_request r) = (b', Ok out)"
  using sequential.results_answer [OF assms(2) _ assms(3,4)] valid_policy_ok [OF assms(1)]
  by (auto simp: infer_answers_def)

theorem sched_routing_witness:
  "\<exists>r b b'. sc_requests (sample_at 7) 0 = Some r \<and> sample_infer b (as_backend_request r) = (b', Ok 7)"
  using sched_routing [OF default_policy_valid sample_at_reach [of 7], of 0 7] sample_done by simp

text \<open>
  C5: Draining: when nobody closes the scheduler or cancels a request, any
  execution of the worker thread empties the queue within a bounded number of
  steps, and then no accepted request is left without a result or exception;
  and the worker always has a step to take.
\<close>

theorem sched_drains:
  assumes "undisturbed s"
  shows "(\<forall>\<sigma>. \<sigma> 0 = s \<longrightarrow> (\<forall>k. worker_step run (\<sigma> k) (\<sigma> (Suc k))) \<longrightarrow>
            (\<exists>k \<le> work_left s. drained (\<sigma> k) \<and>
               (\<forall>i < sc_next (\<sigma> k). sc_futures (\<sigma> k) i \<noteq> FPending))) \<and>
         worker_step run s (worker_next run s)"
proof (intro conjI allI impI)
  fix \<sigma> :: "nat \<Rightarrow> ('a, 'b, 'c) sched"
  assume "\<sigma> 0 = s" and "\<forall>k. worker_step run (\<sigma> k) (\<sigma> (Suc k))"
  with drains_within [of run \<sigma> 0] assms
  obtain k where "k \<le> work_left s" "drained (\<sigma> k)" "undisturbed (\<sigma> k)" by auto
  then show "\<exists>k \<le> work_left s. drained (\<sigma> k) \<and> (\<forall>i < sc_next (\<sigma> k). sc_futures (\<sigma> k) i \<noteq> FPending)"
    by (auto simp: undisturbed_def dest: drained_resolved)
next
  show "worker_step run s (worker_next run s)"
    using assms by (intro worker_next_step) (simp add: undisturbed_def)
qed

theorem sched_drains_witness:
  "worker_step (sequential_execute sample_infer) sample_queued
     (worker_next (sequential_execute sample_infer) sample_queued)"
proof -
  have "undisturbed sample_queued"
    using sched_inv_reachable [OF sample_queued_reach default_policy_ok]
    by (auto simp: undisturbed_def sample_queued_def submit_put_def sched_init_def)
  from sched_drains [OF this] show ?thesis by blast
qed

text \<open>
  \<open>close\<close> can strand an accepted request: when it is called before the
  worker takes the request from the queue, the worker thread ends and the
  future returned by \<open>submit\<close> never receives a result or an exception, in any
  continuation (only its owner can cancel it).
\<close>

theorem close_strands_request:
  fixes run :: "'s \<Rightarrow> 'b inference_request list \<Rightarrow> 's \<times> 'o list res"
  assumes "batch_policy_post_init p = Ok p" and "submit_envelope now sub d = Ok r"
  shows "\<exists>s. sched_reach run (sched_init p now r0) s \<and> sc_next s = 1 \<and>
           sc_requests s 0 = Some r \<and>
           (\<forall>t. sched_reach run s t \<longrightarrow> sc_futures t 0 \<in> {FPending, FCancelled})"
proof -
  let ?s0 = "sched_init p now r0 :: ('b, 'o, 's) sched"
  let ?s1 = "submit_put r ?s0"
  let ?s2 = "close_begin ?s1"
  let ?s3 = "?s2\<lparr>sc_worker := WExited\<rparr>"
  have "sched_reach run ?s0 ?s1"
    by (rule client_reach [OF reach_refl c_put [of _ sub d]])
      (use assms valid_policy_ok [OF assms(1)] in \<open>auto simp: sched_init_def policy_ok_def\<close>)
  then have "sched_reach run ?s0 ?s2"
    by (rule client_reach [OF _ c_close]) (simp add: submit_put_def sched_init_def)
  then have "sched_reach run ?s0 ?s3"
    by (rule reach_step [OF _ sched_step_worker [OF w_stop]])
      (simp_all add: close_begin_def submit_put_def sched_init_def)
  moreover have "sc_futures t 0 \<in> {FPending, FCancelled}" if "sched_reach run ?s3 t" for t
    using dead_worker_reach [OF that] by (simp add: close_begin_def submit_put_def sched_init_def)
  ultimately show ?thesis
    by (intro exI [of _ ?s3]) (simp add: close_begin_def submit_put_def sched_init_def)
qed

theorem close_strands_request_witness:
  "\<exists>s. sched_reach (sequential_execute sample_infer) sample_start s \<and> sc_next s = 1 \<and>
     sc_requests s 0 = Some sample_envelope \<and>
     sc_futures (worker_iter (sequential_execute sample_infer) 9 s) 0 \<in> {FPending, FCancelled}"
  using close_strands_request [OF default_policy_valid submit_sample,
      where now = 0 and run = "sequential_execute sample_infer" and ?r0.0 = "()"] worker_iter_reach [OF reach_refl]
  by blast



text \<open>
  A batch policy read from a configuration is valid (positive batch and
  queue sizes, a wait that is not negative) or the construction raises.
\<close>

theorem batch_policy_checked:
  "case batch_policy_from_mapping v of
     Ok p \<Rightarrow> 1 \<le> bp_max_batch_size p \<and> 1 \<le> bp_max_queue_size p \<and> \<not> pf_lt (bp_batch_wait_ms p) (Fin 0)
   | Err e \<Rightarrow> \<exists>m. e \<in> {ValueError m, TypeError m, OverflowError m}"
proof -
  have ei: "\<exists>m. e \<in> {ValueError m, TypeError m, OverflowError m}" if "py_int x = Err e" for x e
    using that by (cases x rule: py_int.cases) (auto split: option.splits)
  have ef: "\<exists>m. e \<in> {ValueError m, TypeError m, OverflowError m}" if "py_float x = Err e" for x e
    using that by (cases x rule: py_float.cases) (auto split: option.splits)
  have post: "policy_ok q \<and> \<not> pf_lt (bp_batch_wait_ms q) (Fin 0)"
    if "batch_policy_post_init p = Ok q" for p q
    using that by (auto simp: batch_policy_post_init_def policy_ok_def split: if_splits)
  have err: "\<exists>m. e = ValueError m" if "batch_policy_post_init p = Err e" for p e
    using that by (auto simp: batch_policy_post_init_def split: if_splits)
  show ?thesis
    by (cases v) (auto simp: res_bind_def policy_ok_def split: res.splits dest!: ei ef post err)
qed

end
