(* ===== verification/Robots.thy ===== *)
theory Robots
  imports Contracts
begin

text \<open>
  The boundary between robot coordinates and model coordinates:
  \<open>robots/dazz_s600.py\<close> (the contract of a robot, read from a configuration and
  checked, and the two conversions) and \<open>adapters/s600.py\<close> (the last check on
  an action before it reaches the motors).  Vectors are lists of \<open>float32\<close>
  patterns; selecting and overwriting coordinates is exact.  The two
  operations of the clamp that round, \<open>current - delta\<close> and \<open>current + delta\<close> in
  single precision, are parameters.
\<close>

section \<open>Slices and indices\<close>

text \<open>\<open>slice(start, stop)\<close>; either bound may be \<open>None\<close>.\<close>

record pyslice =
  sl_start :: "int option"
  sl_stop :: "int option"

abbreviation or_zero :: "int option \<Rightarrow> int" where
  "or_zero b \<equiv> (case b of None \<Rightarrow> 0 | Some i \<Rightarrow> i)"

text \<open>A bound of a slice on a sequence of length \<open>n\<close>: negative counts from the end, then clipped.\<close>

definition slice_bound :: "nat \<Rightarrow> int \<Rightarrow> nat" where
  "slice_bound n i = (if i < 0 then nat (max 0 (i + int n)) else min n (nat i))"

definition take_slice :: "'a list \<Rightarrow> pyslice \<Rightarrow> 'a list" where
  "take_slice xs sl =
     (let n = length xs;
          lo = (case sl_start sl of None \<Rightarrow> 0 | Some i \<Rightarrow> slice_bound n i);
          hi = (case sl_stop sl of None \<Rightarrow> n | Some i \<Rightarrow> slice_bound n i)
      in take (hi - lo) (drop lo xs))"

text \<open>An index of an axis of length \<open>n\<close>: NumPy counts a negative one from the end.\<close>

definition np_index :: "nat \<Rightarrow> int \<Rightarrow> nat res" where
  "np_index n i =
     (if 0 \<le> i \<and> i < int n then Ok (nat i)
      else if - int n \<le> i \<and> i < 0 then Ok (nat (i + int n))
      else Err (IndexError ''index is out of bounds''))"

section \<open>Selecting and overwriting coordinates\<close>

definition gather :: "nat list \<Rightarrow> 'a list \<Rightarrow> 'a list" where
  "gather ks xs = map (nth xs) ks"

fun scatter :: "nat list \<Rightarrow> 'a list \<Rightarrow> 'a list \<Rightarrow> 'a list" where
  "scatter (k # ks) (v # vs) xs = scatter ks vs (xs[k := v])"
| "scatter _ _ xs = xs"

section \<open>Robot contract\<close>

record robot_contract =
  rc_raw_state_dim :: int
  rc_raw_action_dim :: int
  rc_model_state_indices :: "int list"
  rc_left_arm_slice :: pyslice
  rc_left_gripper_slice :: pyslice
  rc_right_arm_slice :: pyslice
  rc_right_gripper_slice :: pyslice

definition contract_slices :: "robot_contract \<Rightarrow> pyslice list" where
  "contract_slices c =
     [rc_left_arm_slice c, rc_left_gripper_slice c, rc_right_arm_slice c, rc_right_gripper_slice c]"

fun as_slice :: "pyval \<Rightarrow> pyslice res" where
  "as_slice (PList [a, b]) =
     res_bind (py_int a) (\<lambda>i. res_bind (py_int b) (\<lambda>j. Ok \<lparr>sl_start = Some i, sl_stop = Some j\<rparr>))"
| "as_slice (PBytes [a, b]) = Ok \<lparr>sl_start = Some (uint a), sl_stop = Some (uint b)\<rparr>"
| "as_slice _ = Err (ValueError ''must be a [start, stop] pair'')"

definition slice_ok :: "int \<Rightarrow> pyslice \<Rightarrow> bool" where
  "slice_ok n sl = (0 \<le> or_zero (sl_start sl) \<and> or_zero (sl_start sl) < or_zero (sl_stop sl) \<and>
                    or_zero (sl_stop sl) \<le> n)"

definition contract_validate :: "robot_contract \<Rightarrow> unit res" where
  "contract_validate c =
     (if rc_raw_state_dim c \<le> 0 \<or> rc_raw_action_dim c \<le> 0
      then Err (ValueError ''raw state/action dims must be positive'')
      else if rc_model_state_indices c = []
      then Err (ValueError ''model_state_indices must be non-empty'')
      else if length (remdups (rc_model_state_indices c)) \<noteq> length (rc_model_state_indices c)
      then Err (ValueError ''model_state_indices must be unique'')
      else if list_ex (\<lambda>i. \<not> (0 \<le> i \<and> i < rc_raw_action_dim c)) (rc_model_state_indices c)
      then Err (ValueError ''model_state_indices out of range'')
      else if list_ex (\<lambda>sl. \<not> slice_ok (rc_raw_action_dim c) sl) (contract_slices c)
      then Err (ValueError ''slice must satisfy 0 <= start < stop <= raw_action_dim'')
      else Ok ())"

definition slice_field :: "pydict \<Rightarrow> string \<Rightarrow> pyslice res" where
  "slice_field d k =
     (if dget_none d k = PNone then Err (ValueError ''robot contract requires a slice'')
      else as_slice (dget_none d k))"

fun contract_from_mapping :: "pyval \<Rightarrow> robot_contract res" where
  "contract_from_mapping (PDict d) =
     res_bind (mapM (slice_field d)
       [''left_arm_slice'', ''left_gripper_slice'', ''right_arm_slice'', ''right_gripper_slice''])
       (\<lambda>sls.
     res_bind (res_bind (ditem d ''raw_state_dim'') py_int) (\<lambda>sd.
     res_bind (res_bind (ditem d ''raw_action_dim'') py_int) (\<lambda>ad.
     res_bind (res_bind (res_bind (ditem d ''model_state_indices'') py_iter) (mapM py_int)) (\<lambda>idx.
       let c = \<lparr>rc_raw_state_dim = sd, rc_raw_action_dim = ad, rc_model_state_indices = idx,
                rc_left_arm_slice = sls ! 0, rc_left_gripper_slice = sls ! 1,
                rc_right_arm_slice = sls ! 2, rc_right_gripper_slice = sls ! 3\<rparr>
       in res_bind (contract_validate c) (\<lambda>_. Ok c)))))"
| "contract_from_mapping _ = Err (TypeError ''robot contract must be a JSON object'')"

definition model_dim :: "robot_contract \<Rightarrow> nat" where
  "model_dim c = length (rc_model_state_indices c)"

definition held_indices :: "robot_contract \<Rightarrow> int list" where
  "held_indices c =
     filter (\<lambda>i. i \<notin> set (rc_model_state_indices c)) [0 .. rc_raw_action_dim c - 1]"

definition command_action_dim :: "robot_contract \<Rightarrow> int" where
  "command_action_dim c =
     sum_list (map (\<lambda>sl. or_zero (sl_stop sl) - or_zero (sl_start sl)) (contract_slices c))"

text \<open>\<open>reshape(-1)\<close> and the check of a raw state.\<close>

definition flat :: "ndarray \<Rightarrow> ndarray" where
  "flat a = a\<lparr>nd_shape := [prod_list (nd_shape a)]\<rparr>"

definition validate_raw_state ::
    "(dtype \<Rightarrow> ndarray \<Rightarrow> ndarray res) \<Rightarrow> robot_contract \<Rightarrow> ndarray \<Rightarrow> ndarray res" where
  "validate_raw_state cast c v =
     res_bind (as_dtype cast DF32 v) (\<lambda>a.
       let state = flat a
       in if map int (nd_shape state) \<noteq> [rc_raw_state_dim c] \<or> \<not> nd_isfinite state
          then Err (ValueError ''raw state must have finite values'')
          else Ok (ascontiguous state))"

definition state_to_model ::
    "(dtype \<Rightarrow> ndarray \<Rightarrow> ndarray res) \<Rightarrow> robot_contract \<Rightarrow> ndarray \<Rightarrow> ndarray res" where
  "state_to_model cast c v =
     res_bind (validate_raw_state cast c v) (\<lambda>state.
     res_bind (mapM (np_index (length (nd_f32s state))) (rc_model_state_indices c)) (\<lambda>ks.
       Ok (nd_of_f32s [length ks] (gather ks (nd_f32s state)))))"

definition actions_to_raw ::
    "(dtype \<Rightarrow> ndarray \<Rightarrow> ndarray res) \<Rightarrow> robot_contract \<Rightarrow> ndarray \<Rightarrow> ndarray \<Rightarrow> ndarray res" where
  "actions_to_raw cast c actions current_state =
     res_bind (as_dtype cast DF32 actions) (\<lambda>a.
       if nd_ndim a \<noteq> 2 \<or> nd_shape a ! 1 \<noteq> model_dim c \<or> \<not> nd_isfinite a
       then Err (ValueError ''model actions must have finite shape [T,model_dim]'')
       else
         res_bind (validate_raw_state cast c current_state) (\<lambda>state.
         res_bind (mapM (np_index (length (nd_f32s state))) (rc_model_state_indices c)) (\<lambda>ks.
           let t = nd_shape a ! 0;
               rows = chunks t (model_dim c) (nd_f32s a)
           in Ok (nd_of_f32s [t, length (nd_f32s state)]
                    (concat (map (\<lambda>row. scatter ks row (nd_f32s state)) rows))))))"

definition qpos_fields :: "string list" where
  "qpos_fields = [''left_arm_joint_state'', ''left_ee_joint_state'',
                  ''right_arm_joint_state'', ''right_ee_joint_state'']"

definition action_dict ::
    "(dtype \<Rightarrow> ndarray \<Rightarrow> ndarray res) \<Rightarrow> robot_contract \<Rightarrow> ndarray \<Rightarrow> (string \<times> f32 list) list res" where
  "action_dict cast c v =
     res_bind (as_dtype cast DF32 v) (\<lambda>a.
       if int (length (nd_f32s a)) \<noteq> rc_raw_action_dim c
       then Err (ValueError ''cannot reshape array'')
       else Ok ((''raw_action'', nd_f32s a) #
                zip qpos_fields (map (take_slice (nd_f32s a)) (contract_slices c))))"

definition slice_of :: "int \<Rightarrow> int \<Rightarrow> pyslice" where
  "slice_of i j = \<lparr>sl_start = Some i, sl_stop = Some j\<rparr>"

definition DAZZ_S600_CONTRACT :: robot_contract where
  "DAZZ_S600_CONTRACT =
     \<lparr>rc_raw_state_dim = 18, rc_raw_action_dim = 18,
      rc_model_state_indices = [0, 1, 2, 3, 4, 5, 8, 9, 10, 11, 12, 13, 7, 15],
      rc_left_arm_slice = slice_of 0 7, rc_left_gripper_slice = slice_of 7 8,
      rc_right_arm_slice = slice_of 8 15, rc_right_gripper_slice = slice_of 15 16\<rparr>"

section \<open>Coordinate lenses\<close>

text \<open>
  Reading the model's coordinates and overwriting them form a lens: what was
  written is read back, writing back what was read changes nothing, and a
  second write replaces the first.
\<close>

locale coordinate_lens =
  fixes proj :: "'r \<Rightarrow> 'm" and put :: "'m \<Rightarrow> 'r \<Rightarrow> 'r" and raw_ok :: "'r \<Rightarrow> bool" and mod_ok :: "'m \<Rightarrow> bool"
  assumes put_ok: "raw_ok r \<Longrightarrow> mod_ok m \<Longrightarrow> raw_ok (put m r)"
    and proj_ok: "raw_ok r \<Longrightarrow> mod_ok (proj r)"
    and proj_put: "raw_ok r \<Longrightarrow> mod_ok m \<Longrightarrow> proj (put m r) = m"
    and put_proj: "raw_ok r \<Longrightarrow> put (proj r) r = r"
    and put_put: "raw_ok r \<Longrightarrow> mod_ok m \<Longrightarrow> mod_ok m' \<Longrightarrow> put m' (put m r) = put m' r"
begin

text \<open>A whole chunk executed row by row ends in the state its last row prescribes.\<close>

lemma put_chunk:
  "raw_ok r \<Longrightarrow> \<forall>m \<in> set ms. mod_ok m \<Longrightarrow> ms \<noteq> [] \<Longrightarrow> fold put ms r = put (last ms) r"
proof (induction ms arbitrary: r)
  case (Cons m ms)
  then show ?case
    by (cases ms) (simp_all add: put_ok put_put)
qed simp

lemma proj_chunk:
  "raw_ok r \<Longrightarrow> \<forall>m \<in> set ms. mod_ok m \<Longrightarrow> ms \<noteq> [] \<Longrightarrow> proj (fold put ms r) = last ms"
  by (simp add: put_chunk proj_put)

end

definition good_indices :: "nat list \<Rightarrow> 'a list \<Rightarrow> bool" where
  "good_indices ks xs = (distinct ks \<and> (\<forall>k \<in> set ks. k < length xs))"

lemma length_scatter [simp]: "length (scatter ks vs xs) = length xs"
  by (induction ks vs xs rule: scatter.induct) simp_all

lemma scatter_other: "i \<notin> set ks \<Longrightarrow> scatter ks vs xs ! i = xs ! i"
  by (induction ks vs xs rule: scatter.induct) simp_all

lemma scatter_nth:
  "distinct ks \<Longrightarrow> \<forall>k \<in> set ks. k < length xs \<Longrightarrow> length vs = length ks \<Longrightarrow> j < length ks \<Longrightarrow>
     scatter ks vs xs ! (ks ! j) = vs ! j"
proof (induction ks vs xs arbitrary: j rule: scatter.induct)
  case (1 k ks v vs xs)
  then show ?case by (cases j) (simp_all add: scatter_other)
qed simp_all

lemma gather_scatter:
  "good_indices ks xs \<Longrightarrow> length vs = length ks \<Longrightarrow> gather ks (scatter ks vs xs) = vs"
  by (rule nth_equalityI) (simp_all add: gather_def good_indices_def scatter_nth)

text \<open>Two vectors agree when they agree on and off the indices.\<close>

lemma eq_on_indices:
  assumes "length xs = length ys" and "gather ks xs = gather ks ys"
    and "\<And>i. i < length xs \<Longrightarrow> i \<notin> set ks \<Longrightarrow> xs ! i = ys ! i"
  shows "xs = ys"
proof (rule nth_equalityI [OF assms(1)])
  fix i assume "i < length xs"
  with assms(2,3) show "xs ! i = ys ! i"
    by (cases "i \<in> set ks") (auto simp: gather_def)
qed

lemma good_indices_scatter [simp]: "good_indices ks (scatter ks' vs xs) = good_indices ks xs"
  by (simp add: good_indices_def)

interpretation joints: coordinate_lens "gather ks" "scatter ks" "good_indices ks"
    "\<lambda>vs. length vs = length ks" for ks :: "nat list"
proof unfold_locales
  fix r m m' :: "'a list"
  assume g: "good_indices ks r"
  show "length (gather ks r) = length ks" by (simp add: gather_def)
  show "scatter ks (gather ks r) r = r"
  proof (rule eq_on_indices [of _ _ ks])
    show "gather ks (scatter ks (gather ks r) r) = gather ks r"
      by (rule gather_scatter [OF g]) (simp add: gather_def)
  qed (simp_all add: scatter_other)
  assume m: "length m = length ks"
  show "good_indices ks (scatter ks m r)" using g by simp
  show "gather ks (scatter ks m r) = m" using g m by (rule gather_scatter)
  assume m': "length m' = length ks"
  show "scatter ks m' (scatter ks m r) = scatter ks m' r"
    by (rule eq_on_indices [of _ _ ks]) (simp_all add: scatter_other gather_scatter g m m')
qed

section \<open>Valid contracts\<close>

definition contract_wf :: "robot_contract \<Rightarrow> bool" where
  "contract_wf c =
     (0 < rc_raw_state_dim c \<and> 0 < rc_raw_action_dim c \<and> rc_model_state_indices c \<noteq> [] \<and>
      distinct (rc_model_state_indices c) \<and>
      (\<forall>i \<in> set (rc_model_state_indices c). 0 \<le> i \<and> i < rc_raw_action_dim c) \<and>
      (\<forall>sl \<in> set (contract_slices c). slice_ok (rc_raw_action_dim c) sl))"

lemma contract_validate_iff: "(contract_validate c = Ok ()) = contract_wf c"
  by (auto simp: contract_validate_def contract_wf_def list_ex_iff length_remdups_distinct not_le)

lemma contract_from_mapping_wf: "contract_from_mapping v = Ok c \<Longrightarrow> contract_wf c"
  by (cases v) (auto simp: Let_def contract_validate_iff)

definition index_nats :: "robot_contract \<Rightarrow> nat list" where
  "index_nats c = map nat (rc_model_state_indices c)"

lemma length_index_nats [simp]: "length (index_nats c) = model_dim c"
  by (simp add: index_nats_def model_dim_def)

lemma np_indices_ok:
  assumes "contract_wf c" and "rc_raw_action_dim c \<le> int n"
  shows "mapM (np_index n) (rc_model_state_indices c) = Ok (index_nats c)"
  unfolding index_nats_def
  by (rule mapM_cong_Ok) (use assms in \<open>auto simp: contract_wf_def np_index_def\<close>)

lemma index_nats_good:
  assumes "contract_wf c" and "rc_raw_action_dim c \<le> int (length xs)"
  shows "good_indices (index_nats c) xs"
proof -
  have "inj_on nat (set (rc_model_state_indices c))"
    using assms(1) unfolding contract_wf_def inj_on_def by (metis eq_nat_nat_iff)
  then have "distinct (index_nats c)"
    using assms(1) by (simp add: index_nats_def contract_wf_def distinct_map)
  with assms show ?thesis
    by (auto simp: good_indices_def index_nats_def contract_wf_def)
qed

text \<open>A raw state the contract accepts.\<close>

definition raw_state_ok :: "robot_contract \<Rightarrow> f32 list \<Rightarrow> bool" where
  "raw_state_ok c xs = (int (length xs) = rc_raw_state_dim c \<and> list_all f32_finite xs)"

abbreviation vec :: "f32 list \<Rightarrow> ndarray" where
  "vec xs \<equiv> nd_of_f32s [length xs] xs"

lemma validate_raw_state_vec:
  "validate_raw_state cast c (vec xs) =
     (if raw_state_ok c xs then Ok (vec xs) else Err (ValueError ''raw state must have finite values''))"
  by (auto simp: validate_raw_state_def flat_def Let_def raw_state_ok_def nd_isfinite_def nd_of_f32s_def
      nd_f32s_def)

lemma validate_raw_state_Ok:
  assumes "validate_raw_state cast c v = Ok a" and "nd_dtype v = DF32" and "nd_wf v"
  shows "raw_state_ok c (nd_f32s a) \<and> nd_f32s a = nd_f32s v \<and> nd_shape a = [length (nd_f32s a)] \<and> nd_wf a"
  using assms nd_wf_length_f32s [OF assms(3,2)]
  by (auto simp: validate_raw_state_def Let_def flat_def raw_state_ok_def nd_isfinite_def nd_f32s_def
      nd_wf_def split: if_splits)

lemma state_to_model_vec:
  assumes "contract_wf c" and "rc_raw_action_dim c \<le> rc_raw_state_dim c" and "raw_state_ok c xs"
  shows "state_to_model cast c (vec xs) = Ok (vec (gather (index_nats c) xs))"
proof -
  have "rc_raw_action_dim c \<le> int (length xs)"
    using assms(2,3) by (simp add: raw_state_ok_def)
  with assms np_indices_ok [OF assms(1), of "length xs"] show ?thesis
    by (simp add: state_to_model_def validate_raw_state_vec gather_def)
qed

abbreviation chunk_of :: "robot_contract \<Rightarrow> f32 list list \<Rightarrow> ndarray" where
  "chunk_of c rows \<equiv> nd_of_f32s [length rows, model_dim c] (concat rows)"

definition rows_ok :: "robot_contract \<Rightarrow> f32 list list \<Rightarrow> bool" where
  "rows_ok c rows = (\<forall>r \<in> set rows. length r = model_dim c \<and> list_all f32_finite r)"

lemma actions_to_raw_chunk:
  assumes "contract_wf c" and "rc_raw_action_dim c \<le> rc_raw_state_dim c" and "raw_state_ok c xs"
    and "rows_ok c rows"
  shows "actions_to_raw cast c (chunk_of c rows) (vec xs) =
    Ok (nd_of_f32s [length rows, length xs] (concat (map (\<lambda>r. scatter (index_nats c) r xs) rows)))"
proof -
  have "rc_raw_action_dim c \<le> int (length xs)"
    using assms(2,3) by (simp add: raw_state_ok_def)
  from np_indices_ok [OF assms(1) this]
  have ks: "mapM (np_index (length xs)) (rc_model_state_indices c) = Ok (index_nats c)" .
  have fin: "nd_isfinite (chunk_of c rows)"
    using assms(4) by (auto simp: nd_isfinite_def rows_ok_def list_all_iff)
  have ch: "chunks (length rows) (model_dim c) (concat rows) = rows"
    using assms(4) by (intro chunks_concat) (simp add: rows_ok_def)
  have sh: "nd_dtype (chunk_of c rows) = DF32" "nd_shape (chunk_of c rows) = [length rows, model_dim c]"
    by (simp_all add: nd_of_f32s_def)
  show ?thesis
    using assms(3) by (simp add: actions_to_raw_def sh fin validate_raw_state_vec ks ch)
qed

section \<open>Properties of the contracts\<close>

definition tiny_contract :: robot_contract where
  "tiny_contract =
     \<lparr>rc_raw_state_dim = 3, rc_raw_action_dim = 3, rc_model_state_indices = [2, 0],
      rc_left_arm_slice = slice_of 0 1, rc_left_gripper_slice = slice_of 1 2,
      rc_right_arm_slice = slice_of 2 3, rc_right_gripper_slice = slice_of 0 3\<rparr>"

lemma tiny_contract_wf: "contract_wf tiny_contract"
  by (simp add: contract_wf_def tiny_contract_def contract_slices_def slice_ok_def slice_of_def)

text \<open>
  C15: From the robot to the model and back.  Under a valid contract whose state
  covers its action coordinates, \<open>state_to_model\<close> selects the model's coordinates
  of a finite raw state, and \<open>actions_to_raw\<close> turns every row of an action chunk
  into a raw target that carries exactly that row on the model's coordinates and
  the current feedback on every other coordinate.
\<close>

theorem robot_boundary_lens:
  assumes "contract_validate c = Ok ()" and "rc_raw_action_dim c \<le> rc_raw_state_dim c"
    and "raw_state_ok c xs" and "rows_ok c rows"
  shows "state_to_model cast c (vec xs) = Ok (vec (gather (index_nats c) xs)) \<and>
    (\<exists>out. actions_to_raw cast c (chunk_of c rows) (vec xs) =
             Ok (nd_of_f32s [length rows, length xs] (concat out)) \<and> length out = length rows \<and>
       (\<forall>j < length rows. length (out ! j) = length xs \<and> gather (index_nats c) (out ! j) = rows ! j \<and>
          (\<forall>i < length xs. i \<notin> set (index_nats c) \<longrightarrow> out ! j ! i = xs ! i)))"
proof (intro conjI exI)
  have wf: "contract_wf c" using assms(1) by (simp add: contract_validate_iff)
  show "state_to_model cast c (vec xs) = Ok (vec (gather (index_nats c) xs))"
    by (rule state_to_model_vec [OF wf assms(2,3)])
  let ?out = "map (\<lambda>r. scatter (index_nats c) r xs) rows"
  show "actions_to_raw cast c (chunk_of c rows) (vec xs) =
      Ok (nd_of_f32s [length rows, length xs] (concat ?out))"
    by (rule actions_to_raw_chunk [OF wf assms(2-4)])
  have good: "good_indices (index_nats c) xs"
    using assms(2,3) by (intro index_nats_good [OF wf]) (simp add: raw_state_ok_def)
  have width: "length (rows ! j) = length (index_nats c)" if "j < length rows" for j
    using assms(4) that by (simp add: rows_ok_def)
  show "\<forall>j < length rows. length (?out ! j) = length xs \<and> gather (index_nats c) (?out ! j) = rows ! j \<and>
      (\<forall>i < length xs. i \<notin> set (index_nats c) \<longrightarrow> ?out ! j ! i = xs ! i)"
    using joints.proj_put [OF good width] by (simp add: scatter_other)
qed simp

lemma tiny_state_ok: "raw_state_ok tiny_contract [f32_one, f32_zero, f32_zero]"
  by (simp add: raw_state_ok_def tiny_contract_def)

lemma tiny_rows_ok: "rows_ok tiny_contract [[f32_one, f32_zero]]"
  by (simp add: rows_ok_def model_dim_def tiny_contract_def)

lemma tiny_indices: "index_nats tiny_contract = [2, 0]"
  by (simp add: index_nats_def tiny_contract_def)

lemma tiny_dims: "rc_raw_action_dim tiny_contract \<le> rc_raw_state_dim tiny_contract"
  by (simp add: tiny_contract_def)

theorem robot_boundary_lens_witness:
  "state_to_model (\<lambda>d a. Ok a) tiny_contract (vec [f32_one, f32_zero, f32_zero]) =
     Ok (vec [f32_zero, f32_one]) \<and>
   (\<exists>out. actions_to_raw (\<lambda>d a. Ok a) tiny_contract (chunk_of tiny_contract [[f32_one, f32_zero]])
             (vec [f32_one, f32_zero, f32_zero]) = Ok (nd_of_f32s [1, 3] (concat out)) \<and>
      gather [2, 0] (out ! 0) = [f32_one, f32_zero])"
  using robot_boundary_lens [OF tiny_contract_wf [folded contract_validate_iff] tiny_dims tiny_state_ok tiny_rows_ok,
      of "\<lambda>d a. Ok a", unfolded tiny_indices]
  by (auto simp: gather_def numeral_3_eq_3 numeral_2_eq_2)

text \<open>
  A contract can pass \<open>validate\<close> and still be unusable: the indices are
  checked against the action dimension, but they index the state.  When one of
  them is not below \<open>raw_state_dim\<close>, \<open>state_to_model\<close> raises \<open>IndexError\<close> on every
  valid state.
\<close>

theorem contract_index_escapes:
  assumes "contract_validate c = Ok ()" and "i \<in> set (rc_model_state_indices c)"
    and "rc_raw_state_dim c \<le> i" and "raw_state_ok c xs"
  shows "state_to_model cast c (vec xs) = Err (IndexError ''index is out of bounds'')"
proof -
  have bad: "np_index (length xs) i = Err (IndexError ''index is out of bounds'')"
    using assms(3,4) by (auto simp: np_index_def raw_state_ok_def)
  then have "mapM (np_index (length xs)) (rc_model_state_indices c) \<noteq> Ok ks" for ks
    using assms(2) by (auto simp: mapM_eq_Ok list_all2_conv_all_nth in_set_conv_nth)
  then obtain e where e: "mapM (np_index (length xs)) (rc_model_state_indices c) = Err e"
    by (metis res.exhaust)
  then have "e = IndexError ''index is out of bounds''"
    by (auto dest!: mapM_Err simp: np_index_def split: if_splits)
  with e assms(4) show ?thesis
    by (simp add: state_to_model_def validate_raw_state_vec)
qed

theorem contract_index_escapes_witness:
  "state_to_model (\<lambda>d a. Ok a) (tiny_contract\<lparr>rc_raw_state_dim := 1\<rparr>) (vec [f32_one]) =
     Err (IndexError ''index is out of bounds'')"
proof (rule contract_index_escapes [of _ 2])
  show "contract_validate (tiny_contract\<lparr>rc_raw_state_dim := 1\<rparr>) = Ok ()"
    using tiny_contract_wf by (simp add: contract_validate_iff contract_wf_def contract_slices_def)
qed (simp_all add: tiny_contract_def raw_state_ok_def)

lemma dazz_slices:
  "contract_slices DAZZ_S600_CONTRACT = [slice_of 0 7, slice_of 7 8, slice_of 8 15, slice_of 15 16]"
  by (simp add: contract_slices_def DAZZ_S600_CONTRACT_def)

lemma dazz_valid: "contract_validate DAZZ_S600_CONTRACT = Ok ()"
  by (simp add: contract_validate_def dazz_slices slice_ok_def slice_of_def)
    (simp add: DAZZ_S600_CONTRACT_def)

lemma dazz_dims: "model_dim DAZZ_S600_CONTRACT = 14" "command_action_dim DAZZ_S600_CONTRACT = 16"
  by (simp_all add: model_dim_def command_action_dim_def dazz_slices slice_of_def)
    (simp add: DAZZ_S600_CONTRACT_def)

lemma dazz_held: "held_indices DAZZ_S600_CONTRACT = [6, 14, 16, 17]"
  by (simp add: held_indices_def DAZZ_S600_CONTRACT_def upto.simps)

lemma take_slice_of:
  "0 \<le> i \<Longrightarrow> i \<le> j \<Longrightarrow> j \<le> int (length xs) \<Longrightarrow>
     take_slice xs (slice_of i j) = take (nat j - nat i) (drop (nat i) xs)"
  by (simp add: take_slice_def slice_of_def slice_bound_def Let_def min_absorb2 nat_le_iff)

lemma take_slices_adjacent:
  assumes "length xs = 18"
  shows "take_slice xs (slice_of 0 7) @ take_slice xs (slice_of 7 8) @ take_slice xs (slice_of 8 15) @
         take_slice xs (slice_of 15 16) = take 16 xs"
proof -
  have "take 16 xs = take 7 xs @ take 1 (drop 7 xs) @ take 7 (drop 8 xs) @ take 1 (drop 15 xs)"
    using take_add [of 7 9 xs] take_add [of 1 8 "drop 7 xs"] take_add [of 7 1 "drop 8 xs"] by simp
  with assms show ?thesis by (simp add: take_slice_of)
qed

text \<open>
  The shipped contract is valid; the model leaves exactly the coordinates 6,
  14, 16 and 17 to the feedback, its 14 coordinates are distinct, and the named
  command fields cover the first sixteen coordinates in order, without gap or
  overlap.
\<close>

theorem dazz_contract_sound:
  "contract_validate DAZZ_S600_CONTRACT = Ok () \<and> model_dim DAZZ_S600_CONTRACT = 14 \<and>
   held_indices DAZZ_S600_CONTRACT = [6, 14, 16, 17] \<and> command_action_dim DAZZ_S600_CONTRACT = 16 \<and>
   (\<forall>xs :: f32 list. length xs = 18 \<longrightarrow>
      concat (map (take_slice xs) (contract_slices DAZZ_S600_CONTRACT)) = take 16 xs)"
proof (intro conjI allI impI)
  fix xs :: "f32 list" assume "length xs = 18"
  then show "concat (map (take_slice xs) (contract_slices DAZZ_S600_CONTRACT)) = take 16 xs"
    using take_slices_adjacent [of xs] by (simp add: dazz_slices)
qed (rule dazz_valid dazz_dims dazz_held)+

theorem dazz_contract_sound_witness:
  "concat (map (take_slice (replicate 18 f32_one)) (contract_slices DAZZ_S600_CONTRACT)) =
     take 16 (replicate 18 f32_one)"
  using dazz_contract_sound by (simp del: take_replicate)

end
