(* ===== verification/S600_Clamp.thy ===== *)
theory S600_Clamp
  imports Robots
begin

text \<open>
  \<open>S600Adapter.clamp_first_action\<close> of \<open>adapters/s600.py\<close>, the last check on a
  target before the motor driver.  The rounding operations \<open>current - delta\<close> and
  \<open>current + delta\<close> on \<open>float32\<close> are the parameters \<open>fsub\<close> and \<open>fadd\<close>; comparisons
  are on the patterns.
\<close>

section \<open>Comparisons of float32\<close>

definition f32_nan :: "f32 \<Rightarrow> bool" where
  "f32_nan w = (f32_exponent w = 255 \<and> f32_mantissa w \<noteq> 0)"

text \<open>\<open>np.maximum\<close>, \<open>np.minimum\<close> and \<open>np.clip\<close> propagate NaN.\<close>

definition f32_max :: "f32 \<Rightarrow> f32 \<Rightarrow> f32" where
  "f32_max a b = (if f32_nan a then a else if f32_nan b then b else if f32_lt a b then b else a)"

definition f32_min :: "f32 \<Rightarrow> f32 \<Rightarrow> f32" where
  "f32_min a b = (if f32_nan a then a else if f32_nan b then b else if f32_lt b a then b else a)"

definition np_clip :: "f32 \<Rightarrow> f32 \<Rightarrow> f32 \<Rightarrow> f32" where
  "np_clip x lo hi = f32_min (f32_max x lo) hi"

definition f32_half :: f32 where
  "f32_half = 0x3F000000"

section \<open>The clamp\<close>

definition RAW_STATE_DIM :: nat where
  "RAW_STATE_DIM = nat (rc_raw_state_dim DAZZ_S600_CONTRACT)"

definition MODEL_STATE_INDEX :: "nat list" where
  "MODEL_STATE_INDEX = index_nats DAZZ_S600_CONTRACT"

definition s600_validate_raw_state ::
    "(dtype \<Rightarrow> ndarray \<Rightarrow> ndarray res) \<Rightarrow> ndarray \<Rightarrow> ndarray res" where
  "s600_validate_raw_state cast v =
     (case validate_raw_state cast DAZZ_S600_CONTRACT v of
        Err (ValueError m) \<Rightarrow> Err (ValueError ''S600 raw state must contain 18 finite values'')
      | r \<Rightarrow> r)"

text \<open>\<open>math.radians\<close>\<close>

fun radians :: "pyfloat \<Rightarrow> pyfloat" where
  "radians (Fin d) = Fin (d * (pi / 180))"
| "radians d = d"

definition clamp_joint ::
    "(f32 \<Rightarrow> pyfloat \<Rightarrow> f32) \<Rightarrow> (f32 \<Rightarrow> pyfloat \<Rightarrow> f32) \<Rightarrow> pyfloat \<Rightarrow> f32 \<Rightarrow> f32 \<Rightarrow> f32" where
  "clamp_joint fsub fadd delta a c = np_clip a (fsub c delta) (fadd c delta)"

definition binarize :: "f32 \<Rightarrow> f32" where
  "binarize a = (if f32_lt f32_half a then f32_one else f32_zero)"

definition clamp_values ::
    "(f32 \<Rightarrow> pyfloat \<Rightarrow> f32) \<Rightarrow> (f32 \<Rightarrow> pyfloat \<Rightarrow> f32) \<Rightarrow> pyfloat \<Rightarrow> bool \<Rightarrow> f32 list \<Rightarrow> f32 list \<Rightarrow>
     f32 list" where
  "clamp_values fsub fadd delta enable_gripper current action =
     (let joints = take 12 MODEL_STATE_INDEX;
          grippers = drop 12 MODEL_STATE_INDEX;
          a1 = scatter joints
                 (map2 (clamp_joint fsub fadd delta) (gather joints action) (gather joints current)) action;
          a2 = scatter grippers
                 (if enable_gripper then map binarize (gather grippers a1) else gather grippers current) a1
      in map (\<lambda>i. if i \<in> set MODEL_STATE_INDEX then a2 ! i else current ! i) [0 ..< RAW_STATE_DIM])"

definition clamp_first_action ::
    "(dtype \<Rightarrow> ndarray \<Rightarrow> ndarray res) \<Rightarrow> (f32 \<Rightarrow> pyfloat \<Rightarrow> f32) \<Rightarrow> (f32 \<Rightarrow> pyfloat \<Rightarrow> f32) \<Rightarrow>
     ndarray \<Rightarrow> ndarray \<Rightarrow> pyfloat \<Rightarrow> bool \<Rightarrow> ndarray res" where
  "clamp_first_action cast fsub fadd action0 current_state max_step_deg enable_gripper =
     res_bind (as_dtype cast DF32 action0) (\<lambda>a.
       if length (nd_f32s a) \<noteq> RAW_STATE_DIM
       then Err (ValueError ''cannot reshape array'')
       else res_bind (s600_validate_raw_state cast current_state) (\<lambda>current.
         if \<not> nd_isfinite a
         then Err (ValueError ''S600 action must contain only finite values'')
         else if pf_le max_step_deg (Fin 0)
         then Err (ValueError ''max_step_deg must be positive'')
         else Ok (nd_of_f32s [RAW_STATE_DIM]
                   (clamp_values fsub fadd (radians max_step_deg) enable_gripper
                      (nd_f32s current) (nd_f32s a)))))"

section \<open>Lemmas\<close>

lemma raw_dim_18 [simp]: "RAW_STATE_DIM = 18"
  by (simp add: RAW_STATE_DIM_def DAZZ_S600_CONTRACT_def)

lemma model_index_eq: "MODEL_STATE_INDEX = [0, 1, 2, 3, 4, 5, 8, 9, 10, 11, 12, 13, 7, 15]"
  by (simp add: MODEL_STATE_INDEX_def index_nats_def DAZZ_S600_CONTRACT_def)

definition joint_indices :: "nat list" where
  "joint_indices = [0, 1, 2, 3, 4, 5, 8, 9, 10, 11, 12, 13]"

lemma joints_grippers: "take 12 MODEL_STATE_INDEX = joint_indices" "drop 12 MODEL_STATE_INDEX = [7, 15]"
  by (simp_all add: model_index_eq joint_indices_def)

lemma set_model_index: "set MODEL_STATE_INDEX = set joint_indices \<union> {7, 15}"
  by (auto simp: model_index_eq joint_indices_def)

lemma joints_below: "k \<in> set joint_indices \<Longrightarrow> k < 18 \<and> k \<notin> {7, 15}"
  by (auto simp: joint_indices_def)

text \<open>Overwriting with a function of the old coordinates.\<close>

lemma scatter_map_in:
  assumes "distinct ks" and "\<forall>k \<in> set ks. k < length xs" and "i \<in> set ks"
  shows "scatter ks (map f ks) xs ! i = f i"
proof -
  from assms(3) obtain j where "j < length ks" and "i = ks ! j"
    by (auto simp: in_set_conv_nth)
  with scatter_nth [OF assms(1,2), of "map f ks" j] show ?thesis by simp
qed

lemma map2_gather: "map2 f (gather ks xs) (gather ks ys) = map (\<lambda>k. f (xs ! k) (ys ! k)) ks"
  by (simp add: gather_def zip_map1 zip_map2 zip_same_conv_map)

lemma map_gather: "map f (gather ks xs) = map (\<lambda>k. f (xs ! k)) ks"
  by (simp add: gather_def)

text \<open>The clamp, coordinate by coordinate.\<close>

lemma clamp_values_nth:
  assumes "length action = 18" and "length current = 18" and "i < 18"
  shows "clamp_values fsub fadd delta eg current action ! i =
    (if i \<in> set joint_indices then clamp_joint fsub fadd delta (action ! i) (current ! i)
     else if i \<in> {7, 15} then (if eg then binarize (action ! i) else current ! i)
     else current ! i)"
proof -
  let ?f = "\<lambda>k. clamp_joint fsub fadd delta (action ! k) (current ! k)"
  let ?a1 = "scatter joint_indices (map ?f joint_indices) action"
  have dj: "distinct joint_indices" by (simp add: joint_indices_def)
  have a1: "?a1 ! k = (if k \<in> set joint_indices then ?f k else action ! k)" for k
    using scatter_map_in [OF dj, of action k ?f] joints_below assms(1) by (auto simp: scatter_other)
  let ?g = "\<lambda>k. if eg then binarize (?a1 ! k) else current ! k"
  have g: "(if eg then map binarize (gather [7, 15] ?a1) else gather [7, 15] current) = map ?g [7, 15]"
    by (simp add: map_gather gather_def)
  have a2: "scatter [7, 15] (map ?g [7, 15]) ?a1 ! k = (if k \<in> {7, 15} then ?g k else ?a1 ! k)" for k
    using scatter_map_in [of "[7, 15]" ?a1 k ?g] assms(1) by (auto simp: scatter_other simp del: scatter.simps)
  show ?thesis
    using assms(3) joints_below
    by (auto simp: clamp_values_def Let_def joints_grippers map2_gather g a2 a1 set_model_index
        simp del: scatter.simps list.map)
qed

lemma length_clamp_values [simp]: "length (clamp_values fsub fadd delta eg current action) = 18"
  by (simp add: clamp_values_def Let_def)

lemma np_clip_between:
  assumes "\<not> f32_nan x" "\<not> f32_nan lo" "\<not> f32_nan hi" "f32_real lo \<le> f32_real hi"
  shows "f32_real lo \<le> f32_real (np_clip x lo hi) \<and> f32_real (np_clip x lo hi) \<le> f32_real hi"
  using assms by (simp add: np_clip_def f32_max_def f32_min_def f32_lt_def)

lemma f32_finite_not_nan: "f32_finite w \<Longrightarrow> \<not> f32_nan w"
  by (simp add: f32_finite_def f32_nan_def)

lemma binarize_cases: "binarize a \<in> {f32_zero, f32_one}"
  by (simp add: binarize_def)

lemma s600_validate_vec:
  "s600_validate_raw_state cast (vec xs) =
     (if raw_state_ok DAZZ_S600_CONTRACT xs then Ok (vec xs)
      else Err (ValueError ''S600 raw state must contain 18 finite values''))"
  by (simp add: s600_validate_raw_state_def validate_raw_state_vec)

lemma raw_ok_dazz: "raw_state_ok DAZZ_S600_CONTRACT xs = (length xs = 18 \<and> list_all f32_finite xs)"
  by (auto simp: raw_state_ok_def DAZZ_S600_CONTRACT_def)

lemma clamp_first_action_vec:
  assumes "length a = 18" and "list_all f32_finite a" and "length c = 18" and "list_all f32_finite c"
    and "\<not> pf_le step (Fin 0)"
  shows "clamp_first_action cast fsub fadd (vec a) (vec c) step eg =
    Ok (vec (clamp_values fsub fadd (radians step) eg c a))"
proof -
  have "s600_validate_raw_state cast (vec c) = Ok (vec c)"
    using assms(3,4) s600_validate_vec [of cast c] by (simp only: raw_ok_dazz) simp
  with assms show ?thesis by (simp add: clamp_first_action_def nd_isfinite_def)
qed

lemma clamp_first_action_Ok:
  "clamp_first_action cast fsub fadd (vec a) (vec c) step eg = Ok out \<Longrightarrow>
     length a = 18 \<and> length c = 18 \<and> list_all f32_finite a \<and> list_all f32_finite c \<and>
     \<not> pf_le step (Fin 0) \<and> out = vec (clamp_values fsub fadd (radians step) eg c a)"
  by (auto simp: clamp_first_action_def s600_validate_vec raw_ok_dazz nd_isfinite_def split: if_splits)

section \<open>Properties\<close>

lemma positive_step: "\<not> pf_le step (Fin 0) \<Longrightarrow> step \<noteq> NaN \<Longrightarrow> pf_lt (Fin 0) (radians step)"
  by (cases step) auto


definition zeros18 :: "f32 list" where
  "zeros18 = replicate 18 f32_zero"

lemma zeros18_ok: "length zeros18 = 18" "list_all f32_finite zeros18"
  by (simp_all add: zeros18_def list_all_iff)


text \<open>
  A step limit that is NaN passes the check \<open>max_step_deg <= 0\<close>: the clamp
  then returns a target whose joints are all NaN, provided NumPy propagates NaN
  through subtraction and addition.
\<close>

theorem clamp_accepts_nan_step:
  assumes "length a = 18" and "list_all f32_finite a" and "length c = 18" and "list_all f32_finite c"
    and nan: "\<And>x. f32_nan (fsub x NaN)"
  shows "\<exists>v. clamp_first_action cast fsub fadd (vec a) (vec c) NaN eg = Ok (vec v) \<and>
           (\<forall>i \<in> set joint_indices. f32_nan (v ! i))"
proof (intro exI conjI ballI)
  let ?v = "clamp_values fsub fadd (radians NaN) eg c a"
  show "clamp_first_action cast fsub fadd (vec a) (vec c) NaN eg = Ok (vec ?v)"
    by (rule clamp_first_action_vec [OF assms(1-4)]) simp
  fix i assume i: "i \<in> set joint_indices"
  then have "i < 18" using joints_below by simp
  moreover from this have "\<not> f32_nan (a ! i)"
    using assms(1,2) by (simp add: list_all_length f32_finite_not_nan)
  ultimately show "f32_nan (?v ! i)"
    using i nan
    by (simp add: clamp_values_nth [OF assms(1,3)] clamp_joint_def np_clip_def f32_max_def f32_min_def)
qed

theorem clamp_accepts_nan_step_witness:
  "\<exists>v. clamp_first_action (\<lambda>d x. Ok x) (\<lambda>x d. 0x7FC00000) (\<lambda>x d. 0x7FC00000) (vec zeros18) (vec zeros18)
         NaN False = Ok (vec v) \<and> f32_nan (v ! 0)"
proof -
  have "f32_nan 0x7FC00000"
    by (simp add: f32_nan_def f32_exponent_def f32_mantissa_def drop_bit_eq_div take_bit_eq_mod)
  from clamp_accepts_nan_step [OF zeros18_ok zeros18_ok this] show ?thesis
    by (fastforce simp: joint_indices_def)
qed

end
