(* ===== verification/Ordered_Dict.thy ===== *)
theory Ordered_Dict
  imports EI_Prelude
begin

text \<open>
  \<open>collections.OrderedDict\<close> as the caches of \<open>plugins/\<close> use it: an association
  list, oldest entry first, with \<open>d[k] = v\<close>, \<open>move_to_end\<close>, \<open>popitem(last=False)\<close>
  and the eviction loop.  The contract the plugins rely on is the locale
  \<open>bounded_store\<close>, interpreted on the dictionary below.
\<close>

type_synonym ('k, 'v) odict = "('k \<times> 'v) list"

definition od_get :: "('k, 'v) odict \<Rightarrow> 'k \<Rightarrow> 'v option" where
  "od_get d k = map_of d k"

fun od_put :: "'k \<Rightarrow> 'v \<Rightarrow> ('k, 'v) odict \<Rightarrow> ('k, 'v) odict" where
  "od_put k v [] = [(k, v)]"
| "od_put k v ((k', v') # d) = (if k' = k then (k, v) # d else (k', v') # od_put k v d)"

definition od_del :: "'k \<Rightarrow> ('k, 'v) odict \<Rightarrow> ('k, 'v) odict" where
  "od_del k d = filter (\<lambda>e. fst e \<noteq> k) d"

definition od_move_to_end :: "'k \<Rightarrow> ('k, 'v) odict \<Rightarrow> ('k, 'v) odict" where
  "od_move_to_end k d = (case od_get d k of None \<Rightarrow> d | Some v \<Rightarrow> od_del k d @ [(k, v)])"

text \<open>\<open>while len(d) > n: d.popitem(last=False)\<close>\<close>

fun od_trim :: "nat \<Rightarrow> ('k, 'v) odict \<Rightarrow> ('k, 'v) odict" where
  "od_trim n [] = []"
| "od_trim n (e # d) = (if n < length (e # d) then od_trim n d else e # d)"

definition od_store :: "nat \<Rightarrow> 'k \<Rightarrow> 'v \<Rightarrow> ('k, 'v) odict \<Rightarrow> ('k, 'v) odict" where
  "od_store n k v d = od_trim n (od_move_to_end k (od_put k v d))"

definition od_ok :: "nat \<Rightarrow> ('k, 'v) odict \<Rightarrow> bool" where
  "od_ok n d = (distinct (map fst d) \<and> length d \<le> n)"

section \<open>Lemmas\<close>

lemma od_get_put: "od_get (od_put k v d) k' = (if k' = k then Some v else od_get d k')"
  by (induction k v d rule: od_put.induct) (auto simp: od_get_def)

lemma od_put_keys: "map fst (od_put k v d) = (if k \<in> fst ` set d then map fst d else map fst d @ [k])"
  by (induction k v d rule: od_put.induct) auto

lemma od_put_distinct: "distinct (map fst d) \<Longrightarrow> distinct (map fst (od_put k v d))"
  by (auto simp: od_put_keys)

lemma od_get_del: "od_get (od_del k d) k' = (if k' = k then None else od_get d k')"
  by (induction d) (auto simp: od_get_def od_del_def)

lemma od_del_distinct: "distinct (map fst d) \<Longrightarrow> distinct (map fst (od_del k d))"
  by (simp add: od_del_def distinct_map_filter)

lemma od_move_get [simp]: "od_get (od_move_to_end k d) k' = od_get d k'"
  by (auto simp: od_move_to_end_def od_get_def map_add_def dest: map_of_SomeD split: option.splits)
    (simp_all add: od_del_def flip: od_get_def, (metis od_del_def od_get_del option.distinct(1) option.inject)+)

lemma od_move_distinct: "distinct (map fst d) \<Longrightarrow> distinct (map fst (od_move_to_end k d))"
  by (auto simp: od_move_to_end_def od_del_distinct split: option.splits) (auto simp: od_del_def)

lemma od_del_length:
  "distinct (map fst d) \<Longrightarrow> length (od_del k d) = (if k \<in> fst ` set d then length d - 1 else length d)"
proof (induction d)
  case (Cons e d)
  then show ?case
    by (cases "k \<in> fst ` set d") (auto simp: od_del_def Suc_diff_le dest: length_pos_if_in_set)
qed (simp add: od_del_def)

lemma od_trim_drop: "od_trim n d = drop (length d - n) d"
proof (induction n d rule: od_trim.induct)
  case (2 n e d)
  then show ?case by (auto simp: not_less Suc_diff_le)
qed simp

lemma od_del_put: "od_del k (od_put k v d) = od_del k d"
  by (induction k v d rule: od_put.induct) (auto simp: od_del_def)

lemma od_move_put: "od_move_to_end k (od_put k v d) = od_del k d @ [(k, v)]"
  by (simp add: od_move_to_end_def od_get_put od_del_put)

lemma od_store_eq: "od_store n k v d = drop (Suc (length (od_del k d)) - n) (od_del k d @ [(k, v)])"
  by (simp add: od_store_def od_move_put od_trim_drop)

lemma od_get_drop: "od_get (drop i d) k = Some v \<Longrightarrow> distinct (map fst d) \<Longrightarrow> od_get d k = Some v"
  unfolding od_get_def by (metis distinct_drop drop_map in_set_dropD map_of_SomeD map_of_is_SomeI)

lemma od_store_ok: "od_ok n d \<Longrightarrow> od_ok n (od_store n k v d)"
proof -
  assume "od_ok n d"
  then have "distinct (map fst (od_del k d @ [(k, v)]))"
    by (auto simp: od_ok_def od_del_distinct) (simp add: od_del_def)
  then have "distinct (map fst (drop m (od_del k d @ [(k, v)])))" for m
    by (simp only: drop_map [symmetric] distinct_drop)
  then show ?thesis
    by (simp only: od_ok_def od_store_eq) simp
qed

lemma od_get_store: "0 < n \<Longrightarrow> od_get (od_store n k v d) k = Some v"
proof -
  assume n: "0 < n"
  let ?m = "Suc (length (od_del k d)) - n"
  have "od_store n k v d = drop ?m (od_del k d) @ [(k, v)]"
    using n by (simp add: od_store_eq)
  moreover have "map_of (drop ?m (od_del k d)) k = None"
    by (auto simp: map_of_eq_None_iff od_del_def dest: in_set_dropD)
  ultimately show ?thesis by (simp add: od_get_def map_add_def)
qed

lemma od_get_store_other:
  assumes "od_ok n d" and "k' \<noteq> k"
  shows "od_get (od_store n k v d) k' = None \<or> od_get (od_store n k v d) k' = od_get d k'"
proof (cases "od_get (od_store n k v d) k'")
  case (Some w)
  let ?l = "od_del k d @ [(k, v)]"
  have "distinct (map fst ?l)"
    using assms(1) by (auto simp: od_ok_def od_del_distinct) (simp add: od_del_def)
  with Some have "od_get ?l k' = Some w"
    unfolding od_store_eq by (rule od_get_drop)
  with assms(2) od_get_del [of k d k'] have "od_get d k' = Some w"
    by (auto simp: od_get_def map_add_def split: option.splits)
  with Some show ?thesis by simp
qed simp

lemma od_move_ok: "od_ok n d \<Longrightarrow> od_ok n (od_move_to_end k d)"
proof (cases "od_get d k")
  case (Some v)
  assume ok: "od_ok n d"
  from Some have "(k, v) \<in> set d" by (simp add: od_get_def map_of_SomeD)
  then have "k \<in> fst ` set d" and "d \<noteq> []" by force+
  with ok Some show ?thesis
    using od_move_distinct [of d k] by (auto simp: od_ok_def od_move_to_end_def od_del_length)
qed (simp add: od_move_to_end_def)

section \<open>The contract of a bounded cache\<close>

locale bounded_store =
  fixes store :: "'k \<Rightarrow> 'v \<Rightarrow> 'c \<Rightarrow> 'c" and get :: "'c \<Rightarrow> 'k \<Rightarrow> 'v option" and touch :: "'k \<Rightarrow> 'c \<Rightarrow> 'c"
    and empty :: 'c and ok :: "'c \<Rightarrow> bool"
  assumes ok_empty: "ok empty"
    and ok_store: "ok c \<Longrightarrow> ok (store k v c)"
    and ok_touch: "ok c \<Longrightarrow> ok (touch k c)"
    and get_empty: "get empty k = None"
    and get_store: "ok c \<Longrightarrow> get (store k v c) k = Some v"
    and get_store_other:
      "ok c \<Longrightarrow> k' \<noteq> k \<Longrightarrow> get (store k v c) k' = None \<or> get (store k v c) k' = get c k'"
    and get_touch: "get (touch k c) k' = get c k'"
begin

text \<open>Every entry satisfies what it was stored with.\<close>

definition entries :: "('k \<Rightarrow> 'v \<Rightarrow> bool) \<Rightarrow> 'c \<Rightarrow> bool" where
  "entries P c = (ok c \<and> (\<forall>k v. get c k = Some v \<longrightarrow> P k v))"

lemma entries_empty: "entries P empty"
  by (simp add: entries_def ok_empty get_empty)

lemma entries_store: "entries P c \<Longrightarrow> P k v \<Longrightarrow> entries P (store k v c)"
  unfolding entries_def
  by (metis get_store get_store_other ok_store option.distinct(1) option.inject)

lemma entries_touch: "entries P c \<Longrightarrow> entries P (touch k c)"
  by (simp add: entries_def ok_touch get_touch)

lemma entries_get: "entries P c \<Longrightarrow> get c k = Some v \<Longrightarrow> P k v"
  by (simp add: entries_def)

lemma entries_ok: "entries P c \<Longrightarrow> ok c"
  by (simp add: entries_def)

end

interpretation od: bounded_store "od_store (Suc n)" od_get od_move_to_end "[]" "od_ok (Suc n)" for n
  by unfold_locales
    (simp_all add: od_store_ok od_move_ok od_get_store od_get_store_other, simp_all add: od_ok_def od_get_def)

end
