(* ===== verification/Prefix_Cache.thy ===== *)
theory Prefix_Cache
  imports Ordered_Dict
begin

text \<open>
  The instruction prefix cache of \<open>plugins/prefix_cache.py\<close>.  The injected
  \<open>prefixer\<close> is a function that may raise.  \<open>get_or_compute\<close> holds the lock
  twice, before and after the call of the prefixer; the two sections are the
  definitions \<open>prefix_probe\<close> and \<open>prefix_insert\<close>, so that what is proved of each
  section holds for every interleaving of threads.
\<close>

section \<open>Plugin configurations\<close>

text \<open>
  The three accepted forms of a plugin's configuration: a boolean, nothing, a
  JSON object; anything else is a \<open>TypeError\<close>.
\<close>

fun plugin_config ::
    "(bool \<Rightarrow> 'c res) \<Rightarrow> 'c res \<Rightarrow> (pydict \<Rightarrow> 'c res) \<Rightarrow> string \<Rightarrow> pyval \<Rightarrow> 'c res" where
  "plugin_config mk dflt of_dict msg (PBool b) = mk b"
| "plugin_config mk dflt of_dict msg PNone = dflt"
| "plugin_config mk dflt of_dict msg (PDict d) = of_dict d"
| "plugin_config mk dflt of_dict msg _ = Err (TypeError msg)"

record prefix_config =
  pc_enabled :: bool
  pc_max_entries :: int
  pc_normalize :: bool

definition prefix_config_post_init :: "prefix_config \<Rightarrow> prefix_config res" where
  "prefix_config_post_init c =
     (if pc_max_entries c < 1 then Err (ValueError ''prefix_cache.max_entries must be positive'')
      else Ok c)"

abbreviation default_prefix_config :: "bool \<Rightarrow> prefix_config" where
  "default_prefix_config b \<equiv> \<lparr>pc_enabled = b, pc_max_entries = 1024, pc_normalize = True\<rparr>"

definition prefix_config_from_mapping :: "pyval \<Rightarrow> prefix_config res" where
  "prefix_config_from_mapping =
     plugin_config (\<lambda>b. prefix_config_post_init (default_prefix_config b))
       (prefix_config_post_init (default_prefix_config False))
       (\<lambda>d. res_bind (py_int (dget_or d ''max_entries'' (PInt 1024))) (\<lambda>n.
          prefix_config_post_init
            \<lparr>pc_enabled = py_bool (dget_or d ''enabled'' (PBool True)), pc_max_entries = n,
             pc_normalize = py_bool (dget_or d ''normalize'' (PBool True))\<rparr>))
       ''prefix_cache must be a boolean or JSON object''"

section \<open>Normalized keys\<close>

text \<open>
  The length in bytes of the white-space character a UTF-8 string starts with
  (0 if it starts with none), for the characters \<open>str.split\<close> takes as white space.
\<close>

definition b3 :: "nat \<Rightarrow> nat \<Rightarrow> nat \<Rightarrow> bool" where
  "b3 a b c =
     ((a = 0xE1 \<and> b = 0x9A \<and> c = 0x80) \<or>
      (a = 0xE2 \<and> b = 0x80 \<and> (0x80 \<le> c \<and> c \<le> 0x8A \<or> c \<in> {0xA8, 0xA9, 0xAF})) \<or>
      (a = 0xE2 \<and> b = 0x81 \<and> c = 0x9F) \<or> (a = 0xE3 \<and> b = 0x80 \<and> c = 0x80))"

fun ws_len :: "string \<Rightarrow> nat" where
  "ws_len [] = 0"
| "ws_len (a # s) =
     (let x = of_char a :: nat
      in if 9 \<le> x \<and> x \<le> 13 \<or> 28 \<le> x \<and> x \<le> 32 then 1
         else case s of
             [] \<Rightarrow> 0
           | b # t \<Rightarrow>
               (if x = 0xC2 \<and> (of_char b :: nat) \<in> {0x85, 0xA0} then 2
                else case t of [] \<Rightarrow> 0 | c # _ \<Rightarrow> if b3 x (of_char b) (of_char c) then 3 else 0))"

text \<open>\<open>str.split()\<close>: the maximal pieces without white space.\<close>

function split_words :: "string \<Rightarrow> string \<Rightarrow> string list" where
  "split_words acc s =
     (case s of
        [] \<Rightarrow> (if acc = [] then [] else [acc])
      | c # t \<Rightarrow>
          (if 0 < ws_len s
           then (if acc = [] then [] else [acc]) @ split_words [] (drop (ws_len s) s)
           else split_words (acc @ [c]) t))"
  by pat_completeness auto
termination
  by (relation "measure (\<lambda>(acc, s). length s)") auto

declare split_words.simps [simp del]

fun join_words :: "string list \<Rightarrow> string" where
  "join_words [] = []"
| "join_words [w] = w"
| "join_words (w # ws) = w @ CHR '' '' # join_words ws"

text \<open>\<open>str.strip()\<close>: white space removed on the left, then on the right.\<close>

function lstrip :: "string \<Rightarrow> string" where
  "lstrip s = (if 0 < ws_len s then lstrip (drop (ws_len s) s) else s)"
  by pat_completeness auto
termination
proof (relation "measure length")
  fix s assume "0 < ws_len s"
  then show "(drop (ws_len s) s, s) \<in> measure length" by (cases s) simp_all
qed simp

declare lstrip.simps [simp del]

fun rstrip :: "string \<Rightarrow> string" where
  "rstrip [] = []"
| "rstrip (c # s) = (if split_words [] (c # s) = [] then [] else c # rstrip s)"

definition cache_key :: "prefix_config \<Rightarrow> string \<Rightarrow> string" where
  "cache_key c text =
     (if pc_normalize c then rstrip (lstrip (join_words (split_words [] text))) else text)"

section \<open>Plugin\<close>

record 'p prefix_cache =
  px_config :: prefix_config
  px_prefixer :: "(string \<Rightarrow> 'p res) option"
  px_cache :: "(string, 'p) odict"
  px_hits :: nat
  px_misses :: nat

definition prefix_cache_init :: "(string \<Rightarrow> 'p res) option \<Rightarrow> prefix_config \<Rightarrow> 'p prefix_cache" where
  "prefix_cache_init prefixer c =
     \<lparr>px_config = c, px_prefixer = (if pc_enabled c then prefixer else None), px_cache = [],
      px_hits = 0, px_misses = 0\<rparr>"

definition prefix_mode :: "'p prefix_cache \<Rightarrow> string" where
  "prefix_mode s =
     (if px_prefixer s \<noteq> None then ''native''
      else if pc_enabled (px_config s) then ''fallback'' else ''disabled'')"

definition prefix_key :: "'p prefix_cache \<Rightarrow> string \<Rightarrow> string" where
  "prefix_key s text = cache_key (px_config s) text"

definition prefix_lookup :: "'p prefix_cache \<Rightarrow> string \<Rightarrow> 'p option" where
  "prefix_lookup s text = od_get (px_cache s) (prefix_key s text)"

definition prefix_capacity :: "'p prefix_cache \<Rightarrow> nat" where
  "prefix_capacity s = nat (pc_max_entries (px_config s))"

definition prefix_put :: "string \<Rightarrow> 'p \<Rightarrow> 'p prefix_cache \<Rightarrow> 'p prefix_cache" where
  "prefix_put text prefix s =
     (if \<not> pc_enabled (px_config s) then s
      else s\<lparr>px_cache := od_store (prefix_capacity s) (prefix_key s text) prefix (px_cache s)\<rparr>)"

text \<open>The first locked section of \<open>get_or_compute\<close>: a hit, or nothing.\<close>

definition prefix_probe :: "string \<Rightarrow> 'p prefix_cache \<Rightarrow> 'p prefix_cache \<times> 'p option" where
  "prefix_probe text s =
     (case od_get (px_cache s) (prefix_key s text) of
        None \<Rightarrow> (s, None)
      | Some p \<Rightarrow> (s\<lparr>px_hits := Suc (px_hits s),
                    px_cache := od_move_to_end (prefix_key s text) (px_cache s)\<rparr>, Some p))"

text \<open>The second one: count the miss, store, evict.\<close>

definition prefix_insert :: "string \<Rightarrow> 'p \<Rightarrow> 'p prefix_cache \<Rightarrow> 'p prefix_cache" where
  "prefix_insert text prefix s =
     s\<lparr>px_misses := Suc (px_misses s),
       px_cache := od_store (prefix_capacity s) (prefix_key s text) prefix (px_cache s)\<rparr>"

definition get_or_compute ::
    "string \<Rightarrow> 'p prefix_cache \<Rightarrow> 'p prefix_cache \<times> ('p option \<times> bool) res" where
  "get_or_compute text s =
     (if \<not> pc_enabled (px_config s) then (s, Ok (None, False))
      else case prefix_probe text s of
          (s', Some p) \<Rightarrow> (s', Ok (Some p, True))
        | (s', None) \<Rightarrow>
            (case px_prefixer s' of
               None \<Rightarrow> (s', Ok (None, False))
             | Some f \<Rightarrow>
                 (case f text of
                    Err e \<Rightarrow> (s', Err e)
                  | Ok p \<Rightarrow> (prefix_insert text p s', Ok (Some p, False)))))"

definition prefix_reset :: "'p prefix_cache \<Rightarrow> 'p prefix_cache" where
  "prefix_reset s = s\<lparr>px_cache := [], px_hits := 0, px_misses := 0\<rparr>"

definition hit_rate :: "nat \<Rightarrow> nat \<Rightarrow> real" where
  "hit_rate hits misses = (if hits + misses = 0 then 0 else real hits / real (hits + misses))"

definition prefix_metadata :: "'p prefix_cache \<Rightarrow> (string \<times> pyval) list" where
  "prefix_metadata s =
     [(''enabled'', PBool (pc_enabled (px_config s))), (''mode'', PStr (prefix_mode s)),
      (''max_entries'', PInt (pc_max_entries (px_config s))),
      (''normalize'', PBool (pc_normalize (px_config s))),
      (''entries'', PInt (int (length (px_cache s)))), (''hits'', PInt (int (px_hits s))),
      (''misses'', PInt (int (px_misses s))),
      (''hit_rate'', PFloat (Fin (hit_rate (px_hits s) (px_misses s))))]"

section \<open>Lemmas on keys\<close>

definition no_ws :: "string \<Rightarrow> bool" where
  "no_ws w = (\<forall>i < length w. ws_len (drop i w) = 0)"

lemma ws_len_append: "0 < ws_len u \<Longrightarrow> ws_len (u @ v) = ws_len u"
  by (cases u rule: ws_len.cases) (auto simp: Let_def split: list.splits if_splits)

lemma lstrip_Nil [simp]: "lstrip [] = []"
  by (simp add: lstrip.simps)

lemma ws_len_prefix: "ws_len (u @ v) = 0 \<Longrightarrow> ws_len u = 0"
  using ws_len_append [of u v] by (cases "ws_len u") simp_all

lemma b3_blank [simp]: "b3 a 32 c = False" "b3 a b 32 = False"
  by (simp_all add: b3_def)

lemma ws_len_space: "u \<noteq> [] \<Longrightarrow> ws_len u = 0 \<Longrightarrow> ws_len (u @ CHR '' '' # v) = 0"
proof (cases u)
  case (Cons a t)
  assume u: "u \<noteq> []" "ws_len u = 0"
  show ?thesis
  proof (cases t)
    case Nil
    with Cons u show ?thesis by (cases v) (simp_all add: Let_def split: if_splits)
  next
    case (Cons b r)
    with \<open>u = a # t\<close> u show ?thesis
      by (cases r) (simp_all add: Let_def split: if_splits)
  qed
qed simp

declare ws_len.simps(2) [simp del]

lemma ws_len_blank [simp]: "ws_len (CHR '' '' # s) = 1"
  by (simp add: ws_len.simps)

lemma no_ws_tl: "no_ws (c # w) \<Longrightarrow> ws_len (c # w) = 0 \<and> no_ws w"
proof -
  assume n: "no_ws (c # w)"
  have "ws_len (drop 0 (c # w)) = 0"
    using n unfolding no_ws_def by (rule allE [of _ 0]) simp
  moreover have "ws_len (drop (Suc i) (c # w)) = 0" if "i < length w" for i
    using n that unfolding no_ws_def by (elim allE [of _ "Suc i"]) simp
  ultimately show ?thesis unfolding no_ws_def by simp
qed

lemma split_word_space:
  "no_ws w \<Longrightarrow> acc @ w \<noteq> [] \<Longrightarrow> split_words acc (w @ CHR '' '' # v) = (acc @ w) # split_words [] v"
proof (induction w arbitrary: acc)
  case Nil
  then show ?case by (simp add: split_words.simps [of acc])
next
  case (Cons c w)
  note c = no_ws_tl [OF Cons.prems(1)]
  from c ws_len_space [of "c # w" v] have "ws_len ((c # w) @ CHR '' '' # v) = 0" by simp
  with Cons.IH [of "acc @ [c]"] c show ?case by (simp add: split_words.simps [of acc])
qed

lemma split_word_end: "no_ws w \<Longrightarrow> acc @ w \<noteq> [] \<Longrightarrow> split_words acc w = [acc @ w]"
proof (induction w arbitrary: acc)
  case Nil
  then show ?case by (simp add: split_words.simps [of acc])
next
  case (Cons c w)
  note c = no_ws_tl [OF Cons.prems(1)]
  with Cons.IH [of "acc @ [c]"] show ?case by (simp add: split_words.simps [of acc])
qed

definition good_words :: "string list \<Rightarrow> bool" where
  "good_words ws = (\<forall>w \<in> set ws. w \<noteq> [] \<and> no_ws w)"

lemma split_join: "good_words ws \<Longrightarrow> split_words [] (join_words ws) = ws"
proof (induction ws rule: join_words.induct)
  case 1
  then show ?case by (simp add: split_words.simps [of "[]"])
next
  case (2 w)
  then show ?case using split_word_end [of w "[]"] by (simp add: good_words_def)
next
  case (3 w w' ws)
  then show ?case using split_word_space [of w "[]" "join_words (w' # ws)"] by (simp add: good_words_def)
qed

lemma split_words_good:
  "\<forall>i < length acc. ws_len (drop i acc @ s) = 0 \<Longrightarrow> good_words (split_words acc s)"
proof (induction acc s rule: split_words.induct)
  case (1 acc s)
  have acc: "acc = [] \<or> good_words [acc]"
    using 1(3) ws_len_prefix by (auto simp: good_words_def no_ws_def)
  show ?case
  proof (cases s)
    case Nil
    with acc show ?thesis by (auto simp: split_words.simps [of acc] good_words_def)
  next
    case (Cons c t)
    show ?thesis
    proof (cases "0 < ws_len s")
      case True
      with 1(1) [OF Cons True] Cons acc show ?thesis
        by (auto simp: split_words.simps [of acc] good_words_def)
    next
      case False
      have "\<forall>i < length (acc @ [c]). ws_len (drop i (acc @ [c]) @ t) = 0"
        using 1(3) False Cons by (auto simp: less_Suc_eq)
      with 1(2) [OF Cons False] False Cons show ?thesis
        by (simp add: split_words.simps [of acc])
    qed
  qed
qed

lemma words_good: "good_words (split_words [] s)"
  by (rule split_words_good) simp

lemma join_Cons: "ws \<noteq> [] \<Longrightarrow> join_words (w # ws) = w @ CHR '' '' # join_words ws"
  by (cases ws) simp_all

lemma rstrip_join:
  "good_words ws \<Longrightarrow> no_ws w \<Longrightarrow> w \<noteq> [] \<or> ws \<noteq> [] \<Longrightarrow> rstrip (join_words (w # ws)) = join_words (w # ws)"
proof (induction ws arbitrary: w)
  case Nil
  then show ?case
  proof (induction w)
    case (Cons c w)
    then show ?case
      using split_word_end [of "c # w" "[]"] no_ws_tl [of c w] by (cases w) (simp_all add: split_words.simps)
  qed simp
next
  case (Cons x ws)
  have x: "x \<noteq> []" "no_ws x" "good_words ws"
    using Cons.prems(1) by (auto simp: good_words_def)
  from Cons.prems(2) show ?case
  proof (induction w)
    case Nil
    have "split_words [] (CHR '' '' # join_words (x # ws)) = x # ws"
      using split_join [OF Cons.prems(1)] by (simp add: split_words.simps [of "[]" "CHR '' '' # _"])
    with Cons.IH [OF x(3,2)] x(1) show ?case by simp
  next
    case (Cons c w)
    note c = no_ws_tl [OF Cons.prems]
    have "split_words [] ((c # w) @ CHR '' '' # join_words (x # ws)) \<noteq> []"
      using split_word_space [OF Cons.prems, of "[]" "join_words (x # ws)"] by simp
    with Cons.IH c show ?case by simp
  qed
qed

lemma lstrip_join: "good_words ws \<Longrightarrow> lstrip (join_words ws) = join_words ws"
proof (cases ws)
  case (Cons w ws')
  assume "good_words ws"
  with Cons have w: "w \<noteq> []" "ws_len w = 0"
    by (auto simp: good_words_def no_ws_def dest!: spec [of _ 0])
  then have "ws_len (join_words ws) = 0"
    using ws_len_space [OF w] Cons by (cases ws') simp_all
  then show ?thesis by (simp add: lstrip.simps)
qed (simp add: lstrip.simps)

lemma cache_key_words: "pc_normalize c \<Longrightarrow> cache_key c text = join_words (split_words [] text)"
  using words_good [of "text"] rstrip_join [of "tl (split_words [] text)" "hd (split_words [] text)"]
  by (cases "split_words [] text") (auto simp: cache_key_def lstrip_join good_words_def)

lemma cache_key_eq_iff:
  "pc_normalize c \<Longrightarrow> (cache_key c s = cache_key c t) = (split_words [] s = split_words [] t)"
  by (metis cache_key_words split_join words_good)

lemma cache_key_idem: "cache_key c (cache_key c text) = cache_key c text"
proof (cases "pc_normalize c")
  case True
  then show ?thesis by (simp add: cache_key_words split_join words_good)
qed (simp add: cache_key_def)

section \<open>Invariant over all interleavings\<close>

definition key_source :: "prefix_config \<Rightarrow> (string \<Rightarrow> 'p res) \<Rightarrow> string \<Rightarrow> 'p \<Rightarrow> bool" where
  "key_source c f k p = (\<exists>t. cache_key c t = k \<and> f t = Ok p)"

text \<open>The states reachable by the locked sections of concurrent calls and resets.\<close>

inductive prefix_reach ::
    "(string \<Rightarrow> 'p res) \<Rightarrow> prefix_config \<Rightarrow> 'p prefix_cache \<Rightarrow> bool" for f c where
  px_start: "prefix_reach f c (prefix_cache_init (Some f) c)"
| px_probe: "prefix_reach f c s \<Longrightarrow> prefix_reach f c (fst (prefix_probe t s))"
| px_insert: "prefix_reach f c s \<Longrightarrow> f t = Ok p \<Longrightarrow> prefix_reach f c (prefix_insert t p s)"
| px_reset: "prefix_reach f c s \<Longrightarrow> prefix_reach f c (prefix_reset s)"

abbreviation slots :: "prefix_config \<Rightarrow> nat" where
  "slots c \<equiv> nat (pc_max_entries c - 1)"

lemma capacity_Suc: "1 \<le> pc_max_entries (px_config s) \<Longrightarrow> prefix_capacity s = Suc (slots (px_config s))"
  by (simp add: prefix_capacity_def)

lemma prefix_config_Ok: "prefix_config_post_init c = Ok c' \<Longrightarrow> 1 \<le> pc_max_entries c \<and> c' = c"
  by (auto simp: prefix_config_post_init_def split: if_splits)

lemma prefix_probe_frame:
  "px_config (fst (prefix_probe t s)) = px_config s" "px_prefixer (fst (prefix_probe t s)) = px_prefixer s"
  by (simp_all add: prefix_probe_def split: option.splits)

lemma prefix_reach_inv:
  assumes "prefix_reach f c s" and "1 \<le> pc_max_entries c" and "pc_enabled c"
  shows "px_config s = c \<and> px_prefixer s = Some f \<and> od.entries (slots c) (key_source c f) (px_cache s)"
  using assms
proof (induction rule: prefix_reach.induct)
  case px_start
  then show ?case by (simp add: prefix_cache_init_def od.entries_empty)
next
  case (px_probe s t)
  then show ?case
    by (auto simp: prefix_probe_frame) (auto simp: prefix_probe_def od.entries_touch split: option.splits)
next
  case (px_insert s t p)
  then have "key_source c f (prefix_key s t) p" by (auto simp: key_source_def prefix_key_def)
  with px_insert show ?case
    by (simp add: prefix_insert_def capacity_Suc od.entries_store)
next
  case (px_reset s)
  then show ?case by (simp add: prefix_reset_def od.entries_empty)
qed

section \<open>Properties\<close>


definition len_prefixer :: "string \<Rightarrow> nat res" where
  "len_prefixer t = Ok (length (split_words [] t))"


text \<open>
  A stored prefix is found again.  After \<open>put\<close> on an enabled plugin, in any
  mode, \<open>get_or_compute\<close> reports a hit with that prefix for every text that has
  the same words; so in fallback mode it does not return \<open>(None, False)\<close>.
\<close>

theorem prefix_put_get:
  assumes "pc_enabled (px_config s)" and "1 \<le> pc_max_entries (px_config s)"
    and "cache_key (px_config s) u = cache_key (px_config s) t"
  shows "snd (get_or_compute u (prefix_put t p s)) = Ok (Some p, True)"
  using assms
  by (simp add: get_or_compute_def prefix_probe_def prefix_put_def prefix_key_def od_get_store
      prefix_capacity_def)

theorem prefix_put_get_witness:
  "snd (get_or_compute ''go'' (prefix_put ''go'' (5 :: nat)
     (prefix_cache_init None (default_prefix_config True)))) = Ok (Some 5, True)"
  by (rule prefix_put_get) (simp_all add: prefix_cache_init_def)

text \<open>
  Normalization of keys: it is idempotent, and two instructions share an
  entry exactly when they consist of the same words.
\<close>

theorem prefix_key_normal:
  assumes "pc_normalize c"
  shows "cache_key c (cache_key c t) = cache_key c t \<and>
         (cache_key c t = cache_key c u \<longleftrightarrow> split_words [] t = split_words [] u)"
  using cache_key_idem cache_key_eq_iff [OF assms] by blast

theorem prefix_key_normal_witness:
  "cache_key (default_prefix_config True) ''go '' = cache_key (default_prefix_config True) ''go''"
proof -
  have "split_words [] ''go '' = split_words [] ''go''"
    by (simp add: split_words.simps ws_len.simps Let_def b3_def)
  with prefix_key_normal [of "default_prefix_config True" "''go ''" "''go''"] show ?thesis by simp
qed

end
