(* ===== verification/Vision_Token_Cache.thy ===== *)
theory Vision_Token_Cache
  imports Prefix_Cache Tensors
begin

text \<open>
  The per-camera token cache of \<open>plugins/vision_token_cache.py\<close>.  The encoder and
  the pruner are injected functions that may raise; \<open>hashlib.sha256\<close> is a
  parameter.  As in the prefix cache, the two locked sections of \<open>encode\<close> are
  separate definitions.
\<close>

record vtc_config =
  vc_enabled :: bool
  vc_max_entries :: int
  vc_prune_ratio :: pyfloat

definition vtc_config_post_init :: "vtc_config \<Rightarrow> vtc_config res" where
  "vtc_config_post_init c =
     (if vc_max_entries c < 1 then Err (ValueError ''vision_token_cache.max_entries must be positive'')
      else if \<not> (pf_le (Fin 0) (vc_prune_ratio c) \<and> pf_lt (vc_prune_ratio c) (Fin 1))
      then Err (ValueError ''vision_token_cache.prune_ratio must be in [0, 1)'')
      else Ok c)"

abbreviation default_vtc_config :: "bool \<Rightarrow> vtc_config" where
  "default_vtc_config b \<equiv> \<lparr>vc_enabled = b, vc_max_entries = 32, vc_prune_ratio = Fin 0\<rparr>"

definition vtc_config_from_mapping :: "pyval \<Rightarrow> vtc_config res" where
  "vtc_config_from_mapping =
     plugin_config (\<lambda>b. vtc_config_post_init (default_vtc_config b))
       (vtc_config_post_init (default_vtc_config False))
       (\<lambda>d. res_bind (py_int (dget_or d ''max_entries'' (PInt 32))) (\<lambda>n.
            res_bind (py_float (dget_or d ''prune_ratio'' (PFloat (Fin 0)))) (\<lambda>r.
          vtc_config_post_init
            \<lparr>vc_enabled = py_bool (dget_or d ''enabled'' (PBool True)), vc_max_entries = n,
             vc_prune_ratio = r\<rparr>)))
       ''vision_token_cache must be a boolean or JSON object''"

record 'e vtc =
  vt_config :: vtc_config
  vt_encoder :: "(ndarray \<Rightarrow> 'e res) option"
  vt_pruner :: "('e \<Rightarrow> pyfloat \<Rightarrow> 'e res) option"
  vt_cache :: "(string, byte list \<times> 'e) odict"
  vt_hits :: nat
  vt_misses :: nat

definition vtc_init ::
    "(ndarray \<Rightarrow> 'e res) option \<Rightarrow> ('e \<Rightarrow> pyfloat \<Rightarrow> 'e res) option \<Rightarrow> vtc_config \<Rightarrow> 'e vtc" where
  "vtc_init encoder pruner c =
     \<lparr>vt_config = c, vt_encoder = (if vc_enabled c then encoder else None),
      vt_pruner = (if vc_enabled c \<and> pf_lt (Fin 0) (vc_prune_ratio c) then pruner else None),
      vt_cache = [], vt_hits = 0, vt_misses = 0\<rparr>"

definition vtc_mode :: "'e vtc \<Rightarrow> string" where
  "vtc_mode s =
     (if vt_encoder s \<noteq> None then ''native''
      else if vc_enabled (vt_config s) then ''fallback'' else ''disabled'')"

definition fingerprint :: "(byte list \<Rightarrow> byte list) \<Rightarrow> ndarray \<Rightarrow> byte list" where
  "fingerprint sha256 img = sha256 (nd_data (ascontiguous img))"

text \<open>\<open>encode\<close> hands back the raw image when there is no encoder.\<close>

datatype 'e vt_out = RawImage ndarray | Tokens 'e

definition vtc_probe ::
    "(byte list \<Rightarrow> byte list) \<Rightarrow> string \<Rightarrow> ndarray \<Rightarrow> 'e vtc \<Rightarrow> 'e vtc \<times> 'e option" where
  "vtc_probe sha256 camera img s =
     (case od_get (vt_cache s) camera of
        None \<Rightarrow> (s, None)
      | Some (fp, tokens) \<Rightarrow>
          (if fp = fingerprint sha256 img then (s\<lparr>vt_hits := Suc (vt_hits s)\<rparr>, Some tokens) else (s, None)))"

definition vtc_compute :: "'e vtc \<Rightarrow> (ndarray \<Rightarrow> 'e res) \<Rightarrow> ndarray \<Rightarrow> 'e res" where
  "vtc_compute s encoder img =
     res_bind (encoder img) (\<lambda>tokens.
       case vt_pruner s of
         None \<Rightarrow> Ok tokens
       | Some prune \<Rightarrow> prune tokens (pf_sub (Fin 1) (vc_prune_ratio (vt_config s))))"

definition vtc_insert ::
    "(byte list \<Rightarrow> byte list) \<Rightarrow> string \<Rightarrow> ndarray \<Rightarrow> 'e \<Rightarrow> 'e vtc \<Rightarrow> 'e vtc" where
  "vtc_insert sha256 camera img tokens s =
     s\<lparr>vt_misses := Suc (vt_misses s),
       vt_cache := od_store (nat (vc_max_entries (vt_config s))) camera
                     (fingerprint sha256 img, tokens) (vt_cache s)\<rparr>"

definition encode ::
    "(byte list \<Rightarrow> byte list) \<Rightarrow> string \<Rightarrow> ndarray \<Rightarrow> 'e vtc \<Rightarrow> 'e vtc \<times> ('e vt_out \<times> bool) res" where
  "encode sha256 camera img s =
     (if \<not> vc_enabled (vt_config s) then (s, Ok (RawImage img, False))
      else case vtc_probe sha256 camera img s of
          (s', Some tokens) \<Rightarrow> (s', Ok (Tokens tokens, True))
        | (s', None) \<Rightarrow>
            (case vt_encoder s' of
               None \<Rightarrow> (s', Ok (RawImage img, False))
             | Some encoder \<Rightarrow>
                 (case vtc_compute s' encoder img of
                    Err e \<Rightarrow> (s', Err e)
                  | Ok tokens \<Rightarrow> (vtc_insert sha256 camera img tokens s', Ok (Tokens tokens, False)))))"

definition vtc_reset :: "'e vtc \<Rightarrow> 'e vtc" where
  "vtc_reset s = s\<lparr>vt_cache := [], vt_hits := 0, vt_misses := 0\<rparr>"

definition vtc_metadata :: "'e vtc \<Rightarrow> (string \<times> pyval) list" where
  "vtc_metadata s =
     [(''enabled'', PBool (vc_enabled (vt_config s))), (''mode'', PStr (vtc_mode s)),
      (''max_entries'', PInt (vc_max_entries (vt_config s))),
      (''prune_ratio'', PFloat (vc_prune_ratio (vt_config s))),
      (''pruning'', PBool (vt_pruner s \<noteq> None)),
      (''entries'', PInt (int (length (vt_cache s)))), (''hits'', PInt (int (vt_hits s))),
      (''misses'', PInt (int (vt_misses s))),
      (''reuse_rate'', PFloat (Fin (hit_rate (vt_hits s) (vt_misses s))))]"

section \<open>Invariant over all interleavings\<close>

inductive vtc_reach ::
    "(byte list \<Rightarrow> byte list) \<Rightarrow> (ndarray \<Rightarrow> 'e res) \<Rightarrow> 'e vtc \<Rightarrow> 'e vtc \<Rightarrow> bool" for sha256 enc s0 where
  vt_start: "vtc_reach sha256 enc s0 s0"
| vt_probe: "vtc_reach sha256 enc s0 s \<Longrightarrow> vtc_reach sha256 enc s0 (fst (vtc_probe sha256 cam img s))"
| vt_insert: "vtc_reach sha256 enc s0 s \<Longrightarrow> vtc_compute s enc img = Ok tokens \<Longrightarrow>
    vtc_reach sha256 enc s0 (vtc_insert sha256 cam img tokens s)"
| vt_reset: "vtc_reach sha256 enc s0 s \<Longrightarrow> vtc_reach sha256 enc s0 (vtc_reset s)"

text \<open>An entry holds the tokens of some image with the entry's fingerprint.\<close>

definition token_source ::
    "(byte list \<Rightarrow> byte list) \<Rightarrow> (ndarray \<Rightarrow> 'e res) \<Rightarrow> string \<Rightarrow> byte list \<times> 'e \<Rightarrow> bool" where
  "token_source sha256 compute cam e =
     (\<exists>img. fst e = fingerprint sha256 img \<and> compute img = Ok (snd e))"

lemma vtc_probe_frame:
  "vt_config (fst (vtc_probe sha256 cam img s)) = vt_config s"
  "vt_encoder (fst (vtc_probe sha256 cam img s)) = vt_encoder s"
  "vt_pruner (fst (vtc_probe sha256 cam img s)) = vt_pruner s"
  "vt_cache (fst (vtc_probe sha256 cam img s)) = vt_cache s"
  by (simp_all add: vtc_probe_def split: option.splits)

lemma vtc_compute_cong:
  "vt_pruner t = vt_pruner s \<Longrightarrow> vt_config t = vt_config s \<Longrightarrow> vtc_compute t = vtc_compute s"
  by (intro ext) (cases "vt_pruner s"; simp add: vtc_compute_def)

abbreviation vt_slots :: "vtc_config \<Rightarrow> nat" where
  "vt_slots c \<equiv> nat (vc_max_entries c - 1)"

lemma vtc_reach_inv:
  assumes "vtc_reach sha256 enc s0 s" and "s0 = vtc_init (Some enc) pruner c"
    and "1 \<le> vc_max_entries c" and "vc_enabled c"
  shows "vt_config s = c \<and> vt_encoder s = Some enc \<and> vt_pruner s = vt_pruner s0 \<and>
         od.entries (vt_slots c) (token_source sha256 (vtc_compute s0 enc)) (vt_cache s)"
  using assms
proof (induction rule: vtc_reach.induct)
  case vt_start
  then show ?case by (simp add: vtc_init_def od.entries_empty)
next
  case (vt_probe s cam img)
  then show ?case by (simp add: vtc_probe_frame)
next
  case (vt_insert s img tokens cam)
  then have inv: "vt_config s = c" "vt_encoder s = Some enc" "vt_pruner s = vt_pruner s0"
      "od.entries (vt_slots c) (token_source sha256 (vtc_compute s0 enc)) (vt_cache s)" by auto
  have "vtc_compute s = vtc_compute s0"
    using inv vt_insert.prems by (intro vtc_compute_cong) (simp_all add: vtc_init_def)
  with vt_insert.hyps(2) have "token_source sha256 (vtc_compute s0 enc) cam (fingerprint sha256 img, tokens)"
    by (auto simp: token_source_def)
  moreover have "nat (vc_max_entries c) = Suc (vt_slots c)" using vt_insert.prems by simp
  ultimately show ?case
    using inv by (simp add: vtc_insert_def od.entries_store)
next
  case (vt_reset s)
  then show ?case by (simp add: vtc_reset_def od.entries_empty)
qed

lemma vtc_config_Ok: "vtc_config_post_init c = Ok c' \<Longrightarrow> 1 \<le> vc_max_entries c \<and> c' = c"
  by (auto simp: vtc_config_post_init_def split: if_splits)

section \<open>Properties\<close>

text \<open>
  The token cache is transparent and bounded.  In any interleaving of calls
  and resets, \<open>encode\<close> returns the tokens a fresh encoding (and pruning) of the
  given frame would give, or raises what it raises, provided frames with equal
  fingerprints have equal encodings; and at most \<open>max_entries\<close> cameras are kept.
\<close>

theorem vision_cache_transparent:
  assumes "vtc_config_post_init c = Ok c" and "vc_enabled c"
    and "vtc_reach sha256 enc (vtc_init (Some enc) pruner c) s"
    and "\<And>a b. fingerprint sha256 a = fingerprint sha256 b \<Longrightarrow>
           vtc_compute (vtc_init (Some enc) pruner c) enc a = vtc_compute (vtc_init (Some enc) pruner c) enc b"
  shows "(case vtc_compute (vtc_init (Some enc) pruner c) enc img of
            Err e \<Rightarrow> snd (encode sha256 cam img s) = Err e
          | Ok tokens \<Rightarrow> \<exists>reused. snd (encode sha256 cam img s) = Ok (Tokens tokens, reused)) \<and>
         int (length (vt_cache s)) \<le> vc_max_entries c"
proof -
  let ?s0 = "vtc_init (Some enc) pruner c"
  from vtc_config_Ok [OF assms(1)] have mx: "1 \<le> vc_max_entries c" by simp
  note inv = vtc_reach_inv [OF assms(3) refl mx assms(2)]
  then have comp: "vtc_compute s = vtc_compute ?s0"
    by (intro vtc_compute_cong) (simp_all add: vtc_init_def)
  have hit: "vtc_compute ?s0 enc img = Ok tokens"
    if "od_get (vt_cache s) cam = Some (fingerprint sha256 img, tokens)" for tokens
  proof -
    from inv that have "token_source sha256 (vtc_compute ?s0 enc) cam (fingerprint sha256 img, tokens)"
      by (blast intro: od.entries_get)
    then obtain a where "fingerprint sha256 img = fingerprint sha256 a" "vtc_compute ?s0 enc a = Ok tokens"
      by (auto simp: token_source_def)
    with assms(4) [of img a] show ?thesis by simp
  qed
  have "od_ok (Suc (vt_slots c)) (vt_cache s)" using inv by (blast intro: od.entries_ok)
  then have "length (vt_cache s) \<le> Suc (vt_slots c)" by (simp add: od_ok_def)
  with mx have "int (length (vt_cache s)) \<le> vc_max_entries c" by arith
  with inv hit assms(2) show ?thesis
    by (auto simp: encode_def vtc_probe_def comp split: option.splits res.splits)
qed

definition sample_frame :: ndarray where
  "sample_frame = \<lparr>nd_dtype = DU8, nd_shape = [1, 2], nd_data = [7, 9]\<rparr>"

abbreviation sum_encoder :: "ndarray \<Rightarrow> nat res" where
  "sum_encoder img \<equiv> Ok (sum_list (map unat (nd_data img)))"

theorem vision_cache_transparent_witness:
  "\<exists>reused. snd (encode (\<lambda>b. b) ''head'' sample_frame
     (vtc_init (Some sum_encoder) None (default_vtc_config True))) = Ok (Tokens 16, reused)"
proof -
  let ?c = "default_vtc_config True"
  have cfg: "vtc_config_post_init ?c = Ok ?c" by (simp add: vtc_config_post_init_def)
  have same: "fingerprint (\<lambda>b. b) a = fingerprint (\<lambda>b. b) b \<Longrightarrow>
    vtc_compute (vtc_init (Some sum_encoder) None ?c) sum_encoder a =
    vtc_compute (vtc_init (Some sum_encoder) None ?c) sum_encoder b" for a b
    by (simp add: vtc_compute_def fingerprint_def vtc_init_def)
  have "vc_enabled ?c" by simp
  note t = vision_cache_transparent [where c = ?c and ?sha256.0 = "\<lambda>b. b" and enc = sum_encoder
      and pruner = None and img = sample_frame and cam = "''head''", OF cfg this vt_start same]
  have "vtc_compute (vtc_init (Some sum_encoder) None ?c) sum_encoder sample_frame = Ok 16"
    by (simp add: vtc_compute_def vtc_init_def sample_frame_def)
  with t show ?thesis by simp
qed

text \<open>
  Exactly the identical frame is reused.  After a successful native
  \<open>encode\<close> of a frame, the next \<open>encode\<close> of the same camera reuses its tokens if
  and only if the two frames have the same fingerprint; the fingerprint covers
  the bytes only, so a frame of another shape with the same bytes is reused too.
\<close>

theorem vision_cache_reuse:
  assumes "vc_enabled (vt_config s)" and "1 \<le> vc_max_entries (vt_config s)" and "vt_encoder s = Some enc"
    and "encode sha256 cam img s = (s1, Ok (Tokens tokens, False))"
    and "vtc_compute s enc img' = Ok tokens'"
  shows "snd (encode sha256 cam img' s1) =
           (if sha256 (nd_data img') = sha256 (nd_data img) then Ok (Tokens tokens, True)
            else Ok (Tokens tokens', False))"
proof -
  from assms(1,3,4) have s1: "s1 = vtc_insert sha256 cam img tokens s"
    by (auto simp: encode_def vtc_probe_def split: option.splits res.splits if_splits prod.splits)
  then have "od_get (vt_cache s1) cam = Some (fingerprint sha256 img, tokens)"
    using assms(2) by (simp add: vtc_insert_def od_get_store)
  moreover have "vtc_compute s1 = vtc_compute s" "vt_encoder s1 = Some enc" "vt_config s1 = vt_config s"
    using s1 assms(3) by (auto simp: vtc_insert_def intro: vtc_compute_cong)
  ultimately show ?thesis
    using assms(1,5) by (auto simp: encode_def vtc_probe_def fingerprint_def)
qed

theorem vision_cache_reuse_witness:
  "snd (encode (\<lambda>b. b) ''head'' (sample_frame\<lparr>nd_shape := [2, 1]\<rparr>)
     (fst (encode (\<lambda>b. b) ''head'' sample_frame
        (vtc_init (Some sum_encoder) None (default_vtc_config True))))) = Ok (Tokens 16, True)"
proof -
  let ?s = "vtc_init (Some sum_encoder) None (default_vtc_config True)"
  have e: "encode (\<lambda>b. b) ''head'' sample_frame ?s =
      (vtc_insert (\<lambda>b. b) ''head'' sample_frame 16 ?s, Ok (Tokens 16, False))"
    by (simp add: encode_def vtc_probe_def vtc_init_def od_get_def vtc_compute_def sample_frame_def)
  show ?thesis
    using vision_cache_reuse [OF _ _ _ e, of sum_encoder "sample_frame\<lparr>nd_shape := [2, 1]\<rparr>" 16]
    by (simp add: e) (simp add: vtc_init_def vtc_compute_def sample_frame_def)
qed

end
