(* ===== verification/Throttle.thy ===== *)
theory Throttle
  imports Prefix_Cache
begin

text \<open>
  Two plugins that decide, per control step, how much work to do:
  \<open>plugins/perception_throttle.py\<close> (recompute the slow perception or replay the
  cached one) and \<open>plugins/cascade.py\<close> (light or heavy model).  Readings of the
  injected clock are arguments of the operations.
\<close>

section \<open>Perception throttle\<close>

record throttle_config =
  tc_enabled :: bool
  tc_refresh_steps :: int
  tc_refresh_interval_s :: pyfloat

definition throttle_config_post_init :: "throttle_config \<Rightarrow> throttle_config res" where
  "throttle_config_post_init c =
     (if tc_refresh_steps c < 1
      then Err (ValueError ''perception_throttle.refresh_steps must be positive'')
      else if pf_lt (tc_refresh_interval_s c) (Fin 0)
      then Err (ValueError ''perception_throttle.refresh_interval_s must be non-negative'')
      else Ok c)"

abbreviation default_throttle_config :: "bool \<Rightarrow> throttle_config" where
  "default_throttle_config b \<equiv>
     \<lparr>tc_enabled = b, tc_refresh_steps = 5, tc_refresh_interval_s = Fin 0\<rparr>"

definition throttle_config_from_mapping :: "pyval \<Rightarrow> throttle_config res" where
  "throttle_config_from_mapping =
     plugin_config (\<lambda>b. throttle_config_post_init (default_throttle_config b))
       (throttle_config_post_init (default_throttle_config False))
       (\<lambda>d. res_bind (py_int (dget_or d ''refresh_steps'' (PInt 5))) (\<lambda>n.
            res_bind (py_float (dget_or d ''refresh_interval_s'' (PFloat (Fin 0)))) (\<lambda>r.
          throttle_config_post_init
            \<lparr>tc_enabled = py_bool (dget_or d ''enabled'' (PBool True)), tc_refresh_steps = n,
             tc_refresh_interval_s = r\<rparr>)))
       ''perception_throttle must be a boolean or JSON object''"

text \<open>The cached value starts as \<open>None\<close>, and so does a value the function never returned.\<close>

record 'p throttle =
  th_config :: throttle_config
  th_native :: bool
  th_cached :: "'p option"
  th_refreshes :: nat
  th_reuses :: nat
  th_last_refresh_time :: pyfloat
  th_calls :: int

definition throttle_init :: "bool \<Rightarrow> throttle_config \<Rightarrow> 'p throttle" where
  "throttle_init has_fn c =
     \<lparr>th_config = c, th_native = (has_fn \<and> tc_enabled c), th_cached = None, th_refreshes = 0,
      th_reuses = 0, th_last_refresh_time = NInf, th_calls = tc_refresh_steps c\<rparr>"

definition throttle_mode :: "'p throttle \<Rightarrow> string" where
  "throttle_mode s =
     (if th_native s then ''native'' else if tc_enabled (th_config s) then ''fallback'' else ''disabled'')"

definition throttle_due :: "pyfloat \<Rightarrow> 'p throttle \<Rightarrow> bool" where
  "throttle_due now s =
     (if th_refreshes s = 0 then True
      else if tc_refresh_steps (th_config s) \<le> th_calls s then True
      else if pf_lt (Fin 0) (tc_refresh_interval_s (th_config s))
      then pf_le (tc_refresh_interval_s (th_config s)) (pf_sub now (th_last_refresh_time s))
      else False)"

text \<open>
  The first locked section of \<open>get\<close>: decide; \<open>now1\<close> is the clock read by \<open>_due\<close>,
  \<open>now2\<close> the one stored.  \<open>None\<close> means that a refresh has to be computed.
\<close>

definition throttle_decide ::
    "pyfloat \<Rightarrow> pyfloat \<Rightarrow> 'p throttle \<Rightarrow> 'p throttle \<times> 'p option option" where
  "throttle_decide now1 now2 s0 =
     (let s = s0\<lparr>th_calls := th_calls s0 + 1\<rparr>
      in if throttle_due now1 s
         then (s\<lparr>th_calls := 0, th_last_refresh_time := now2, th_refreshes := Suc (th_refreshes s)\<rparr>, None)
         else (s\<lparr>th_reuses := Suc (th_reuses s)\<rparr>, Some (th_cached s)))"

definition throttle_finish :: "'p \<Rightarrow> 'p throttle \<Rightarrow> 'p throttle" where
  "throttle_finish p s = s\<lparr>th_cached := Some p\<rparr>"

definition throttle_get ::
    "('c \<Rightarrow> 'p res) \<Rightarrow> pyfloat \<Rightarrow> pyfloat \<Rightarrow> 'c \<Rightarrow> 'p throttle \<Rightarrow>
     'p throttle \<times> ('p option \<times> bool) res" where
  "throttle_get perception_fn now1 now2 ctxt s =
     (if \<not> tc_enabled (th_config s) \<or> \<not> th_native s then (s, Ok (None, False))
      else case throttle_decide now1 now2 s of
          (s', Some cached) \<Rightarrow> (s', Ok (cached, False))
        | (s', None) \<Rightarrow>
            (case perception_fn ctxt of
               Err e \<Rightarrow> (s', Err e)
             | Ok p \<Rightarrow> (throttle_finish p s', Ok (Some p, True))))"

definition throttle_reset :: "'p throttle \<Rightarrow> 'p throttle" where
  "throttle_reset s =
     s\<lparr>th_cached := None, th_refreshes := 0, th_reuses := 0, th_last_refresh_time := NInf,
       th_calls := tc_refresh_steps (th_config s)\<rparr>"

definition throttle_metadata :: "'p throttle \<Rightarrow> (string \<times> pyval) list" where
  "throttle_metadata s =
     [(''enabled'', PBool (tc_enabled (th_config s))), (''mode'', PStr (throttle_mode s)),
      (''refresh_steps'', PInt (tc_refresh_steps (th_config s))),
      (''refresh_interval_s'', PFloat (tc_refresh_interval_s (th_config s))),
      (''refreshes'', PInt (int (th_refreshes s))), (''reuses'', PInt (int (th_reuses s))),
      (''reuse_rate'', PFloat (Fin (hit_rate (th_reuses s) (th_refreshes s))))]"

section \<open>Cascade\<close>

record cascade_config =
  cc_enabled :: bool
  cc_difficulty_threshold :: pyfloat

definition cascade_config_post_init :: "cascade_config \<Rightarrow> cascade_config res" where
  "cascade_config_post_init c =
     (if \<not> (pf_le (Fin 0) (cc_difficulty_threshold c) \<and> pf_le (cc_difficulty_threshold c) (Fin 1))
      then Err (ValueError ''cascade.difficulty_threshold must be in [0, 1]'')
      else Ok c)"

abbreviation default_cascade_config :: "bool \<Rightarrow> cascade_config" where
  "default_cascade_config b \<equiv> \<lparr>cc_enabled = b, cc_difficulty_threshold = Fin (1 / 2)\<rparr>"

definition cascade_config_from_mapping :: "pyval \<Rightarrow> cascade_config res" where
  "cascade_config_from_mapping =
     plugin_config (\<lambda>b. cascade_config_post_init (default_cascade_config b))
       (cascade_config_post_init (default_cascade_config False))
       (\<lambda>d. res_bind (py_float (dget_or d ''difficulty_threshold'' (PFloat (Fin (1 / 2))))) (\<lambda>t.
          cascade_config_post_init
            \<lparr>cc_enabled = py_bool (dget_or d ''enabled'' (PBool True)), cc_difficulty_threshold = t\<rparr>))
       ''cascade must be a boolean or JSON object''"

datatype route = Light | Heavy

record 'c cascade =
  ca_config :: cascade_config
  ca_scorer :: "('c \<Rightarrow> pyval res) option"
  ca_light :: nat
  ca_heavy :: nat

definition cascade_init :: "('c \<Rightarrow> pyval res) option \<Rightarrow> cascade_config \<Rightarrow> 'c cascade" where
  "cascade_init scorer c =
     \<lparr>ca_config = c, ca_scorer = (if cc_enabled c then scorer else None), ca_light = 0, ca_heavy = 0\<rparr>"

definition cascade_mode :: "'c cascade \<Rightarrow> string" where
  "cascade_mode s =
     (if ca_scorer s \<noteq> None then ''native''
      else if cc_enabled (ca_config s) then ''fallback'' else ''disabled'')"

definition cascade_choice :: "'c cascade \<Rightarrow> 'c \<Rightarrow> route res" where
  "cascade_choice s ctxt =
     (case ca_scorer s of
        None \<Rightarrow> Ok Heavy
      | Some scorer \<Rightarrow>
          res_bind (res_bind (scorer ctxt) py_float) (\<lambda>score.
            if \<not> (pf_le (Fin 0) score \<and> pf_le score (Fin 1))
            then Err (ValueError ''cascade scorer must return [0, 1]'')
            else if pf_lt score (cc_difficulty_threshold (ca_config s)) then Ok Light
            else Ok Heavy))"

definition cascade_route :: "'c \<Rightarrow> 'c cascade \<Rightarrow> 'c cascade \<times> route res" where
  "cascade_route ctxt s =
     (case cascade_choice s ctxt of
        Err e \<Rightarrow> (s, Err e)
      | Ok Light \<Rightarrow> (s\<lparr>ca_light := Suc (ca_light s)\<rparr>, Ok Light)
      | Ok Heavy \<Rightarrow> (s\<lparr>ca_heavy := Suc (ca_heavy s)\<rparr>, Ok Heavy))"

definition cascade_reset :: "'c cascade \<Rightarrow> 'c cascade" where
  "cascade_reset s = s\<lparr>ca_light := 0, ca_heavy := 0\<rparr>"

definition cascade_metadata :: "'c cascade \<Rightarrow> (string \<times> pyval) list" where
  "cascade_metadata s =
     [(''enabled'', PBool (cc_enabled (ca_config s))), (''mode'', PStr (cascade_mode s)),
      (''difficulty_threshold'', PFloat (cc_difficulty_threshold (ca_config s))),
      (''light_routes'', PInt (int (ca_light s))), (''heavy_routes'', PInt (int (ca_heavy s))),
      (''light_rate'', PFloat (Fin (hit_rate (ca_light s) (ca_heavy s))))]"

section \<open>Invariant of the throttle\<close>

text \<open>
  The states of a native throttle, over every interleaving of the locked
  sections of concurrent calls (a refresh may finish late or never, when the
  function raises) and resets.
\<close>

inductive throttle_reach :: "'p throttle \<Rightarrow> 'p throttle \<Rightarrow> bool" for s0 where
  th_start: "throttle_reach s0 s0"
| th_decide: "throttle_reach s0 s \<Longrightarrow> throttle_reach s0 (fst (throttle_decide now1 now2 s))"
| th_finish: "throttle_reach s0 s \<Longrightarrow> throttle_reach s0 (throttle_finish p s)"
| th_reset: "throttle_reach s0 s \<Longrightarrow> throttle_reach s0 (throttle_reset s)"

text \<open>
  Between two refreshes fewer than \<open>refresh_steps\<close> replays happen, so the
  replays so far are bounded by the refreshes.
\<close>

definition throttle_inv :: "throttle_config \<Rightarrow> 'p throttle \<Rightarrow> bool" where
  "throttle_inv c s =
     (th_config s = c \<and>
      (if th_refreshes s = 0 then th_reuses s = 0 \<and> th_calls s = tc_refresh_steps c
       else 0 \<le> th_calls s \<and> th_calls s < tc_refresh_steps c \<and>
            int (th_reuses s) \<le> (tc_refresh_steps c - 1) * (int (th_refreshes s) - 1) + th_calls s))"

lemma throttle_inv_init: "throttle_inv c (throttle_init b c)"
  by (simp add: throttle_inv_def throttle_init_def)

lemma throttle_inv_decide:
  assumes "throttle_inv c s" and "1 \<le> tc_refresh_steps c"
  shows "throttle_inv c (fst (throttle_decide now1 now2 s))"
proof (cases "throttle_due now1 (s\<lparr>th_calls := th_calls s + 1\<rparr>)")
  case True
  let ?k = "tc_refresh_steps c - 1"
  have "int (th_reuses s) \<le> ?k * int (th_refreshes s)"
  proof (cases "th_refreshes s = 0")
    case False
    with assms(1) have "int (th_reuses s) \<le> ?k * (int (th_refreshes s) - 1) + ?k"
      by (auto simp: throttle_inv_def)
    then show ?thesis by (simp add: algebra_simps)
  qed (use assms(1) in \<open>simp add: throttle_inv_def\<close>)
  with True assms show ?thesis
    by (simp add: throttle_decide_def throttle_inv_def Let_def)
next
  case False
  with assms show ?thesis
    by (auto simp: throttle_decide_def throttle_inv_def Let_def throttle_due_def split: if_splits)
qed

lemma throttle_inv_reach:
  assumes "throttle_reach (throttle_init b c) s" and "1 \<le> tc_refresh_steps c"
  shows "throttle_inv c s"
  using assms
proof (induction rule: throttle_reach.induct)
  case (th_reset s)
  then show ?case by (auto simp: throttle_inv_def throttle_reset_def)
qed (simp_all add: throttle_inv_init throttle_inv_decide, simp add: throttle_inv_def throttle_finish_def)

section \<open>Properties\<close>

lemma throttle_config_Ok: "throttle_config_post_init c = Ok c' \<Longrightarrow> 1 \<le> tc_refresh_steps c"
  by (auto simp: throttle_config_post_init_def split: if_splits)



text \<open>
  A failed first refresh is not retried.  When the perception function
  raises on the first call of a native throttle without a refresh interval, the
  refresh has already been counted, and the following calls return
  \<open>(None, False)\<close>, the answer of the fallback mode, until \<open>refresh_steps\<close> calls
  have passed.
\<close>

theorem throttle_failed_refresh:
  assumes "tc_enabled c" and "1 < tc_refresh_steps c" and "tc_refresh_interval_s c = Fin 0"
    and "f x = Err e"
  shows "snd (throttle_get f t1 t2 x (throttle_init True c)) = Err e \<and>
         snd (throttle_get f t3 t4 y (fst (throttle_get f t1 t2 x (throttle_init True c)))) = Ok (None, False)"
  using assms
  by (simp add: throttle_get_def throttle_decide_def throttle_due_def throttle_init_def Let_def)

theorem throttle_failed_refresh_witness:
  "snd (throttle_get (\<lambda>x. if x = 0 then Err (RuntimeError ''camera'') else Ok x) (Fin 1) (Fin 1) (1 :: nat)
     (fst (throttle_get (\<lambda>x. if x = 0 then Err (RuntimeError ''camera'') else Ok x) (Fin 0) (Fin 0) 0
        (throttle_init True (default_throttle_config True))))) = Ok (None, False)"
  using throttle_failed_refresh [of "default_throttle_config True"
      "\<lambda>x. if x = 0 then Err (RuntimeError ''camera'') else Ok x" "0 :: nat" "RuntimeError ''camera''"
      "Fin 0" "Fin 0" "Fin 1" "Fin 1" 1]
  by simp

text \<open>
  Routing.  Without a scorer every step goes to the heavy model; with one, a
  score in [0, 1] goes to the light model exactly when it is below the
  threshold; any other score, NaN included, raises and counts nothing; and each
  routed step increments exactly one of the two counters.
\<close>

theorem cascade_route_spec:
  "(case cascade_route x s of
      (s', Err e) \<Rightarrow> s' = s \<and> ca_scorer s \<noteq> None
    | (s', Ok r) \<Rightarrow>
        ca_light s' + ca_heavy s' = Suc (ca_light s + ca_heavy s) \<and>
        (r = Light) = (ca_light s' = Suc (ca_light s)) \<and>
        (case ca_scorer s of
           None \<Rightarrow> r = Heavy
         | Some f \<Rightarrow> \<exists>v q. f x = Ok v \<and> py_float v = Ok (Fin q) \<and> 0 \<le> q \<and> q \<le> 1 \<and>
                     (r = Light) = pf_lt (Fin q) (cc_difficulty_threshold (ca_config s))))"
proof (cases "ca_scorer s")
  case None
  then show ?thesis by (simp add: cascade_route_def cascade_choice_def)
next
  case (Some f)
  show ?thesis
  proof (cases "res_bind (f x) py_float")
    case (Err e)
    with Some show ?thesis by (simp add: cascade_route_def cascade_choice_def)
  next
    case (Ok score)
    then obtain v where "f x = Ok v" "py_float v = Ok score" by auto
    with Some show ?thesis
      by (cases score) (auto simp: cascade_route_def cascade_choice_def)
  qed
qed

end
