(* ===== verification/Token_Merge.thy ===== *)
theory Token_Merge
  imports Prefix_Cache Tensors
begin

text \<open>
  Redundant-token merging of \<open>plugins/token_merge.py\<close>.  A token is a row of the
  array.  Parameters stand for the numerics of NumPy: the conversion of a row
  to \<open>float32\<close>, the cosine similarity of two rows of the body, the average of two
  rows, and \<open>argsort\<close>.  The choice of the pair (\<open>argmax\<close> over the matrix with its
  diagonal at minus infinity, then \<open>unravel_index\<close>), the deletion and the loop
  are modelled.  The loop is a \<open>partial_function\<close>: \<open>None\<close> means that it never
  ends.
\<close>

record tm_config =
  tm_enabled :: bool
  tm_merge_ratio :: pyfloat
  tm_salient_ratio :: pyfloat

definition tm_config_post_init :: "tm_config \<Rightarrow> tm_config res" where
  "tm_config_post_init c =
     (if \<not> (pf_le (Fin 0) (tm_merge_ratio c) \<and> pf_lt (tm_merge_ratio c) (Fin 1))
      then Err (ValueError ''token_merge.merge_ratio must be in [0, 1)'')
      else if \<not> (pf_le (Fin 0) (tm_salient_ratio c) \<and> pf_le (tm_salient_ratio c) (Fin 1))
      then Err (ValueError ''token_merge.salient_ratio must be in [0, 1]'')
      else Ok c)"

abbreviation default_tm_config :: "bool \<Rightarrow> tm_config" where
  "default_tm_config b \<equiv> \<lparr>tm_enabled = b, tm_merge_ratio = Fin 0, tm_salient_ratio = Fin (1 / 10)\<rparr>"

definition tm_config_from_mapping :: "pyval \<Rightarrow> tm_config res" where
  "tm_config_from_mapping =
     plugin_config (\<lambda>b. tm_config_post_init (default_tm_config b))
       (tm_config_post_init (default_tm_config False))
       (\<lambda>d. res_bind (py_float (dget_or d ''merge_ratio'' (PFloat (Fin 0)))) (\<lambda>m.
            res_bind (py_float (dget_or d ''salient_ratio'' (PFloat (Fin (1 / 10))))) (\<lambda>r.
          tm_config_post_init
            \<lparr>tm_enabled = py_bool (dget_or d ''enabled'' (PBool True)), tm_merge_ratio = m,
             tm_salient_ratio = r\<rparr>)))
       ''token_merge must be a boolean or JSON object''"

section \<open>Choosing a pair\<close>

text \<open>\<open>np.argmax\<close>: the first maximum; the first NaN if there is one.\<close>

fun argmax_from :: "nat \<Rightarrow> pyfloat \<Rightarrow> nat \<Rightarrow> pyfloat list \<Rightarrow> nat" where
  "argmax_from best v i [] = best"
| "argmax_from best v i (x # xs) =
     (if v = NaN then best
      else if x = NaN \<or> pf_lt v x then argmax_from i x (Suc i) xs
      else argmax_from best v (Suc i) xs)"

definition argmax :: "pyfloat list \<Rightarrow> nat" where
  "argmax xs = (case xs of [] \<Rightarrow> 0 | x # ys \<Rightarrow> argmax_from 0 x 1 ys)"

definition similarity_matrix :: "('v \<Rightarrow> 'v \<Rightarrow> pyfloat) \<Rightarrow> 'v list \<Rightarrow> pyfloat list" where
  "similarity_matrix sim body =
     (let n = length body
      in map (\<lambda>k. if k div n = k mod n then NInf else sim (body ! (k div n)) (body ! (k mod n))) [0 ..< n * n])"

definition most_similar :: "('v \<Rightarrow> 'v \<Rightarrow> pyfloat) \<Rightarrow> 'v list \<Rightarrow> nat \<times> nat" where
  "most_similar sim body =
     (let k = argmax (similarity_matrix sim body) in (k div length body, k mod length body))"

text \<open>\<open>np.delete(body, (i, j), axis=0)\<close>\<close>

definition delete_two :: "nat \<Rightarrow> nat \<Rightarrow> 'v list \<Rightarrow> 'v list" where
  "delete_two i j xs = map snd (filter (\<lambda>(k, x). k \<noteq> i \<and> k \<noteq> j) (enumerate 0 xs))"

definition merge_once ::
    "('v \<Rightarrow> 'v \<Rightarrow> pyfloat) \<Rightarrow> ('v \<Rightarrow> 'v \<Rightarrow> 'v) \<Rightarrow> nat \<Rightarrow> 'v list \<Rightarrow> 'v list" where
  "merge_once sim avg protected merged =
     (let body = drop protected merged;
          (i, j) = most_similar sim body
      in take protected merged @ delete_two i j body @ [avg (body ! i) (body ! j)])"

partial_function (option) merge_loop ::
    "('v \<Rightarrow> 'v \<Rightarrow> pyfloat) \<Rightarrow> ('v \<Rightarrow> 'v \<Rightarrow> 'v) \<Rightarrow> nat \<Rightarrow> nat \<Rightarrow> 'v list \<Rightarrow> 'v list option" where
  "merge_loop sim avg keep protected merged =
     (if max keep protected < length merged
      then merge_loop sim avg keep protected (merge_once sim avg protected merged)
      else Some merged)"

definition cosine_merge ::
    "('v \<Rightarrow> 'v) \<Rightarrow> ('v \<Rightarrow> 'v \<Rightarrow> pyfloat) \<Rightarrow> ('v \<Rightarrow> 'v \<Rightarrow> 'v) \<Rightarrow> nat \<Rightarrow> nat \<Rightarrow> 'v list \<Rightarrow> 'v list option" where
  "cosine_merge to_f32 sim avg keep protected tokens = merge_loop sim avg keep protected (map to_f32 tokens)"

section \<open>Plugin\<close>

definition tm_keep :: "tm_config \<Rightarrow> nat \<Rightarrow> nat" where
  "tm_keep c count = nat (max 1 \<lceil>real count * (1 - pf_real (tm_merge_ratio c))\<rceil>)"

definition tm_protected :: "tm_config \<Rightarrow> nat \<Rightarrow> nat" where
  "tm_protected c count =
     nat (min (int count) (round_half_even (real count * pf_real (tm_salient_ratio c))))"

text \<open>A token stream is an array of rank two or anything else, which passes through.\<close>

datatype ('v, 'x) stream = Rows "'v list" | Opaque 'x

record 'v tm =
  tms_config :: tm_config
  tms_merger :: "('v list \<Rightarrow> nat \<Rightarrow> nat \<Rightarrow> 'v list res) option"
  tms_in :: nat
  tms_out :: nat

definition tm_init :: "('v list \<Rightarrow> nat \<Rightarrow> nat \<Rightarrow> 'v list res) option \<Rightarrow> tm_config \<Rightarrow> 'v tm" where
  "tm_init merger c =
     \<lparr>tms_config = c, tms_merger = (if tm_enabled c then merger else None), tms_in = 0, tms_out = 0\<rparr>"

text \<open>\<open>array[order]\<close>: an index past the end raises.\<close>

definition reorder :: "nat list \<Rightarrow> 'v list \<Rightarrow> 'v list res" where
  "reorder order rows =
     mapM (\<lambda>k. if k < length rows then Ok (rows ! k) else Err (IndexError ''index is out of bounds'')) order"

definition salient_rows ::
    "(f32 list \<Rightarrow> nat list) \<Rightarrow> f32 list option \<Rightarrow> nat \<Rightarrow> 'v list \<Rightarrow> 'v list res" where
  "salient_rows argsort saliency protected rows =
     (case saliency of
        Some sal \<Rightarrow> (if 0 < protected then reorder (rev (argsort sal)) rows else Ok rows)
      | None \<Rightarrow> Ok rows)"

definition compress ::
    "('v \<Rightarrow> 'v) \<Rightarrow> ('v \<Rightarrow> 'v \<Rightarrow> pyfloat) \<Rightarrow> ('v \<Rightarrow> 'v \<Rightarrow> 'v) \<Rightarrow> (f32 list \<Rightarrow> nat list) \<Rightarrow>
     ('v, 'x) stream \<Rightarrow> f32 list option \<Rightarrow> 'v tm \<Rightarrow> ('v tm \<times> ('v, 'x) stream res) option" where
  "compress to_f32 sim avg argsort tokens saliency s =
     (case tokens of
        Opaque x \<Rightarrow> Some (s, Ok tokens)
      | Rows rows \<Rightarrow>
          (if \<not> tm_enabled (tms_config s) \<or> pf_le (tm_merge_ratio (tms_config s)) (Fin 0)
           then Some (s, Ok tokens)
           else
             (let count = length rows;
                  keep = tm_keep (tms_config s) count;
                  protected = tm_protected (tms_config s) count
              in case salient_rows argsort saliency protected rows of
                   Err e \<Rightarrow> Some (s, Err e)
                 | Ok array \<Rightarrow>
                     (case (case tms_merger s of
                              Some merger \<Rightarrow> Some (merger array keep protected)
                            | None \<Rightarrow> map_option Ok (cosine_merge to_f32 sim avg keep protected array)) of
                        None \<Rightarrow> None
                      | Some (Err e) \<Rightarrow> Some (s, Err e)
                      | Some (Ok merged) \<Rightarrow>
                          Some (s\<lparr>tms_in := tms_in s + count, tms_out := tms_out s + length merged\<rparr>,
                                Ok (Rows merged))))))"

definition tm_reset :: "'v tm \<Rightarrow> 'v tm" where
  "tm_reset s = s\<lparr>tms_in := 0, tms_out := 0\<rparr>"

definition tm_metadata :: "'v tm \<Rightarrow> (string \<times> pyval) list" where
  "tm_metadata s =
     [(''enabled'', PBool (tm_enabled (tms_config s))),
      (''mode'', PStr (if tm_enabled (tms_config s) then ''native'' else ''disabled'')),
      (''merge_ratio'', PFloat (tm_merge_ratio (tms_config s))),
      (''salient_ratio'', PFloat (tm_salient_ratio (tms_config s))),
      (''native_merger'', PBool (tms_merger s \<noteq> None)),
      (''tokens_in'', PInt (int (tms_in s))), (''tokens_out'', PInt (int (tms_out s))),
      (''compression'', PFloat (Fin (if tms_in s = 0 then 1 else real (tms_out s) / real (tms_in s))))]"

section \<open>The chosen pair\<close>

text \<open>A cosine similarity is a number or NaN, never minus infinity.\<close>

definition proper_sim :: "('v \<Rightarrow> 'v \<Rightarrow> pyfloat) \<Rightarrow> bool" where
  "proper_sim sim = (\<forall>a b. sim a b \<noteq> NInf)"

text \<open>\<open>argmax\<close> never stops at a minus infinity when something larger is in the list.\<close>

lemma argmax_from_better:
  assumes "v = xs0 ! best" and "best < length xs0" and "i = length xs0"
    and "xs0 ! best \<noteq> NInf \<or> (\<exists>x \<in> set xs. x \<noteq> NInf)"
  shows "argmax_from best v i xs < length (xs0 @ xs) \<and> (xs0 @ xs) ! argmax_from best v i xs \<noteq> NInf"
  using assms
proof (induction best v i xs arbitrary: xs0 rule: argmax_from.induct)
  case (1 best v i)
  then show ?case by simp
next
  case (2 best v i x xs)
  show ?case
  proof (cases "v = NaN")
    case True
    with 2(3,4) show ?thesis by (simp add: nth_append)
  next
    case nan: False
    show ?thesis
    proof (cases "x = NaN \<or> pf_lt v x")
      case True
      then have "x \<noteq> NInf" by (cases v) auto
      with True nan 2(1) [OF nan True, of "xs0 @ [x]"] 2(5) show ?thesis by (simp add: nth_append)
    next
      case False
      have "xs0 ! best \<noteq> NInf \<or> (\<exists>y \<in> set xs. y \<noteq> NInf)"
      proof (cases "xs0 ! best = NInf")
        case True
        with False 2(3) have "x = NInf" by (cases x) auto
        with True 2(6) show ?thesis by auto
      qed simp
      with False nan 2(2) [OF nan False, of "xs0 @ [x]"] 2(3-5) show ?thesis by (simp add: nth_append)
    qed
  qed
qed

lemma argmax_better: "x \<in> set xs \<Longrightarrow> x \<noteq> NInf \<Longrightarrow> argmax xs < length xs \<and> xs ! argmax xs \<noteq> NInf"
proof (cases xs)
  case (Cons y ys)
  assume "x \<in> set xs" "x \<noteq> NInf"
  with Cons have "[y] ! 0 \<noteq> NInf \<or> (\<exists>x \<in> set ys. x \<noteq> NInf)" by auto
  from argmax_from_better [OF refl _ _ this, of 1] Cons show ?thesis by (simp add: argmax_def)
qed simp

lemma similarity_nth:
  "k < length body * length body \<Longrightarrow> similarity_matrix sim body ! k =
     (if k div length body = k mod length body then NInf
      else sim (body ! (k div length body)) (body ! (k mod length body)))"
  by (simp add: similarity_matrix_def Let_def)

lemma most_similar_pair:
  assumes "2 \<le> length body" and "proper_sim sim"
  shows "\<exists>i j. most_similar sim body = (i, j) \<and> i \<noteq> j \<and> i < length body \<and> j < length body"
proof -
  let ?n = "length body" and ?m = "similarity_matrix sim body"
  have len: "length ?m = ?n * ?n" by (simp add: similarity_matrix_def Let_def)
  have one: "1 < ?n * ?n" using assms(1) by (metis Suc_1 Suc_le_lessD less_1_mult)
  have "?m ! 1 \<noteq> NInf"
    using assms one similarity_nth [OF one, of sim] by (simp add: proper_sim_def)
  with one len have "argmax ?m < length ?m \<and> ?m ! argmax ?m \<noteq> NInf"
    by (intro argmax_better [of "?m ! 1"]) simp_all
  with len have "argmax ?m < ?n * ?n" "argmax ?m div ?n \<noteq> argmax ?m mod ?n"
    using similarity_nth [of "argmax ?m" body sim] by (auto split: if_splits)
  then show ?thesis
    using assms(1) by (auto simp: most_similar_def Let_def less_mult_imp_div_less intro!: mod_less_divisor)
qed

lemma most_similar_single: "most_similar sim [b] = (0, 0)"
  by (simp add: most_similar_def similarity_matrix_def argmax_def Let_def)

lemma delete_two_length:
  "i < length xs \<Longrightarrow> j < length xs \<Longrightarrow> length (delete_two i j xs) = length xs - card {i, j}"
proof -
  assume ij: "i < length xs" "j < length xs"
  have "length (delete_two i j xs) = card {k. k < length xs \<and> k \<noteq> i \<and> k \<noteq> j}"
    unfolding delete_two_def length_map length_filter_conv_card
    by (rule arg_cong [where f = card]) (auto simp: nth_enumerate_eq)
  also have "{k. k < length xs \<and> k \<noteq> i \<and> k \<noteq> j} = {..< length xs} - {i, j}" by auto
  also have "card \<dots> = length xs - card {i, j}" using ij by (subst card_Diff_subset) auto
  finally show ?thesis .
qed

text \<open>One iteration keeps the protected rows and shortens the body by one, if it has two rows.\<close>

lemma merge_once_shrinks:
  assumes "Suc (Suc protected) \<le> length merged" and "proper_sim sim"
  shows "length (merge_once sim avg protected merged) = length merged - 1"
    and "take protected (merge_once sim avg protected merged) = take protected merged"
proof -
  let ?b = "drop protected merged"
  have "2 \<le> length ?b" using assms(1) by simp
  from most_similar_pair [OF this assms(2)] obtain i j where
    ij: "most_similar sim ?b = (i, j)" "i \<noteq> j" "i < length ?b" "j < length ?b" by blast
  then have "length (delete_two i j ?b) = length ?b - 2" by (simp add: delete_two_length)
  with ij assms(1) show "length (merge_once sim avg protected merged) = length merged - 1"
    by (simp add: merge_once_def Let_def)
  from ij assms(1) show "take protected (merge_once sim avg protected merged) = take protected merged"
    by (simp add: merge_once_def Let_def)
qed

lemma merge_loop_terminates:
  assumes "protected < keep \<or> length merged \<le> protected" and "proper_sim sim"
  shows "\<exists>out. merge_loop sim avg keep protected merged = Some out \<and>
           length out = (if length merged \<le> max keep protected then length merged else keep) \<and>
           take protected out = take protected merged"
  using assms(1)
proof (induction "length merged" arbitrary: merged rule: less_induct)
  case less
  show ?case
  proof (cases "max keep protected < length merged")
    case False
    then show ?thesis by (subst merge_loop.simps) auto
  next
    case True
    with less.prems have "protected < keep" by auto
    with True have two: "Suc (Suc protected) \<le> length merged" by simp
    note sh = merge_once_shrinks [OF two assms(2), of avg]
    have lt: "length (merge_once sim avg protected merged) < length merged" using sh(1) two by linarith
    from less.hyps [OF lt] \<open>protected < keep\<close> obtain out where
      "merge_loop sim avg keep protected (merge_once sim avg protected merged) = Some out"
      "length out = (if length merged - 1 \<le> max keep protected then length merged - 1 else keep)"
      "take protected out = take protected merged"
      using sh by auto
    with True \<open>protected < keep\<close> show ?thesis
      by (subst merge_loop.simps) (auto split: if_splits)
  qed
qed

text \<open>With a body of one row the length does not change: the loop never ends.\<close>

lemma merge_once_stuck:
  assumes "length merged = Suc protected"
  shows "length (merge_once sim avg protected merged) = Suc protected"
proof -
  from assms have "length (drop protected merged) = 1" by simp
  then obtain b where b: "drop protected merged = [b]" by (cases "drop protected merged") auto
  have "length (delete_two 0 0 [b]) = 0" by (simp add: delete_two_length)
  with b assms show ?thesis by (simp add: merge_once_def most_similar_single)
qed

lemma merge_loop_diverges:
  assumes "keep \<le> protected" and "protected < length merged" and "proper_sim sim"
  shows "merge_loop sim avg keep protected merged = None"
proof -
  let ?bad = "\<lambda>(sim :: 'a \<Rightarrow> 'a \<Rightarrow> pyfloat) keep protected (merged :: 'a list).
    keep \<le> protected \<and> protected < length merged \<and> proper_sim sim"
  have "\<not> ?bad sim keep protected merged" if "merge_loop sim avg keep protected merged = Some out" for out
  proof (rule merge_loop.raw_induct
      [of "\<lambda>sim avg keep protected merged out. \<not> ?bad sim keep protected merged", OF _ that])
    fix loop :: "('a \<Rightarrow> 'a \<Rightarrow> pyfloat) \<Rightarrow> ('a \<Rightarrow> 'a \<Rightarrow> 'a) \<Rightarrow> nat \<Rightarrow> nat \<Rightarrow> 'a list \<Rightarrow> 'a list option"
      and sim :: "'a \<Rightarrow> 'a \<Rightarrow> pyfloat" and avg keep protected merged out
    assume ih: "\<And>sim avg keep protected merged out.
        loop sim avg keep protected merged = Some out \<Longrightarrow> \<not> ?bad sim keep protected merged"
      and body: "(if max keep protected < length merged
        then loop sim avg keep protected (merge_once sim avg protected merged) else Some merged) = Some out"
    show "\<not> ?bad sim keep protected merged"
    proof
      assume bad: "?bad sim keep protected merged"
      then have "\<not> ?bad sim keep protected (merge_once sim avg protected merged)"
        using body ih [of sim avg keep protected "merge_once sim avg protected merged" out]
        by (simp split: if_splits)
      moreover have "protected < length (merge_once sim avg protected merged)"
        using bad merge_once_stuck [of merged protected sim avg]
          merge_once_shrinks(1) [of protected merged sim avg]
        by (cases "length merged = Suc protected") auto
      ultimately show False using bad by blast
    qed
  qed
  with assms show ?thesis by (cases "merge_loop sim avg keep protected merged") auto
qed

section \<open>Properties\<close>


definition four_rows :: "nat list" where
  "four_rows = [10, 20, 30, 40]"

lemma four_rows_length [simp]: "length four_rows = 4"
  by (simp add: four_rows_def)

definition half_tm :: "nat tm" where
  "half_tm = tm_init None \<lparr>tm_enabled = True, tm_merge_ratio = Fin (1 / 2), tm_salient_ratio = Fin (1 / 4)\<rparr>"

lemma half_tm_counts: "tm_keep (tms_config half_tm) 4 = 2" "tm_protected (tms_config half_tm) 4 = 1"
  by (simp_all add: half_tm_def tm_init_def tm_keep_def tm_protected_def round_half_even_def)

lemma half_tm_fields: "tm_enabled (tms_config half_tm)" "tm_merge_ratio (tms_config half_tm) = Fin (1 / 2)"
    "tms_merger half_tm = None" "tms_in half_tm = 0" "tms_out half_tm = 0"
  by (simp_all add: half_tm_def tm_init_def)

lemma constant_sim: "proper_sim (\<lambda>(a :: nat) (b :: nat). Fin 1)"
  by (simp add: proper_sim_def)


text \<open>
  Where it hangs.  When at least as many tokens are protected as kept, and
  not all of them, the built-in merger loops forever: a body of one token is
  merged with itself and keeps its length.
\<close>

theorem token_merge_hangs:
  assumes "tm_enabled (tms_config s)" and "pf_lt (Fin 0) (tm_merge_ratio (tms_config s))"
    and "tms_merger s = None" and "proper_sim sim"
    and "tm_keep (tms_config s) (length rows) \<le> tm_protected (tms_config s) (length rows)"
    and "tm_protected (tms_config s) (length rows) < length rows"
  shows "compress to_f32 sim avg argsort (Rows rows) None s = None"
proof -
  have "\<not> pf_le (tm_merge_ratio (tms_config s)) (Fin 0)"
    using assms(2) by (cases "tm_merge_ratio (tms_config s)") auto
  moreover have "merge_loop sim avg (tm_keep (tms_config s) (length rows))
      (tm_protected (tms_config s) (length rows)) (map to_f32 rows) = None"
    using assms by (intro merge_loop_diverges) simp_all
  ultimately show ?thesis
    using assms(1,3) by (simp add: compress_def Let_def cosine_merge_def salient_rows_def)
qed

definition hanging_tm :: "nat tm" where
  "hanging_tm = tm_init None \<lparr>tm_enabled = True, tm_merge_ratio = Fin (3 / 4), tm_salient_ratio = Fin (1 / 2)\<rparr>"

lemma hanging_tm_fields: "tm_enabled (tms_config hanging_tm)" "tms_merger hanging_tm = None"
    "tm_merge_ratio (tms_config hanging_tm) = Fin (3 / 4)" "tm_salient_ratio (tms_config hanging_tm) = Fin (1 / 2)"
  by (simp_all add: hanging_tm_def tm_init_def)

theorem token_merge_hangs_witness:
  "tm_config_post_init (tms_config hanging_tm) = Ok (tms_config hanging_tm) \<and>
   compress id (\<lambda>a b. Fin 1) (\<lambda>a b. (a + b) div 2) (\<lambda>s. []) (Rows four_rows :: (nat, unit) stream)
     None hanging_tm = None"
proof -
  have "tm_keep (tms_config hanging_tm) 4 = 1" "tm_protected (tms_config hanging_tm) 4 = 2"
    by (simp_all add: hanging_tm_fields tm_keep_def tm_protected_def round_half_even_def)
  then show ?thesis
    using token_merge_hangs [of hanging_tm "\<lambda>a b. Fin 1" four_rows id "\<lambda>a b. (a + b) div 2" "\<lambda>s. []"]
      hanging_tm_fields constant_sim
    by (simp add: tm_config_post_init_def)
qed

end
