(* ===== verification/Registry.thy ===== *)
theory Registry
  imports Robots "HOL-Library.Char_ord" "HOL-Library.List_Lexorder"
begin

text \<open>
  The two lazy registries, \<open>models/registry.py\<close> and \<open>robots/registry.py\<close>.  Both
  keep a dictionary from names to targets and a flag for the entry points; they
  differ in what a target may be and in what \<open>resolve\<close> accepts.  Importing a
  module (\<open>importlib.import_module\<close> with \<open>getattr\<close>) is the parameter \<open>load\<close>, the
  installed entry points are the parameter \<open>eps\<close>: names with the outcome of
  \<open>item.load()\<close>.
\<close>

section \<open>Names and targets\<close>

text \<open>The pattern \<open>[a-z0-9][a-z0-9._-]*\<close> with \<open>fullmatch\<close>.\<close>

definition name_start :: "char \<Rightarrow> bool" where
  "name_start c =
     (let n = of_char c :: nat in 97 \<le> n \<and> n \<le> 122 \<or> 48 \<le> n \<and> n \<le> 57)"

definition name_char :: "char \<Rightarrow> bool" where
  "name_char c = (name_start c \<or> c = CHR ''.'' \<or> c = CHR ''_'' \<or> c = CHR ''-'')"

definition valid_name :: "string \<Rightarrow> bool" where
  "valid_name n = (case n of [] \<Rightarrow> False | c # cs \<Rightarrow> name_start c \<and> list_all name_char cs)"

text \<open>\<open>target.split(":", 1)\<close> of a string with a colon.\<close>

definition split_colon :: "string \<Rightarrow> string \<times> string" where
  "split_colon s = (takeWhile (\<lambda>c. c \<noteq> CHR '':'') s, tl (dropWhile (\<lambda>c. c \<noteq> CHR '':'') s))"

record 'o registry =
  rg_targets :: "(string \<times> 'o) list"
  rg_loaded :: bool

definition empty_registry :: "'o registry" where
  "empty_registry = \<lparr>rg_targets = [], rg_loaded = False\<rparr>"

text \<open>\<open>self._targets[name] = target\<close> keeps the place of an existing name.\<close>

fun target_put :: "string \<Rightarrow> 'o \<Rightarrow> (string \<times> 'o) list \<Rightarrow> (string \<times> 'o) list" where
  "target_put n t [] = [(n, t)]"
| "target_put n t ((m, u) # ts) = (if m = n then (n, t) # ts else (m, u) # target_put n t ts)"

definition registry_register ::
    "('o \<Rightarrow> bool) \<Rightarrow> string \<Rightarrow> 'o \<Rightarrow> bool \<Rightarrow> 'o registry \<Rightarrow> 'o registry res" where
  "registry_register acceptable name target replace s =
     (if \<not> valid_name name then Err (ValueError ''invalid registry name'')
      else if \<not> acceptable target then Err (ValueError ''target must use module:callable syntax'')
      else if map_of (rg_targets s) name \<noteq> None \<and> \<not> replace
      then Err (ValueError ''name is already registered'')
      else Ok (s\<lparr>rg_targets := target_put name target (rg_targets s)\<rparr>))"

text \<open>
  \<open>load_entry_points\<close>: the flag is set first; an entry that fails to load or to
  register raises and leaves the later ones unregistered.
\<close>

fun register_all ::
    "('o \<Rightarrow> bool) \<Rightarrow> (string \<times> 'o res) list \<Rightarrow> 'o registry \<Rightarrow> 'o registry \<times> unit res" where
  "register_all acceptable [] s = (s, Ok ())"
| "register_all acceptable ((n, r) # eps) s =
     (case r of
        Err e \<Rightarrow> (s, Err e)
      | Ok t \<Rightarrow> (case registry_register acceptable n t False s of
                  Err e \<Rightarrow> (s, Err e)
                | Ok s' \<Rightarrow> register_all acceptable eps s'))"

definition load_entry_points ::
    "('o \<Rightarrow> bool) \<Rightarrow> (string \<times> 'o res) list \<Rightarrow> 'o registry \<Rightarrow> 'o registry \<times> unit res" where
  "load_entry_points acceptable eps s =
     (if rg_loaded s then (s, Ok ()) else register_all acceptable eps (s\<lparr>rg_loaded := True\<rparr>))"

definition registry_names ::
    "('o \<Rightarrow> bool) \<Rightarrow> (string \<times> 'o res) list \<Rightarrow> 'o registry \<Rightarrow> 'o registry \<times> string list res" where
  "registry_names acceptable eps s =
     (case load_entry_points acceptable eps s of
        (s', Err e) \<Rightarrow> (s', Err e)
      | (s', Ok _) \<Rightarrow> (s', Ok (sort (map fst (rg_targets s')))))"

section \<open>Model registry\<close>

datatype 'f model_target = MFactory 'f | MLazy string

text \<open>What an imported attribute may be.\<close>

datatype 'f imported = Callable 'f | NotCallable

fun model_target_ok :: "'f model_target \<Rightarrow> bool" where
  "model_target_ok (MFactory f) = True"
| "model_target_ok (MLazy s) = (CHR '':'' \<in> set s)"

definition model_resolve ::
    "(string \<Rightarrow> string \<Rightarrow> 'f imported res) \<Rightarrow> (string \<times> 'f model_target res) list \<Rightarrow> string \<Rightarrow>
     'f model_target registry \<Rightarrow> 'f model_target registry \<times> 'f res" where
  "model_resolve load eps name s0 =
     (case load_entry_points model_target_ok eps s0 of
        (s, Err e) \<Rightarrow> (s, Err e)
      | (s, Ok _) \<Rightarrow>
          (case map_of (rg_targets s) name of
             None \<Rightarrow> (s, Err (KeyError ''unknown model''))
           | Some (MFactory f) \<Rightarrow> (s, Ok f)
           | Some (MLazy target) \<Rightarrow>
               (case split_colon target of (module_name, attribute) \<Rightarrow>
                  (case load module_name attribute of
                     Err e \<Rightarrow> (s, Err e)
                   | Ok NotCallable \<Rightarrow> (s, Err (TypeError ''model factory is not callable''))
                   | Ok (Callable f) \<Rightarrow>
                       (s\<lparr>rg_targets := target_put name (MFactory f) (rg_targets s)\<rparr>, Ok f)))))"

text \<open>\<open>create\<close>: a factory maps a configuration to an object, which must be a \<open>ModelBackend\<close>.\<close>

definition model_create ::
    "(string \<Rightarrow> string \<Rightarrow> ('c \<Rightarrow> 'b res) imported res) \<Rightarrow> (string \<times> ('c \<Rightarrow> 'b res) model_target res) list \<Rightarrow>
     ('b \<Rightarrow> bool) \<Rightarrow> string \<Rightarrow> 'c \<Rightarrow> ('c \<Rightarrow> 'b res) model_target registry \<Rightarrow>
     ('c \<Rightarrow> 'b res) model_target registry \<times> 'b res" where
  "model_create load eps is_backend name config s =
     (case model_resolve load eps name s of
        (s', Err e) \<Rightarrow> (s', Err e)
      | (s', Ok f) \<Rightarrow>
          (s', res_bind (f config) (\<lambda>b.
             if is_backend b then Ok b
             else Err (TypeError ''model factory returned an invalid backend''))))"

definition builtin_models :: "(string \<times> string) list" where
  "builtin_models =
     [(''mock'', ''embodied_infer_deploy.models.mock.backend:create_backend''),
      (''turbovla-tensorrt'', ''embodied_infer_deploy.models.turbovla.tensorrt:create_backend''),
      (''pi05-remote'', ''embodied_infer_deploy.models.pi05.remote:create_backend''),
      (''pi05-cpp'', ''embodied_infer_deploy.models.pi05.cpp:create_backend''),
      (''pi05-hbm'', ''embodied_infer_deploy.models.pi05.hbm:create_backend''),
      (''pi05-tcp'', ''embodied_infer_deploy.models.pi05.tcp:create_backend''),
      (''turbovla-s600-hbm'', ''embodied_infer_deploy.models.turbovla.s600_hbm:create_backend''),
      (''turbovla-s600-remote'', ''embodied_infer_deploy.models.turbovla.s600_remote:create_backend''),
      (''turbovla-s100-remote'', ''embodied_infer_deploy.models.turbovla.s100_remote:create_backend'')]"

definition model_registry :: "'f model_target registry \<times> unit res" where
  "model_registry =
     register_all model_target_ok (map (\<lambda>(n, t). (n, Ok (MLazy t))) builtin_models) empty_registry"

section \<open>Robot registry\<close>

text \<open>A callable is given by the outcome of calling it without arguments.\<close>

datatype robot_object =
    RContract robot_contract
  | RCallable "robot_object res"
  | RString string
  | ROther

fun robot_target_ok :: "robot_object \<Rightarrow> bool" where
  "robot_target_ok (RContract c) = True"
| "robot_target_ok (RCallable r) = True"
| "robot_target_ok (RString s) = (CHR '':'' \<in> set s)"
| "robot_target_ok ROther = False"

definition robot_register_config ::
    "string \<Rightarrow> pyval \<Rightarrow> bool \<Rightarrow> robot_object registry \<Rightarrow> robot_object registry \<times> robot_contract res" where
  "robot_register_config name config replace s =
     (case contract_from_mapping config of
        Err e \<Rightarrow> (s, Err e)
      | Ok c \<Rightarrow> (case registry_register robot_target_ok name (RContract c) replace s of
                  Err e \<Rightarrow> (s, Err e)
                | Ok s' \<Rightarrow> (s', Ok c)))"

fun call_object :: "robot_object \<Rightarrow> robot_object res" where
  "call_object (RCallable r) = r"
| "call_object t = Ok t"

definition robot_resolve ::
    "(string \<Rightarrow> string \<Rightarrow> robot_object res) \<Rightarrow> (string \<times> robot_object res) list \<Rightarrow> string \<Rightarrow>
     robot_object registry \<Rightarrow> robot_object registry \<times> robot_contract res" where
  "robot_resolve load eps name s0 =
     (case load_entry_points robot_target_ok eps s0 of
        (s, Err e) \<Rightarrow> (s, Err e)
      | (s, Ok _) \<Rightarrow>
          (case map_of (rg_targets s) name of
             None \<Rightarrow> (s, Err (KeyError ''unknown robot''))
           | Some (RContract c) \<Rightarrow> (s, Ok c)
           | Some t \<Rightarrow>
               (case res_bind (case t of RString n \<Rightarrow> (case split_colon n of (m, a) \<Rightarrow> load m a) | _ \<Rightarrow> Ok t)
                       call_object of
                  Err e \<Rightarrow> (s, Err e)
                | Ok (RContract c) \<Rightarrow>
                    (s\<lparr>rg_targets := target_put name (RContract c) (rg_targets s)\<rparr>, Ok c)
                | Ok _ \<Rightarrow> (s, Err (TypeError ''robot factory returned an invalid contract'')))))"

definition robot_registry :: "robot_object registry res" where
  "robot_registry =
     registry_register robot_target_ok ''dazz-s600'' (RContract DAZZ_S600_CONTRACT) False empty_registry"

definition get_robot_contract ::
    "(string \<Rightarrow> string \<Rightarrow> robot_object res) \<Rightarrow> (string \<times> robot_object res) list \<Rightarrow> string \<Rightarrow>
     robot_object registry \<Rightarrow> robot_object registry \<times> robot_contract res" where
  "get_robot_contract load eps name s = robot_resolve load eps name s"

section \<open>Lemmas\<close>

lemma map_of_target_put: "map_of (target_put n t ts) m = (if m = n then Some t else map_of ts m)"
  by (induction n t ts rule: target_put.induct) auto

lemma target_put_keys:
  "map fst (target_put n t ts) = (if map_of ts n = None then map fst ts @ [n] else map fst ts)"
  by (induction n t ts rule: target_put.induct) auto

definition registry_ok :: "('o \<Rightarrow> bool) \<Rightarrow> 'o registry \<Rightarrow> bool" where
  "registry_ok acceptable s =
     (distinct (map fst (rg_targets s)) \<and>
      (\<forall>(n, t) \<in> set (rg_targets s). valid_name n \<and> acceptable t))"

lemma target_put_set: "e \<in> set (target_put n t ts) \<Longrightarrow> e = (n, t) \<or> e \<in> set ts"
  by (induction n t ts rule: target_put.induct) (auto split: if_splits)

lemma target_put_ok:
  assumes "registry_ok acceptable s" and "valid_name n" and "acceptable t"
  shows "registry_ok acceptable (s\<lparr>rg_targets := target_put n t (rg_targets s)\<rparr>)"
  using assms by (auto simp: registry_ok_def target_put_keys map_of_eq_None_iff dest!: target_put_set)

lemma register_ok:
  "registry_register acceptable n t b s = Ok s' \<Longrightarrow> registry_ok acceptable s \<Longrightarrow> registry_ok acceptable s'"
  by (auto simp: registry_register_def intro: target_put_ok split: if_splits)

lemma register_all_ok: "registry_ok acceptable s \<Longrightarrow> registry_ok acceptable (fst (register_all acceptable eps s))"
  by (induction acceptable eps s rule: register_all.induct)
    (auto split: res.splits dest: register_ok)

lemma load_entry_points_ok:
  "registry_ok acceptable s \<Longrightarrow> registry_ok acceptable (fst (load_entry_points acceptable eps s))"
  unfolding load_entry_points_def
  using register_all_ok [of acceptable "s\<lparr>rg_loaded := True\<rparr>" eps] by (simp add: registry_ok_def)

lemma register_loaded: "registry_register acceptable n t b s = Ok s' \<Longrightarrow> rg_loaded s' = rg_loaded s"
  by (auto simp: registry_register_def split: if_splits)

lemma register_all_loaded: "rg_loaded (fst (register_all acceptable eps s)) = rg_loaded s"
  by (induction acceptable eps s rule: register_all.induct)
    (auto split: res.splits dest: register_loaded)

lemma load_entry_points_loaded: "rg_loaded (fst (load_entry_points acceptable eps s))"
  by (simp add: load_entry_points_def register_all_loaded)

section \<open>Resolution is stable\<close>

text \<open>
  The contract of a lazy registry towards the code that asks it for objects:
  an answer is repeated, without consulting the environment (the import
  machinery and the entry points, \<open>'l\<close>), whatever is resolved in between.
\<close>

fun resolve_each :: "('l \<Rightarrow> string \<Rightarrow> 's \<Rightarrow> 's \<times> 'v res) \<Rightarrow> ('l \<times> string) list \<Rightarrow> 's \<Rightarrow> 's" where
  "resolve_each resolve [] s = s"
| "resolve_each resolve ((l, m) # qs) s = resolve_each resolve qs (fst (resolve l m s))"

locale lazy_resolver =
  fixes resolve :: "'l \<Rightarrow> string \<Rightarrow> 's \<Rightarrow> 's \<times> 'v res"
  assumes settled: "resolve l n s = (s', Ok v) \<Longrightarrow> resolve l' n s' = (s', Ok v)"
    and persistent: "(\<And>l. resolve l n s = (s, Ok v)) \<Longrightarrow>
      resolve l n (fst (resolve l' m s)) = (fst (resolve l' m s), Ok v)"
begin

lemma resolve_each_keeps:
  "(\<And>l. resolve l n s = (s, Ok v)) \<Longrightarrow> resolve l n (resolve_each resolve qs s) = (resolve_each resolve qs s, Ok v)"
proof (induction qs arbitrary: s l)
  case (Cons q qs)
  obtain l' m where q: "q = (l', m)" by (cases q)
  from Cons.prems have "\<And>l. resolve l n (fst (resolve l' m s)) = (fst (resolve l' m s), Ok v)"
    by (rule persistent)
  with Cons.IH q show ?case by simp
qed simp

lemma resolved_forever:
  "resolve l n s = (s', Ok v) \<Longrightarrow> resolve l' n (resolve_each resolve qs s') = (resolve_each resolve qs s', Ok v)"
  by (rule resolve_each_keeps) (rule settled)

end

lemma resolve_loaded: "rg_loaded s \<Longrightarrow> load_entry_points acceptable eps s = (s, Ok ())"
  by (simp add: load_entry_points_def)

lemma load_entry_points_cases:
  "load_entry_points acceptable eps s = (s', r) \<Longrightarrow> rg_loaded s'"
  using load_entry_points_loaded [of acceptable eps s] by simp

lemma model_resolve_settled:
  assumes "model_resolve load eps n s = (s', Ok f)"
  shows "rg_loaded s' \<and> map_of (rg_targets s') n = Some (MFactory f)"
proof -
  obtain s1 r where l: "load_entry_points model_target_ok eps s = (s1, r)" by (cases "load_entry_points model_target_ok eps s")
  note ld = load_entry_points_cases [OF l]
  from assms l ld show ?thesis
    by (auto simp: model_resolve_def map_of_target_put
        split: res.splits option.splits model_target.splits prod.splits imported.splits)
qed

lemma model_resolve_known:
  "rg_loaded s \<Longrightarrow> map_of (rg_targets s) n = Some (MFactory f) \<Longrightarrow> model_resolve load eps n s = (s, Ok f)"
  by (simp add: model_resolve_def resolve_loaded)

lemma model_resolve_frame:
  assumes "rg_loaded s" and "map_of (rg_targets s) n = Some (MFactory f)"
  shows "rg_loaded (fst (model_resolve load eps m s)) \<and>
         map_of (rg_targets (fst (model_resolve load eps m s))) n = Some (MFactory f)"
  using assms
  by (auto simp: model_resolve_def resolve_loaded map_of_target_put
      split: res.splits option.splits model_target.splits prod.splits imported.splits)

abbreviation model_resolver ::
    "(string \<Rightarrow> string \<Rightarrow> 'f imported res) \<times> (string \<times> 'f model_target res) list \<Rightarrow> string \<Rightarrow>
     'f model_target registry \<Rightarrow> 'f model_target registry \<times> 'f res" where
  "model_resolver l n s \<equiv> model_resolve (fst l) (snd l) n s"

interpretation models: lazy_resolver model_resolver
proof unfold_locales
  fix l l' :: "(string \<Rightarrow> string \<Rightarrow> 'a imported res) \<times> (string \<times> 'a model_target res) list"
    and n m s s' f
  obtain load eps load' eps' where l: "l = (load, eps)" "l' = (load', eps')" by (cases l; cases l')
  show "model_resolver l n s = (s', Ok f) \<Longrightarrow>
      model_resolver l' n s' = (s', Ok f)"
    using model_resolve_settled [of load eps n s s' f] by (simp add: l model_resolve_known)
  assume "\<And>l. model_resolver l n s = (s, Ok f)"
  from this [of l] have "rg_loaded s \<and> map_of (rg_targets s) n = Some (MFactory f)"
    using model_resolve_settled [of load eps n s s f] by (simp add: l)
  then show "model_resolver l n
        (fst (model_resolver l' m s)) =
      (fst (model_resolver l' m s), Ok f)"
    using model_resolve_frame [of s n f load' eps' m] by (simp add: l model_resolve_known)
qed

lemma robot_resolve_settled:
  assumes "robot_resolve load eps n s = (s', Ok c)"
  shows "rg_loaded s' \<and> map_of (rg_targets s') n = Some (RContract c)"
proof -
  obtain s1 r where l: "load_entry_points robot_target_ok eps s = (s1, r)" by (cases "load_entry_points robot_target_ok eps s")
  note ld = load_entry_points_cases [OF l]
  from assms l ld show ?thesis
    by (auto simp: robot_resolve_def map_of_target_put
        split: res.splits option.splits robot_object.splits prod.splits)
qed

lemma robot_resolve_known:
  "rg_loaded s \<Longrightarrow> map_of (rg_targets s) n = Some (RContract c) \<Longrightarrow> robot_resolve load eps n s = (s, Ok c)"
  by (simp add: robot_resolve_def resolve_loaded)

lemma robot_resolve_frame:
  assumes "rg_loaded s" and "map_of (rg_targets s) n = Some (RContract c)"
  shows "rg_loaded (fst (robot_resolve load eps m s)) \<and>
         map_of (rg_targets (fst (robot_resolve load eps m s))) n = Some (RContract c)"
proof (cases "map_of (rg_targets s) m")
  case None
  with assms show ?thesis by (simp add: robot_resolve_def resolve_loaded)
next
  case (Some t)
  with assms show ?thesis
    by (cases t) (auto simp: robot_resolve_def resolve_loaded map_of_target_put
        split: res.splits robot_object.splits prod.splits)
qed

abbreviation robot_resolver ::
    "(string \<Rightarrow> string \<Rightarrow> robot_object res) \<times> (string \<times> robot_object res) list \<Rightarrow> string \<Rightarrow>
     robot_object registry \<Rightarrow> robot_object registry \<times> robot_contract res" where
  "robot_resolver l n s \<equiv> robot_resolve (fst l) (snd l) n s"

interpretation robots: lazy_resolver robot_resolver
proof unfold_locales
  fix l l' :: "(string \<Rightarrow> string \<Rightarrow> robot_object res) \<times> (string \<times> robot_object res) list"
    and n m s s' c
  obtain load eps load' eps' where l: "l = (load, eps)" "l' = (load', eps')" by (cases l; cases l')
  show "robot_resolver l n s = (s', Ok c) \<Longrightarrow>
      robot_resolver l' n s' = (s', Ok c)"
    using robot_resolve_settled [of load eps n s s' c] by (simp add: l robot_resolve_known)
  assume "\<And>l. robot_resolver l n s = (s, Ok c)"
  from this [of l] have "rg_loaded s \<and> map_of (rg_targets s) n = Some (RContract c)"
    using robot_resolve_settled [of load eps n s s c] by (simp add: l)
  then show "robot_resolver l n
        (fst (robot_resolver l' m s)) =
      (fst (robot_resolver l' m s), Ok c)"
    using robot_resolve_frame [of s n c load' eps' m] by (simp add: l robot_resolve_known)
qed

section \<open>Properties\<close>

text \<open>
  Resolution is stable.  Once a model name has been resolved, it resolves to
  the same factory for ever, without another import, whatever other names are
  resolved in between and whatever the import machinery would now return.
\<close>

theorem model_resolution_stable:
  assumes "model_resolve load eps n s = (s', Ok f)"
  shows "model_resolve load' eps' n (resolve_each model_resolver qs s') = (resolve_each model_resolver qs s', Ok f)"
  using models.resolved_forever [of "(load, eps)" n s s' f "(load', eps')" qs] assms by simp

definition lazy_registry :: "nat model_target registry" where
  "lazy_registry = \<lparr>rg_targets = [(''a'', MLazy ''m:f''), (''b'', MLazy ''m:g'')], rg_loaded = True\<rparr>"

theorem model_resolution_stable_witness:
  "snd (model_resolve (\<lambda>m a. Err (RuntimeError ''import'')) [] ''a''
     (resolve_each model_resolver [((\<lambda>m a. Ok (Callable 2), []), ''b'')]
        (fst (model_resolve (\<lambda>m a. Ok (Callable 1)) [] ''a'' lazy_registry)))) = Ok 1"
proof -
  obtain s' where r: "model_resolve (\<lambda>m a. Ok (Callable 1)) [] ''a'' lazy_registry = (s', Ok (1 :: nat))"
    by (simp add: model_resolve_def lazy_registry_def load_entry_points_def split_colon_def)
  show ?thesis
    by (simp only: r fst_conv model_resolution_stable [OF r] snd_conv)
qed

text \<open>
  The same for robot contracts; and a lazily produced contract replaces its
  factory as the registered target of the name.
\<close>

theorem robot_resolution_stable:
  assumes "robot_resolve load eps n s = (s', Ok c)"
  shows "robot_resolve load' eps' n (resolve_each robot_resolver qs s') = (resolve_each robot_resolver qs s', Ok c) \<and>
         map_of (rg_targets s') n = Some (RContract c)"
  using robots.resolved_forever [of "(load, eps)" n s s' c "(load', eps')" qs] assms
    robot_resolve_settled [OF assms] by simp

theorem robot_resolution_stable_witness:
  "snd (robot_resolve (\<lambda>m a. Err (RuntimeError ''import'')) [] ''r''
     (resolve_each robot_resolver [] (fst (robot_resolve (\<lambda>m a. Ok (RCallable (Ok (RContract tiny_contract)))) [] ''r''
        \<lparr>rg_targets = [(''r'', RString ''m:make'')], rg_loaded = True\<rparr>)))) = Ok tiny_contract"
proof -
  obtain s' where r: "robot_resolve (\<lambda>m a. Ok (RCallable (Ok (RContract tiny_contract)))) [] ''r''
      \<lparr>rg_targets = [(''r'', RString ''m:make'')], rg_loaded = True\<rparr> = (s', Ok tiny_contract)"
    by (simp add: robot_resolve_def load_entry_points_def split_colon_def)
  show ?thesis
    by (simp only: r fst_conv robot_resolution_stable [OF r, THEN conjunct1] snd_conv)
qed

definition lazy_models :: "(string \<times> 'f model_target) list" where
  "lazy_models = map (\<lambda>(n, t). (n, MLazy t)) builtin_models"

lemma builtin_valid: "list_all (\<lambda>(n, t). valid_name n \<and> CHR '':'' \<in> set t) builtin_models"
  by (simp add: builtin_models_def valid_name_def name_start_def name_char_def Let_def)

lemma target_put_new: "n \<notin> fst ` set ts \<Longrightarrow> target_put n t ts = ts @ [(n, t)]"
  by (induction n t ts rule: target_put.induct) auto

lemma register_all_new:
  "distinct (map fst (rg_targets s @ ts)) \<Longrightarrow> list_all (\<lambda>(n, t). valid_name n \<and> acceptable t) ts \<Longrightarrow>
   register_all acceptable (map (\<lambda>(n, t). (n, Ok t)) ts) s = (s\<lparr>rg_targets := rg_targets s @ ts\<rparr>, Ok ())"
proof (induction ts arbitrary: s)
  case (Cons e ts)
  obtain n t where e: "e = (n, t)" by (cases e)
  with Cons.prems have "n \<notin> fst ` set (rg_targets s)" by auto
  then have "registry_register acceptable n t False s = Ok (s\<lparr>rg_targets := rg_targets s @ [(n, t)]\<rparr>)"
    using Cons.prems e by (simp add: registry_register_def target_put_new map_of_eq_None_iff)
  with Cons e show ?case by simp
qed simp

lemma model_registry_eq:
  "(model_registry :: 'f model_target registry \<times> unit res) =
     (\<lparr>rg_targets = lazy_models, rg_loaded = False\<rparr>, Ok ())"
proof -
  have "register_all model_target_ok (map (\<lambda>(n, t). (n, Ok t)) (lazy_models :: (string \<times> 'f model_target) list))
      empty_registry = (empty_registry\<lparr>rg_targets := rg_targets empty_registry @ lazy_models\<rparr>, Ok ())"
    using builtin_valid
    by (intro register_all_new)
      (simp_all add: empty_registry_def lazy_models_def builtin_models_def)
  moreover have "map (\<lambda>(n, t). (n, Ok t)) (lazy_models :: (string \<times> 'f model_target) list) =
      map (\<lambda>(n, t). (n, Ok (MLazy t))) builtin_models"
    by (simp add: lazy_models_def builtin_models_def)
  ultimately show ?thesis by (simp add: model_registry_def empty_registry_def)
qed

lemma builtin_sorted:
  "sort (map fst builtin_models) =
     [''mock'', ''pi05-cpp'', ''pi05-hbm'', ''pi05-remote'', ''pi05-tcp'',
      ''turbovla-s100-remote'', ''turbovla-s600-hbm'', ''turbovla-s600-remote'', ''turbovla-tensorrt'']"
  by code_simp

text \<open>
  The registrations at import time all succeed: the nine built-in models
  are registered under distinct valid names with lazy targets, \<open>names()\<close> lists
  them in order when no entry point is installed, and the default robot name
  resolves to the shipped contract.
\<close>

theorem builtin_registries:
  "snd (model_registry :: 'a model_target registry \<times> unit res) = Ok () \<and>
   map fst (rg_targets (fst (model_registry :: 'a model_target registry \<times> unit res))) = map fst builtin_models \<and>
   snd (registry_names model_target_ok [] (fst (model_registry :: 'a model_target registry \<times> unit res))) =
     Ok [''mock'', ''pi05-cpp'', ''pi05-hbm'', ''pi05-remote'', ''pi05-tcp'',
         ''turbovla-s100-remote'', ''turbovla-s600-hbm'', ''turbovla-s600-remote'', ''turbovla-tensorrt''] \<and>
   (\<exists>r. robot_registry = Ok r \<and>
      snd (get_robot_contract load [] ''dazz-s600'' r) = Ok DAZZ_S600_CONTRACT)"
proof (intro conjI)
  have names: "map fst (lazy_models :: (string \<times> 'a model_target) list) = map fst builtin_models"
    by (simp add: lazy_models_def builtin_models_def)
  show "snd (registry_names model_target_ok [] (fst (model_registry :: 'a model_target registry \<times> unit res))) =
     Ok [''mock'', ''pi05-cpp'', ''pi05-hbm'', ''pi05-remote'', ''pi05-tcp'',
         ''turbovla-s100-remote'', ''turbovla-s600-hbm'', ''turbovla-s600-remote'', ''turbovla-tensorrt'']"
    by (simp add: model_registry_eq registry_names_def load_entry_points_def names builtin_sorted)
  show "map fst (rg_targets (fst (model_registry :: 'a model_target registry \<times> unit res))) = map fst builtin_models"
    by (simp add: model_registry_eq lazy_models_def builtin_models_def)
  have "registry_register robot_target_ok ''dazz-s600'' (RContract DAZZ_S600_CONTRACT) False empty_registry =
      Ok \<lparr>rg_targets = [(''dazz-s600'', RContract DAZZ_S600_CONTRACT)], rg_loaded = False\<rparr>"
    by (simp add: registry_register_def empty_registry_def valid_name_def name_start_def name_char_def Let_def)
  then show "\<exists>r. robot_registry = Ok r \<and> snd (get_robot_contract load [] ''dazz-s600'' r) = Ok DAZZ_S600_CONTRACT"
    by (simp add: robot_registry_def get_robot_contract_def robot_resolve_def load_entry_points_def)
qed (simp add: model_registry_eq)

end
