(* ===== verification/Endpoints.thy ===== *)
theory Endpoints
  imports EI_Prelude "HOL-Library.Char_ord" "HOL-Library.List_Lexorder" "HOL-Library.Sublist"
begin

text \<open>
  Endpoint discovery of \<open>endpoints.py\<close>.  A configuration is a dictionary with
  string keys; \<open>sorted(config.items())\<close> orders it by key, since keys are unique.
  \<open>str\<close> of a value that is not a string is the parameter \<open>show_val\<close>.
\<close>

type_synonym config = "(string \<times> pyval) list"

text \<open>The keys of a JSON object are strings.\<close>

definition json_object :: "pydict \<Rightarrow> config" where
  "json_object d = map (\<lambda>(k, v). (case k of PStr s \<Rightarrow> s | _ \<Rightarrow> [], v)) d"

definition host_suffix :: string where
  "host_suffix = ''_host''"

definition sorted_items :: "config \<Rightarrow> config" where
  "sorted_items config = sort_key fst config"

definition is_host_key :: "string \<Rightarrow> bool" where
  "is_host_key key = (key = ''host'' \<or> suffix host_suffix key)"

definition stem_of :: "string \<Rightarrow> string" where
  "stem_of key = (if key = ''host'' then [] else take (length key - length host_suffix) key)"

definition port_key :: "string \<Rightarrow> string" where
  "port_key stem = (if stem \<noteq> [] then stem @ ''_port'' else ''port'')"

definition cget :: "config \<Rightarrow> string \<Rightarrow> pyval" where
  "cget config key = (case map_of config key of None \<Rightarrow> PNone | Some v \<Rightarrow> v)"

definition has_endpoint :: "config \<Rightarrow> string \<times> pyval \<Rightarrow> bool" where
  "has_endpoint config item =
     (is_host_key (fst item) \<and> py_bool (snd item) \<and> cget config (port_key (stem_of (fst item))) \<noteq> PNone)"

definition endpoint_of ::
    "(pyval \<Rightarrow> string) \<Rightarrow> config \<Rightarrow> string \<times> pyval \<Rightarrow> (string \<times> string \<times> int) res" where
  "endpoint_of show_val config item =
     res_bind (py_int (cget config (port_key (stem_of (fst item))))) (\<lambda>p.
       Ok (stem_of (fst item), py_str show_val (snd item), p))"

text \<open>The loop over the sorted items: the ones that are not a host/port pair are skipped.\<close>

definition discover_endpoints ::
    "(pyval \<Rightarrow> string) \<Rightarrow> config \<Rightarrow> (string \<times> string \<times> int) list res" where
  "discover_endpoints show_val config =
     mapM (endpoint_of show_val config) (filter (has_endpoint config) (sorted_items config))"

definition resolve_endpoint ::
    "(pyval \<Rightarrow> string) \<Rightarrow> config \<Rightarrow> int \<Rightarrow> (string \<times> int) res" where
  "resolve_endpoint show_val config default_port =
     res_bind (discover_endpoints show_val config) (\<lambda>endpoints.
       case endpoints of
         (_, host, port) # _ \<Rightarrow> Ok (host, port)
       | [] \<Rightarrow>
           (case filter (\<lambda>(k, v). suffix host_suffix k) (sorted_items config) of
              (k, v) # _ \<Rightarrow> Ok (py_str show_val v, default_port)
            | [] \<Rightarrow> Err (ValueError ''config requires host/port or a *_host/*_port pair'')))"

section \<open>Lemmas\<close>

lemma set_sorted_items [simp]: "set (sorted_items config) = set config"
  by (simp add: sorted_items_def)

lemma sorted_sorted_items: "sorted (map fst (sorted_items config))"
  by (simp add: sorted_items_def)

lemma filter_Cons_least:
  assumes "filter P (sorted_items config) = x # rest" and "y \<in> set config" and "P y"
  shows "fst x \<le> fst y \<and> x \<in> set config \<and> P x"
proof -
  have "y \<in> set (filter P (sorted_items config))" using assms(2,3) by simp
  then have y: "y \<in> set (x # rest)" using assms(1) by simp
  have "sorted (map fst (filter P (sorted_items config)))"
    by (rule sorted_filter) (rule sorted_sorted_items)
  then have "fst x \<le> fst y" using y assms(1) by auto
  moreover have "x \<in> set (filter P (sorted_items config))" using assms(1) by simp
  ultimately show ?thesis by simp
qed

section \<open>Properties\<close>

text \<open>
  Discovery is sound and complete.  When it returns, every key \<open>host\<close> or
  \<open><stem>_host\<close> with a non-empty value and a port yields its endpoint, nothing
  else does, and the endpoints are in the order of their keys.
\<close>

theorem endpoints_exact:
  assumes "discover_endpoints show_val config = Ok es"
  shows "\<exists>items. sorted (map fst items) \<and> set items = {it \<in> set config. has_endpoint config it} \<and>
           list_all2 (\<lambda>it e. endpoint_of show_val config it = Ok e) items es"
proof (intro exI conjI)
  let ?items = "filter (has_endpoint config) (sorted_items config)"
  show "sorted (map fst ?items)" by (rule sorted_filter) (rule sorted_sorted_items)
  show "set ?items = {it \<in> set config. has_endpoint config it}" by auto
  show "list_all2 (\<lambda>it e. endpoint_of show_val config it = Ok e) ?items es"
    using assms by (simp add: discover_endpoints_def mapM_eq_Ok)
qed

definition two_boards :: config where
  "two_boards =
     [(''host'', PStr ''10.0.0.1''), (''port'', PInt 1), (''arm_host'', PStr ''10.0.0.2''), (''arm_port'', PInt 2)]"

lemma two_boards_sorted:
  "sorted_items two_boards =
     [(''arm_host'', PStr ''10.0.0.2''), (''arm_port'', PInt 2), (''host'', PStr ''10.0.0.1''), (''port'', PInt 1)]"
  by (simp add: sorted_items_def two_boards_def less_char_def)

lemma two_boards_hosts:
  "filter (has_endpoint two_boards) (sorted_items two_boards) =
     [(''arm_host'', PStr ''10.0.0.2''), (''host'', PStr ''10.0.0.1'')]"
  unfolding two_boards_sorted
  by (simp add: has_endpoint_def is_host_key_def suffix_def host_suffix_def stem_of_def port_key_def
      cget_def two_boards_def)

lemma two_boards_discovered:
  "discover_endpoints show_val two_boards = Ok [(''arm'', ''10.0.0.2'', 2), ([], ''10.0.0.1'', 1)]"
  unfolding discover_endpoints_def two_boards_hosts
  by (simp add: endpoint_of_def stem_of_def host_suffix_def port_key_def cget_def two_boards_def py_str_def)

theorem endpoints_exact_witness:
  "\<exists>items. sorted (map fst items) \<and>
     list_all2 (\<lambda>it e. endpoint_of (\<lambda>v. []) two_boards it = Ok e) items
       [(''arm'', ''10.0.0.2'', 2), ([], ''10.0.0.1'', 1)]"
  using endpoints_exact [OF two_boards_discovered [of "\<lambda>v. []"]] by blast

text \<open>
  Which endpoint a backend dials: the one whose host key is the least in
  string order among all complete pairs.  The bare \<open>host\<close>/\<open>port\<close> pair is
  therefore not preferred to a prefixed pair whose stem sorts before \<open>host\<close>.
\<close>

theorem endpoint_least:
  assumes "resolve_endpoint show_val config d = Ok (h, p)"
    and "it0 \<in> set config" and "has_endpoint config it0"
  shows "\<exists>it \<in> set config. has_endpoint config it \<and>
           endpoint_of show_val config it = Ok (stem_of (fst it), h, p) \<and>
           (\<forall>it' \<in> set config. has_endpoint config it' \<longrightarrow> fst it \<le> fst it')"
proof -
  obtain es where es: "discover_endpoints show_val config = Ok es"
    using assms(1) by (auto simp: resolve_endpoint_def)
  obtain it rest where it: "filter (has_endpoint config) (sorted_items config) = it # rest"
    using assms(2,3) by (cases "filter (has_endpoint config) (sorted_items config)")
      (auto simp: filter_empty_conv)
  with es obtain e es' where e: "es = e # es'" "endpoint_of show_val config it = Ok e"
    by (auto simp: discover_endpoints_def split: res.splits)
  then have "e = (stem_of (fst it), h, p)"
    using assms(1) es by (auto simp: resolve_endpoint_def endpoint_of_def)
  moreover have "\<forall>it' \<in> set config. has_endpoint config it' \<longrightarrow> fst it \<le> fst it'"
    using filter_Cons_least [OF it] by blast
  ultimately show ?thesis
    using e(2) filter_Cons_least [OF it assms(2,3)] by blast
qed

theorem endpoint_least_witness:
  "resolve_endpoint (\<lambda>v. []) two_boards 9000 = Ok (''10.0.0.2'', 2) \<and>
   (\<exists>it \<in> set two_boards. fst it \<le> ''host'' \<and>
      endpoint_of (\<lambda>v. []) two_boards it = Ok (stem_of (fst it), ''10.0.0.2'', 2))"
proof -
  have r: "resolve_endpoint (\<lambda>v. []) two_boards 9000 = Ok (''10.0.0.2'', 2)"
    by (simp add: resolve_endpoint_def two_boards_discovered)
  have h: "(''host'', PStr ''10.0.0.1'') \<in> set two_boards" by (simp add: two_boards_def)
  have "(''host'', PStr ''10.0.0.1'') \<in> set (filter (has_endpoint two_boards) (sorted_items two_boards))"
    by (simp only: two_boards_hosts) simp
  then have e: "has_endpoint two_boards (''host'', PStr ''10.0.0.1'')" by simp
  from endpoint_least [OF r h e] obtain it where "it \<in> set two_boards"
    "endpoint_of (\<lambda>v. []) two_boards it = Ok (stem_of (fst it), ''10.0.0.2'', 2)"
    and "fst it \<le> fst (''host'', PStr ''10.0.0.1'')"
    using h e by blast
  then show ?thesis by (intro conjI [OF r] bexI [of _ it]) (simp_all only: fst_conv simp_thms)
qed

end
