(* ===== verification/Action_Heads.thy ===== *)
theory Action_Heads
  imports Contracts
begin

text \<open>
  The action heads of \<open>action_heads/\<close>: autoregressive, regression, flow matching,
  dual system, the factory \<open>create_head\<close> and the pipeline.  A context maps names
  to opaque values.  The callables a backend injects are functions that may
  raise; NumPy's cast, its random generator and the Euler update in \<open>float32\<close>
  are the fields of \<open>numerics\<close>.  Readings of a head's clock are numbered: the
  head at nesting depth \<open>d\<close> reads \<open>clk (2 * d)\<close> in \<open>_needs_replan\<close> and
  \<open>clk (2 * d + 1)\<close> when it stores the time of a plan.
\<close>

type_synonym 'v actx = "(string \<times> 'v) list"

record 'g numerics =
  nm_cast :: "dtype \<Rightarrow> ndarray \<Rightarrow> ndarray res"
  nm_default_rng :: "int option \<Rightarrow> 'g"
  nm_normal :: "'g \<Rightarrow> pyfloat \<Rightarrow> int \<times> int \<Rightarrow> ndarray \<times> 'g"
  nm_axpy :: "ndarray \<Rightarrow> real \<Rightarrow> ndarray \<Rightarrow> ndarray"

section \<open>Contract of a chunk\<close>

text \<open>\<open>validate_chunk\<close> renames a \<open>ValueError\<close> and lets every other exception through.\<close>

definition validate_chunk ::
    "(dtype \<Rightarrow> ndarray \<Rightarrow> ndarray res) \<Rightarrow> ndarray \<Rightarrow> model_spec \<Rightarrow> string \<Rightarrow> ndarray res" where
  "validate_chunk cast actions spec owner =
     (case validate_actions cast spec actions of
        Err (ValueError m) \<Rightarrow> Err (ValueError (owner @ '' produced an invalid action chunk: '' @ m))
      | r \<Rightarrow> r)"

section \<open>Configurations\<close>

definition optional_int :: "pyval \<Rightarrow> int option res" where
  "optional_int v = (case v of PNone \<Rightarrow> Ok None | _ \<Rightarrow> res_bind (py_int v) (\<lambda>i. Ok (Some i)))"

record ar_config =
  ar_max_tokens :: int
  ar_eos_token :: "int option"

definition ar_config_post_init :: "ar_config \<Rightarrow> ar_config res" where
  "ar_config_post_init c =
     (if ar_max_tokens c < 1 then Err (ValueError ''autoregressive.max_tokens must be positive'') else Ok c)"

fun ar_config_from_mapping :: "pyval \<Rightarrow> ar_config res" where
  "ar_config_from_mapping PNone = ar_config_post_init \<lparr>ar_max_tokens = 60, ar_eos_token = None\<rparr>"
| "ar_config_from_mapping (PDict d) =
     res_bind (py_int (dget_or d ''max_tokens'' (PInt 60))) (\<lambda>n.
     res_bind (optional_int (dget_none d ''eos_token'')) (\<lambda>e.
       ar_config_post_init \<lparr>ar_max_tokens = n, ar_eos_token = e\<rparr>))"
| "ar_config_from_mapping _ = Err (TypeError ''autoregressive head config must be a JSON object'')"

record fm_config =
  fm_num_steps :: int
  fm_noise_scale :: pyfloat
  fm_seed :: "int option"

definition fm_config_post_init :: "fm_config \<Rightarrow> fm_config res" where
  "fm_config_post_init c =
     (if fm_num_steps c < 1 then Err (ValueError ''flow_matching.num_steps must be positive'')
      else if pf_le (fm_noise_scale c) (Fin 0)
      then Err (ValueError ''flow_matching.noise_scale must be positive'')
      else Ok c)"

fun fm_config_from_mapping :: "pyval \<Rightarrow> fm_config res" where
  "fm_config_from_mapping PNone =
     fm_config_post_init \<lparr>fm_num_steps = 10, fm_noise_scale = Fin 1, fm_seed = None\<rparr>"
| "fm_config_from_mapping (PDict d) =
     res_bind (py_int (dget_or d ''num_steps'' (PInt 10))) (\<lambda>n.
     res_bind (py_float (dget_or d ''noise_scale'' (PFloat (Fin 1)))) (\<lambda>s.
     res_bind (optional_int (dget_none d ''seed'')) (\<lambda>e.
       fm_config_post_init \<lparr>fm_num_steps = n, fm_noise_scale = s, fm_seed = e\<rparr>)))"
| "fm_config_from_mapping _ = Err (TypeError ''flow_matching head config must be a JSON object'')"

record ds_config =
  ds_refresh_interval_s :: pyfloat
  ds_instruction_key :: string

definition ds_config_post_init :: "ds_config \<Rightarrow> ds_config res" where
  "ds_config_post_init c =
     (if pf_lt (ds_refresh_interval_s c) (Fin 0)
      then Err (ValueError ''dual_system.refresh_interval_s must be non-negative'') else Ok c)"

fun ds_config_from_mapping :: "(pyval \<Rightarrow> string) \<Rightarrow> pyval \<Rightarrow> ds_config res" where
  "ds_config_from_mapping show_val PNone =
     ds_config_post_init \<lparr>ds_refresh_interval_s = Fin 1, ds_instruction_key = ''instruction''\<rparr>"
| "ds_config_from_mapping show_val (PDict d) =
     res_bind (py_float (dget_or d ''refresh_interval_s'' (PFloat (Fin 1)))) (\<lambda>r.
       ds_config_post_init
         \<lparr>ds_refresh_interval_s = r,
          ds_instruction_key = py_str show_val (dget_or d ''instruction_key'' (PStr ''instruction''))\<rparr>)"
| "ds_config_from_mapping show_val _ = Err (TypeError ''dual_system head config must be a JSON object'')"

section \<open>Heads\<close>

text \<open>The memory of a dual-system head.\<close>

record 'v ds_state =
  dst_latent :: "'v option"
  dst_instruction :: "'v option"
  dst_time :: pyfloat
  dst_calls :: nat

definition ds_state_init :: "'v ds_state" where
  "ds_state_init = \<lparr>dst_latent = None, dst_instruction = None, dst_time = NInf, dst_calls = 0\<rparr>"

datatype ('v, 'g) head =
    AutoregressiveTokenHead
      (ar_step: "('v actx \<Rightarrow> int list \<Rightarrow> int option res) option")
      (ar_detok: "(int list \<Rightarrow> model_spec \<Rightarrow> ndarray res) option")
      (ar_cfg: ar_config) (ar_last: nat)
  | ParallelRegressionHead (rg_regress: "('v actx \<Rightarrow> model_spec \<Rightarrow> ndarray res) option")
  | FlowMatchingHead
      (fm_velocity: "('v actx \<Rightarrow> ndarray \<Rightarrow> real \<Rightarrow> ndarray res) option")
      (fm_cfg: fm_config) (fm_rng: 'g) (fm_last: nat)
  | DualSystemHead
      (ds_plan: "('v actx \<Rightarrow> 'v res) option")
      (ds_fast: "('v, 'g) head option")
      (ds_cfg: ds_config) (ds_st: "'v ds_state")

fun paradigm :: "('v, 'g) head \<Rightarrow> string" where
  "paradigm (AutoregressiveTokenHead _ _ _ _) = ''autoregressive''"
| "paradigm (ParallelRegressionHead _) = ''regression''"
| "paradigm (FlowMatchingHead _ _ _ _) = ''flow_matching''"
| "paradigm (DualSystemHead _ _ _ _) = ''dual_system''"

text \<open>\<open>for _ in range(max_tokens)\<close>: the tokens up to \<open>None\<close>, the end token or the bound.\<close>

fun ar_loop ::
    "nat \<Rightarrow> ('v actx \<Rightarrow> int list \<Rightarrow> int option res) \<Rightarrow> 'v actx \<Rightarrow> int option \<Rightarrow> int list \<Rightarrow> int list res" where
  "ar_loop 0 step ctxt eos tokens = Ok tokens"
| "ar_loop (Suc n) step ctxt eos tokens =
     (case step ctxt tokens of
        Err e \<Rightarrow> Err e
      | Ok None \<Rightarrow> Ok tokens
      | Ok (Some t) \<Rightarrow> (if Some t = eos then Ok tokens else ar_loop n step ctxt eos (tokens @ [t])))"

text \<open>The Euler steps \<open>index .. num_steps - 1\<close>.\<close>

fun fm_loop ::
    "nat \<Rightarrow> nat \<Rightarrow> 'g numerics \<Rightarrow> ('v actx \<Rightarrow> ndarray \<Rightarrow> real \<Rightarrow> ndarray res) \<Rightarrow> 'v actx \<Rightarrow> int list \<Rightarrow>
     real \<Rightarrow> ndarray \<Rightarrow> ndarray res" where
  "fm_loop 0 index nm velocity ctxt shape dt actions = Ok actions"
| "fm_loop (Suc n) index nm velocity ctxt shape dt actions =
     res_bind (velocity ctxt actions (real index * dt)) (\<lambda>v0.
     res_bind (as_dtype (nm_cast nm) DF32 v0) (\<lambda>v.
       if map int (nd_shape v) \<noteq> shape
       then Err (ValueError ''flow_matching velocity has the wrong shape'')
       else fm_loop n (Suc index) nm velocity ctxt shape dt (nm_axpy nm actions dt v)))"

definition needs_replan :: "pyfloat \<Rightarrow> ds_config \<Rightarrow> 'v ds_state \<Rightarrow> 'v actx \<Rightarrow> bool" where
  "needs_replan now c st ctxt =
     (dst_calls st = 0 \<or> map_of ctxt (ds_instruction_key c) \<noteq> dst_instruction st \<or>
      pf_le (ds_refresh_interval_s c) (pf_sub now (dst_time st)))"

text \<open>
  \<open>conditioned["system2_latent"] = latent\<close>; there is a latent whenever a head
  decodes, since the first call always plans.
\<close>

fun ctx_put :: "string \<Rightarrow> 'v \<Rightarrow> 'v actx \<Rightarrow> 'v actx" where
  "ctx_put k v [] = [(k, v)]"
| "ctx_put k v ((k', v') # c) = (if k' = k then (k, v) # c else (k', v') # ctx_put k v c)"

definition condition :: "'v option \<Rightarrow> 'v actx \<Rightarrow> 'v actx" where
  "condition latent ctxt =
     (case latent of None \<Rightarrow> ctxt | Some v \<Rightarrow> ctx_put ''system2_latent'' v ctxt)"

definition ds_replan ::
    "pyfloat \<Rightarrow> pyfloat \<Rightarrow> ('v actx \<Rightarrow> 'v res) \<Rightarrow> ds_config \<Rightarrow> 'v actx \<Rightarrow> 'v ds_state \<Rightarrow> 'v ds_state res" where
  "ds_replan now1 now2 plan c ctxt st =
     (if needs_replan now1 c st ctxt
      then res_bind (plan ctxt) (\<lambda>latent.
        Ok \<lparr>dst_latent = Some latent, dst_instruction = map_of ctxt (ds_instruction_key c),
            dst_time = now2, dst_calls = Suc (dst_calls st)\<rparr>)
      else Ok st)"

text \<open>
  The \<open>decode\<close> of each class: the new value of the attributes it assigns and the
  chunk or the exception.  The dual system receives the \<open>decode\<close> of its fast head
  as \<open>run\<close>, which also gives the fast head afterwards.
\<close>

fun ar_decode ::
    "(dtype \<Rightarrow> ndarray \<Rightarrow> ndarray res) \<Rightarrow> ('v actx \<Rightarrow> int list \<Rightarrow> int option res) option \<Rightarrow>
     (int list \<Rightarrow> model_spec \<Rightarrow> ndarray res) option \<Rightarrow> ar_config \<Rightarrow> 'v actx \<Rightarrow> model_spec \<Rightarrow> nat \<Rightarrow>
     nat \<times> ndarray res" where
  "ar_decode cast (Some step) (Some detok) c ctxt spec prev =
     (case ar_loop (nat (ar_max_tokens c)) step ctxt (ar_eos_token c) [] of
        Err e \<Rightarrow> (prev, Err e)
      | Ok tokens \<Rightarrow>
          (length tokens,
           if tokens = [] then Err (ValueError ''autoregressive head produced no action tokens'')
           else res_bind (detok tokens spec) (\<lambda>a. validate_chunk cast a spec ''autoregressive detokenizer'')))"
| "ar_decode cast _ _ c ctxt spec prev =
     (prev, Err (ActionHeadUnavailableError ''autoregressive head requires step_fn and detokenize_fn''))"

fun regression_decode ::
    "(dtype \<Rightarrow> ndarray \<Rightarrow> ndarray res) \<Rightarrow> ('v actx \<Rightarrow> model_spec \<Rightarrow> ndarray res) option \<Rightarrow> 'v actx \<Rightarrow>
     model_spec \<Rightarrow> ndarray res" where
  "regression_decode cast (Some regress) ctxt spec =
     res_bind (regress ctxt spec) (\<lambda>a. validate_chunk cast a spec ''regression head'')"
| "regression_decode cast None ctxt spec =
     Err (ActionHeadUnavailableError ''regression head requires regress_fn'')"

fun fm_decode ::
    "'g numerics \<Rightarrow> ('v actx \<Rightarrow> ndarray \<Rightarrow> real \<Rightarrow> ndarray res) option \<Rightarrow> fm_config \<Rightarrow> 'v actx \<Rightarrow>
     model_spec \<Rightarrow> 'g \<times> nat \<Rightarrow> ('g \<times> nat) \<times> ndarray res" where
  "fm_decode nm (Some velocity) c ctxt spec (rng, prev) =
     (let shape = [ms_action_horizon spec, ms_model_action_dim spec];
          (noise, rng') = nm_normal nm rng (fm_noise_scale c) (ms_action_horizon spec, ms_model_action_dim spec);
          dt = 1 / of_int (fm_num_steps c)
      in case res_bind (as_dtype (nm_cast nm) DF32 noise) (\<lambda>a0.
                fm_loop (nat (fm_num_steps c)) 0 nm velocity ctxt shape dt a0) of
           Err e \<Rightarrow> ((rng', prev), Err e)
         | Ok a \<Rightarrow> ((rng', nat (fm_num_steps c)), validate_chunk (nm_cast nm) a spec ''flow_matching head''))"
| "fm_decode nm None c ctxt spec mem =
     (mem, Err (ActionHeadUnavailableError ''flow_matching head requires velocity_fn''))"

fun ds_decode ::
    "pyfloat \<Rightarrow> pyfloat \<Rightarrow> ('v actx \<Rightarrow> 'v res) option \<Rightarrow> ('v actx \<Rightarrow> 'h \<times> ndarray res) option \<Rightarrow> ds_config \<Rightarrow>
     'v actx \<Rightarrow> 'h option \<times> 'v ds_state \<Rightarrow> ('h option \<times> 'v ds_state) \<times> ndarray res" where
  "ds_decode now1 now2 (Some plan) (Some run) c ctxt (fast, st) =
     (case ds_replan now1 now2 plan c ctxt st of
        Err e \<Rightarrow> ((fast, st), Err e)
      | Ok st' \<Rightarrow> (case run (condition (dst_latent st') ctxt) of (fast', r) \<Rightarrow> ((Some fast', st'), r)))"
| "ds_decode now1 now2 _ _ c ctxt mem =
     (mem, Err (ActionHeadUnavailableError ''dual_system head requires plan_fn and a fast_head''))"

text \<open>The method call \<open>head.decode(context, spec)\<close>, dispatched on the class of the head.\<close>

fun decode ::
    "'g numerics \<Rightarrow> (nat \<Rightarrow> pyfloat) \<Rightarrow> nat \<Rightarrow> 'v actx \<Rightarrow> model_spec \<Rightarrow> ('v, 'g) head \<Rightarrow>
     ('v, 'g) head \<times> ndarray res" where
  "decode nm clk d ctxt spec (AutoregressiveTokenHead step detok c prev) =
     (case ar_decode (nm_cast nm) step detok c ctxt spec prev of
        (prev', r) \<Rightarrow> (AutoregressiveTokenHead step detok c prev', r))"
| "decode nm clk d ctxt spec (ParallelRegressionHead regress) =
     (ParallelRegressionHead regress, regression_decode (nm_cast nm) regress ctxt spec)"
| "decode nm clk d ctxt spec (FlowMatchingHead velocity c rng prev) =
     (case fm_decode nm velocity c ctxt spec (rng, prev) of
        ((rng', prev'), r) \<Rightarrow> (FlowMatchingHead velocity c rng' prev', r))"
| "decode nm clk d ctxt spec (DualSystemHead plan fast c st) =
     (case ds_decode (clk (2 * d)) (clk (2 * d + 1)) plan
             (case fast of None \<Rightarrow> None | Some h \<Rightarrow> Some (\<lambda>x. decode nm clk (Suc d) x spec h)) c ctxt (fast, st) of
        ((fast', st'), r) \<Rightarrow> (DualSystemHead plan fast' c st', r))"

definition fm_reset :: "'g numerics \<Rightarrow> fm_config \<Rightarrow> 'g \<times> nat" where
  "fm_reset nm c = (nm_default_rng nm (fm_seed c), 0)"

definition ds_reset :: "('h \<Rightarrow> 'h) \<Rightarrow> 'h option \<times> 'v ds_state \<Rightarrow> 'h option \<times> 'v ds_state" where
  "ds_reset fast_reset mem =
     ((case fst mem of None \<Rightarrow> None | Some h \<Rightarrow> Some (fast_reset h)),
      \<lparr>dst_latent = None, dst_instruction = None, dst_time = NInf, dst_calls = 0\<rparr>)"

lemma ds_reset_cong [fundef_cong]:
  "mem = mem' \<Longrightarrow> (\<And>h. fst mem' = Some h \<Longrightarrow> f h = g h) \<Longrightarrow> ds_reset f mem = ds_reset g mem'"
  by (auto simp: ds_reset_def split: option.splits)

fun head_reset :: "'g numerics \<Rightarrow> ('v, 'g) head \<Rightarrow> ('v, 'g) head" where
  "head_reset nm (AutoregressiveTokenHead step detok c prev) = AutoregressiveTokenHead step detok c 0"
| "head_reset nm (ParallelRegressionHead f) = ParallelRegressionHead f"
| "head_reset nm (FlowMatchingHead v c rng prev) =
     (case fm_reset nm c of (rng', prev') \<Rightarrow> FlowMatchingHead v c rng' prev')"
| "head_reset nm (DualSystemHead plan fast c st) =
     (case ds_reset (head_reset nm) (fast, st) of (fast', st') \<Rightarrow> DualSystemHead plan fast' c st')"

definition ar_metadata :: "ar_config \<Rightarrow> nat \<Rightarrow> pydict" where
  "ar_metadata c last_token_count =
     [(PStr ''paradigm'', PStr ''autoregressive''), (PStr ''max_tokens'', PInt (ar_max_tokens c)),
      (PStr ''last_token_count'', PInt (int last_token_count))]"

definition fm_metadata :: "fm_config \<Rightarrow> pydict" where
  "fm_metadata c =
     [(PStr ''paradigm'', PStr ''flow_matching''), (PStr ''num_steps'', PInt (fm_num_steps c)),
      (PStr ''noise_scale'', PFloat (fm_noise_scale c)), (PStr ''deterministic'', PBool (fm_seed c \<noteq> None))]"

definition ds_metadata :: "ds_config \<Rightarrow> 'v ds_state \<Rightarrow> pydict \<Rightarrow> pydict" where
  "ds_metadata c st fast =
     [(PStr ''paradigm'', PStr ''dual_system''),
      (PStr ''refresh_interval_s'', PFloat (ds_refresh_interval_s c)),
      (PStr ''system2_calls'', PInt (int (dst_calls st))), (PStr ''fast_head'', PDict fast)]"

fun head_metadata :: "('v, 'g) head \<Rightarrow> pydict" where
  "head_metadata (AutoregressiveTokenHead step detok c prev) = ar_metadata c prev"
| "head_metadata (ParallelRegressionHead f) = [(PStr ''paradigm'', PStr ''regression'')]"
| "head_metadata (FlowMatchingHead v c rng prev) = fm_metadata c"
| "head_metadata (DualSystemHead plan fast c st) =
     ds_metadata c st (case fast of None \<Rightarrow> [] | Some h \<Rightarrow> head_metadata h)"

section \<open>Factory\<close>

text \<open>The callables a backend offers under their names in \<open>fns\<close>.\<close>

record 'v head_fns =
  hf_step :: "('v actx \<Rightarrow> int list \<Rightarrow> int option res) option"
  hf_detokenize :: "(int list \<Rightarrow> model_spec \<Rightarrow> ndarray res) option"
  hf_regress :: "('v actx \<Rightarrow> model_spec \<Rightarrow> ndarray res) option"
  hf_velocity :: "('v actx \<Rightarrow> ndarray \<Rightarrow> real \<Rightarrow> ndarray res) option"
  hf_plan :: "('v actx \<Rightarrow> 'v res) option"

definition HEAD_KINDS :: "string list" where
  "HEAD_KINDS = [''autoregressive'', ''regression'', ''flow_matching'', ''dual_system'']"

text \<open>
  \<open>dict(config.get("fast", {"kind": "flow_matching"}))\<close>; a \<open>fast\<close> entry is a JSON
  object (a list of pairs, which \<open>dict\<close> would also take, is not one).
\<close>

fun fast_config :: "pydict \<Rightarrow> pydict res" where
  "fast_config config =
     (case dget_or config ''fast'' (PDict [(PStr ''kind'', PStr ''flow_matching'')]) of
        PDict d \<Rightarrow> Ok d
      | _ \<Rightarrow> Err (TypeError ''fast must be a JSON object''))"

definition without_kind :: "pydict \<Rightarrow> pydict" where
  "without_kind d = filter (\<lambda>e. fst e \<noteq> PStr ''kind'') d"

lemma size_without_kind: "size_list (size_prod size size) (without_kind d) \<le> size_list (size_prod size size) d"
  unfolding without_kind_def by (induction d) auto

lemma dget_size: "dget d k = Some v \<Longrightarrow> size v < size (PDict d)"
  by (induction d) (auto simp: dget_def split: if_splits)

function create_head ::
    "'g numerics \<Rightarrow> (pyval \<Rightarrow> string) \<Rightarrow> string \<Rightarrow> 'v head_fns \<Rightarrow> pydict \<Rightarrow> ('v, 'g) head res" where
  "create_head nm show_val kind fns config =
     (if kind = ''autoregressive''
      then res_bind (ar_config_from_mapping (PDict config)) (\<lambda>c.
        Ok (AutoregressiveTokenHead (hf_step fns) (hf_detokenize fns) c 0))
      else if kind = ''regression'' then Ok (ParallelRegressionHead (hf_regress fns))
      else if kind = ''flow_matching''
      then res_bind (fm_config_from_mapping (PDict config)) (\<lambda>c.
        Ok (FlowMatchingHead (hf_velocity fns) c (nm_default_rng nm (fm_seed c)) 0))
      else if kind = ''dual_system''
      then (case fast_config config of
              Err e \<Rightarrow> Err e
            | Ok fc \<Rightarrow>
                (case create_head nm show_val (py_str show_val (dget_or fc ''kind'' (PStr ''flow_matching''))) fns
                        (without_kind fc) of
                   Err e \<Rightarrow> Err e
                 | Ok fast \<Rightarrow> res_bind (ds_config_from_mapping show_val (PDict config)) (\<lambda>c.
                     Ok (DualSystemHead (hf_plan fns) (Some fast) c ds_state_init))))
      else Err (ValueError ''unknown action head kind''))"
  by pat_completeness auto

lemma fast_config_size:
  assumes "fast_config config = Ok fc"
  shows "fc = [(PStr ''kind'', PStr ''flow_matching'')] \<or> size (PDict fc) < size (PDict config)"
proof (cases "dget config ''fast''")
  case None
  with assms show ?thesis by (simp add: dget_or_def)
next
  case (Some v)
  with assms dget_size [OF Some] show ?thesis
    by (auto simp: dget_or_def split: pyval.splits)
qed

termination create_head
proof (relation "measure (\<lambda>(nm, show_val, kind, fns, config).
    if kind = ''dual_system'' then Suc (size (PDict config)) else 0)")
  fix nm :: "'g numerics" and show_val kind config fc and fns :: "'v head_fns"
  assume kind: "kind = ''dual_system''" and fc: "fast_config config = Ok fc"
  have "size (PDict (without_kind fc)) \<le> size (PDict fc)"
    using size_without_kind [of fc] by simp
  with fast_config_size [OF fc] kind
  show "((nm, show_val, py_str show_val (dget_or fc ''kind'' (PStr ''flow_matching'')), fns, without_kind fc),
      nm, show_val, kind, fns, config) \<in> measure (\<lambda>(nm, show_val, kind, fns, config).
        if kind = ''dual_system'' then Suc (size (PDict config)) else 0)"
    by (auto simp: dget_or_def py_str_def)
qed simp

declare create_head.simps [simp del]
declare fast_config.simps [simp del]

section \<open>Pipeline\<close>

record ('v, 'g) pipeline =
  pp_spec :: model_spec
  pp_head :: "('v, 'g) head"
  pp_inference_count :: nat

text \<open>\<open>encoder_fn\<close> returns a context or something else (\<open>None\<close>).\<close>

definition pipeline_infer ::
    "'g numerics \<Rightarrow> (nat \<Rightarrow> pyfloat) \<Rightarrow> (infer_req \<Rightarrow> 'v actx option res) \<Rightarrow> pyfloat \<Rightarrow> pyfloat \<Rightarrow> infer_req \<Rightarrow>
     ('v, 'g) pipeline \<Rightarrow> ('v, 'g) pipeline \<times> backend_result res" where
  "pipeline_infer nm clk encoder_fn encode_ms decode_ms request p =
     (case validate_request (pp_spec p) request of
        Err e \<Rightarrow> (p, Err e)
      | Ok _ \<Rightarrow>
          (case encoder_fn request of
             Err e \<Rightarrow> (p, Err e)
           | Ok None \<Rightarrow> (p, Err (TypeError ''encoder_fn must return an ActionContext dict''))
           | Ok (Some ctxt) \<Rightarrow>
               (case decode nm clk 0 ctxt (pp_spec p) (pp_head p) of
                  (h, Err e) \<Rightarrow> (p\<lparr>pp_head := h\<rparr>, Err e)
                | (h, Ok actions) \<Rightarrow>
                    (p\<lparr>pp_head := h, pp_inference_count := Suc (pp_inference_count p)\<rparr>,
                     Ok \<lparr>br_actions = actions, br_representation = ms_action_representation (pp_spec p),
                         br_control_period_ns = ms_control_period_ns (pp_spec p),
                         br_timing = [(''encode_ms'', encode_ms), (''decode_ms'', decode_ms)]\<rparr>))))"

definition pipeline_reset :: "'g numerics \<Rightarrow> ('v, 'g) pipeline \<Rightarrow> ('v, 'g) pipeline" where
  "pipeline_reset nm p = p\<lparr>pp_head := head_reset nm (pp_head p)\<rparr>"

definition pipeline_metadata :: "('v, 'g) pipeline \<Rightarrow> pydict" where
  "pipeline_metadata p =
     ddisplay (spec_metadata (pp_spec p))
       [(''action_head'', PDict (head_metadata (pp_head p))),
        (''inference_count'', PInt (int (pp_inference_count p)))]"

end
