(* ===== verification/Action_Head_Props.thy ===== *)
theory Action_Head_Props
  imports Action_Heads
begin

text \<open>
  What the action heads promise to the pipeline: a chunk that satisfies the
  model's contract or an exception, bounded token generation, reuse of the
  slow plan, and a reset that restores the initial behaviour.
\<close>

section \<open>The contract of a head\<close>

locale action_head =
  fixes dec :: "'h \<Rightarrow> 'c \<Rightarrow> model_spec \<Rightarrow> 'h \<times> ndarray res" and rst :: "'h \<Rightarrow> 'h"
  assumes decode_chunk: "dec h c spec = (h', Ok a) \<Longrightarrow> chunk_ok spec a"
    and reset_decode: "rst (fst (dec h c spec)) = rst h"
begin

fun decode_each :: "'c list \<Rightarrow> model_spec \<Rightarrow> 'h \<Rightarrow> 'h" where
  "decode_each [] spec h = h"
| "decode_each (c # cs) spec h = decode_each cs spec (fst (dec h c spec))"

lemma reset_each: "rst (decode_each cs spec h) = rst h"
  by (induction cs arbitrary: h) (simp_all add: reset_decode)

end

lemma validate_chunk_Ok: "validate_chunk cast a spec owner = Ok v \<Longrightarrow> chunk_ok spec v"
  by (auto simp: validate_chunk_def split: res.splits pyerr.splits intro: validate_actions_Ok)

lemma ar_decode_chunk: "ar_decode cast step detok c ctxt spec prev = (n, Ok a) \<Longrightarrow> chunk_ok spec a"
  by (cases "(cast, step, detok, c, ctxt, spec, prev)" rule: ar_decode.cases)
    (auto split: res.splits if_splits dest: validate_chunk_Ok)

lemma regression_decode_chunk: "regression_decode cast f ctxt spec = Ok a \<Longrightarrow> chunk_ok spec a"
  by (cases f) (auto dest: validate_chunk_Ok)

lemma fm_decode_chunk: "fm_decode nm v c ctxt spec mem = (mem', Ok a) \<Longrightarrow> chunk_ok spec a"
  by (cases v; cases mem) (auto simp: Let_def split: res.splits prod.splits dest: validate_chunk_Ok)

lemma ds_decode_chunk:
  assumes "ds_decode now1 now2 plan run c ctxt mem = (mem', Ok a)"
    and "\<And>f x h. run = Some f \<Longrightarrow> f x = (h, Ok a) \<Longrightarrow> chunk_ok spec a"
  shows "chunk_ok spec a"
  using assms by (cases plan; cases run; cases mem) (auto split: res.splits prod.splits)

lemma decode_chunk_ok: "decode nm clk d ctxt spec h = (h', Ok a) \<Longrightarrow> chunk_ok spec a"
proof (induction nm clk d ctxt spec h arbitrary: h' a rule: decode.induct)
  case (4 nm clk d ctxt spec plan fast c st)
  from 4(2) obtain mem' where m: "ds_decode (clk (2 * d)) (clk (2 * d + 1)) plan
      (case fast of None \<Rightarrow> None | Some h \<Rightarrow> Some (\<lambda>x. decode nm clk (Suc d) x spec h)) c ctxt (fast, st) = (mem', Ok a)"
    by (auto split: prod.splits)
  show ?case by (rule ds_decode_chunk [OF m]) (auto split: option.splits dest: 4(1))
qed (auto split: prod.splits dest: ar_decode_chunk regression_decode_chunk fm_decode_chunk)

text \<open>A dual-system decode leaves the fast head alone or as one decode of it leaves it.\<close>

lemma ds_decode_memory:
  assumes "ds_decode now1 now2 plan (case fast of None \<Rightarrow> None | Some h \<Rightarrow> Some (run h)) c ctxt (fast, st) = ((fast', st'), r)"
  shows "fast' = fast \<or> (\<exists>h x. fast = Some h \<and> fast' = Some (fst (run h x)))"
  using assms by (cases plan; cases fast) (auto split: res.splits prod.splits, metis fst_conv)

lemma head_reset_decode: "head_reset nm (fst (decode nm clk d ctxt spec h)) = head_reset nm h"
proof (induction nm clk d ctxt spec h rule: decode.induct)
  case (4 nm clk d ctxt spec plan fast c st)
  obtain fast' st' r where m: "ds_decode (clk (2 * d)) (clk (2 * d + 1)) plan
      (case fast of None \<Rightarrow> None | Some h \<Rightarrow> Some (\<lambda>x. decode nm clk (Suc d) x spec h)) c ctxt (fast, st) =
        ((fast', st'), r)"
    by (metis surj_pair)
  from ds_decode_memory [OF this] show ?case using m 4(1) by (auto simp: ds_reset_def)
qed (auto split: prod.splits)

interpretation heads: action_head
    "\<lambda>h c spec. decode nm (fst c) 0 (snd c) spec h" "head_reset nm" for nm :: "'g numerics"
  by unfold_locales (auto simp: head_reset_decode dest: decode_chunk_ok)

section \<open>Lemmas\<close>

lemma ar_loop_spec:
  assumes "ar_loop n step ctxt eos acc = Ok tokens"
    and "\<forall>i < length acc. step ctxt (take i acc) = Ok (Some (acc ! i)) \<and> Some (acc ! i) \<noteq> eos"
  shows "length tokens \<le> length acc + n \<and>
    (\<forall>i < length tokens. step ctxt (take i tokens) = Ok (Some (tokens ! i)) \<and> Some (tokens ! i) \<noteq> eos)"
  using assms
proof (induction n step ctxt eos acc rule: ar_loop.induct)
  case (2 n step ctxt eos acc)
  show ?case
  proof (cases "step ctxt acc")
    case (Ok t)
    show ?thesis
    proof (cases "t = None \<or> t = eos")
      case True
      with Ok 2(2,3) show ?thesis by (cases t) auto
    next
      case False
      then obtain k where k: "t = Some k" "Some k \<noteq> eos" by auto
      have "\<forall>i < length (acc @ [k]). step ctxt (take i (acc @ [k])) = Ok (Some ((acc @ [k]) ! i)) \<and>
          Some ((acc @ [k]) ! i) \<noteq> eos"
        using 2(3) Ok k by (auto simp: less_Suc_eq nth_append)
      with 2(1) [of t k] Ok k 2(2) show ?thesis by simp
    qed
  qed (use 2(2) in simp)
qed simp

fun seeded :: "('v, 'g) head \<Rightarrow> bool" where
  "seeded (FlowMatchingHead v c rng prev) = (fm_seed c \<noteq> None)"
| "seeded (DualSystemHead plan fast c st) = (case fast of None \<Rightarrow> True | Some h \<Rightarrow> seeded h)"
| "seeded _ = True"

lemma create_head_fresh: "create_head nm show_val kind fns config = Ok h \<Longrightarrow> head_reset nm h = h"
proof (induction nm show_val kind fns config arbitrary: h rule: create_head.induct)
  case (1 nm show_val kind fns config)
  show ?case
  proof (cases "kind = ''dual_system''")
    case True
    with 1(2) obtain fc fast c where fc: "fast_config config = Ok fc"
      and f: "create_head nm show_val (py_str show_val (dget_or fc ''kind'' (PStr ''flow_matching''))) fns
        (without_kind fc) = Ok fast"
      and h: "h = DualSystemHead (hf_plan fns) (Some fast) c ds_state_init"
      by (subst (asm) create_head.simps) (auto split: res.splits)
    have "head_reset nm fast = fast" by (rule 1(1) [OF _ _ _ True fc f]) (simp_all add: True)
    with h show ?thesis by (simp add: ds_reset_def ds_state_init_def)
  next
    case False
    with 1(2) show ?thesis
      by (subst (asm) create_head.simps) (auto simp: fm_reset_def split: if_splits)
  qed
qed

lemma create_head_paradigm: "create_head nm show_val kind fns config = Ok h \<Longrightarrow> paradigm h = kind \<and> kind \<in> set HEAD_KINDS"
  by (subst (asm) create_head.simps) (auto simp: HEAD_KINDS_def split: if_splits res.splits)

lemma ds_replan_calls:
  "ds_replan now1 now2 plan c ctxt st = Ok st' \<Longrightarrow>
     (if needs_replan now1 c st ctxt
      then (\<exists>v. plan ctxt = Ok v \<and> dst_latent st' = Some v) \<and> dst_calls st' = Suc (dst_calls st) \<and>
           dst_instruction st' = map_of ctxt (ds_instruction_key c) \<and> dst_time st' = now2
      else st' = st)"
  by (auto simp: ds_replan_def split: if_splits)

section \<open>Properties\<close>

definition const_numerics :: "unit numerics" where
  "const_numerics =
     \<lparr>nm_cast = (\<lambda>d a. Ok a), nm_default_rng = (\<lambda>s. ()),
      nm_normal = (\<lambda>g s (h, k). (nd_of_f32s [nat h, nat k] (replicate (nat h * nat k) f32_zero), g)),
      nm_axpy = (\<lambda>a dt v. a)\<rparr>"

definition tiny_spec :: model_spec where
  "tiny_spec =
     \<lparr>ms_name = ''tiny'', ms_backend = ''test'', ms_raw_state_dim = 1, ms_model_state_dim = 1,
      ms_raw_action_dim = 1, ms_model_action_dim = 1, ms_action_horizon = 1, ms_camera_order = [''head''],
      ms_action_representation = ''absolute'', ms_control_period_ns = 0, ms_extras = []\<rparr>"

definition tiny_chunk :: ndarray where
  "tiny_chunk = nd_of_f32s [1, 1] [f32_zero]"

lemma tiny_chunk_valid: "validate_actions cast tiny_spec tiny_chunk = Ok tiny_chunk"
  by (rule validate_actions_same)
    (simp_all add: tiny_chunk_def chunk_ok_def tiny_spec_def nd_isfinite_def f32_finite_def f32_exponent_def
      f32_zero_def)

text \<open>
  C19: No head hands an invalid chunk to the pipeline.  Whatever the injected
  callables return, and however heads are nested, a decode that returns gives a
  chunk of shape [action horizon, model action dimension] without NaN or
  infinity; and the pipeline returns it with the representation and the control
  period of its specification, counts one inference, and had checked the state
  shape and the cameras of the request.
\<close>

theorem pipeline_infer_contract:
  assumes "pipeline_infer nm clk encoder_fn t1 t2 request p = (p', Ok result)"
  shows "chunk_ok (pp_spec p) (br_actions result) \<and>
         br_representation result = ms_action_representation (pp_spec p) \<and>
         br_control_period_ns result = ms_control_period_ns (pp_spec p) \<and>
         pp_inference_count p' = Suc (pp_inference_count p) \<and>
         map int (nd_shape (rq_state request)) = [ms_model_state_dim (pp_spec p)] \<and>
         (\<forall>cam \<in> set (ms_camera_order (pp_spec p)). map_of (rq_images request) cam \<noteq> None)"
proof -
  obtain u where v: "validate_request (pp_spec p) request = Ok u"
    using assms by (auto simp: pipeline_infer_def split: res.splits)
  then have req: "map int (nd_shape (rq_state request)) = [ms_model_state_dim (pp_spec p)]"
      "missing_cameras (pp_spec p) request = []"
    by (auto simp: validate_request_def split: if_splits)
  from assms v obtain ctxt h a where
    d: "decode nm clk 0 ctxt (pp_spec p) (pp_head p) = (h, Ok a)"
    and r: "p' = p\<lparr>pp_head := h, pp_inference_count := Suc (pp_inference_count p)\<rparr>"
      "result = \<lparr>br_actions = a, br_representation = ms_action_representation (pp_spec p),
         br_control_period_ns = ms_control_period_ns (pp_spec p),
         br_timing = [(''encode_ms'', t1), (''decode_ms'', t2)]\<rparr>"
    by (auto simp: pipeline_infer_def split: res.splits option.splits prod.splits)
  have "chunk_ok (pp_spec p) a"
    using heads.decode_chunk [where h = "pp_head p" and c = "(clk, ctxt)" and spec = "pp_spec p"] d by fastforce
  with r req show ?thesis by (auto simp: missing_cameras_def filter_empty_conv)
qed

definition tiny_request :: infer_req where
  "tiny_request =
     \<lparr>rq_request_id = 1, rq_control_step = 0, rq_timestamp_ns = 0, rq_timeout_ms = Fin 100,
      rq_instruction = ''go'', rq_images = [(''head'', tiny_chunk)], rq_image_timestamps = [(''head'', 0)],
      rq_state = nd_of_f32s [1] [f32_zero]\<rparr>"

definition tiny_pipeline :: "(nat, unit) pipeline" where
  "tiny_pipeline =
     \<lparr>pp_spec = tiny_spec, pp_head = ParallelRegressionHead (Some (\<lambda>c s. Ok tiny_chunk)),
      pp_inference_count = 0\<rparr>"

theorem pipeline_infer_contract_witness:
  "\<exists>p' result. pipeline_infer const_numerics (\<lambda>n. Fin 0) (\<lambda>r. Ok (Some [])) (Fin 1) (Fin 1) tiny_request
       tiny_pipeline = (p', Ok result) \<and> chunk_ok tiny_spec (br_actions result)"
proof -
  have v: "validate_request tiny_spec tiny_request = Ok ()"
    by (simp add: validate_request_def missing_cameras_def tiny_spec_def tiny_request_def)
  obtain p' result where r: "pipeline_infer const_numerics (\<lambda>n. Fin 0) (\<lambda>r. Ok (Some [])) (Fin 1) (Fin 1)
      tiny_request tiny_pipeline = (p', Ok result)"
    by (simp add: pipeline_infer_def tiny_pipeline_def v validate_chunk_def tiny_chunk_valid)
  from pipeline_infer_contract [OF r] r show ?thesis by (auto simp: tiny_pipeline_def)
qed

text \<open>
  Token generation is bounded and faithful.  A successful autoregressive
  decode has drawn between one and \<open>max_tokens\<close> tokens, each the answer of the
  step function to the tokens before it, none of them the end token; the chunk
  is the detokenization of exactly these tokens, and their number is recorded.
\<close>

theorem autoregressive_bounded:
  assumes "decode nm clk d ctxt spec (AutoregressiveTokenHead (Some step) (Some detok) c k) = (h', Ok a)"
  shows "\<exists>tokens raw. tokens \<noteq> [] \<and> int (length tokens) \<le> max 0 (ar_max_tokens c) \<and>
           ar_last h' = length tokens \<and> detok tokens spec = Ok raw \<and>
           validate_chunk (nm_cast nm) raw spec ''autoregressive detokenizer'' = Ok a \<and>
           (\<forall>i < length tokens. step ctxt (take i tokens) = Ok (Some (tokens ! i)) \<and>
              Some (tokens ! i) \<noteq> ar_eos_token c)"
proof -
  from assms obtain tokens where
    t: "ar_loop (nat (ar_max_tokens c)) step ctxt (ar_eos_token c) [] = Ok tokens"
    by (auto split: res.splits prod.splits)
  from ar_loop_spec [OF t] have "length tokens \<le> nat (ar_max_tokens c)"
      "\<forall>i < length tokens. step ctxt (take i tokens) = Ok (Some (tokens ! i)) \<and>
         Some (tokens ! i) \<noteq> ar_eos_token c"
    by simp_all
  with assms t show ?thesis by (auto split: if_splits prod.splits)
qed

theorem autoregressive_bounded_witness:
  "\<exists>tokens raw. tokens \<noteq> [] \<and> int (length tokens) \<le> 3 \<and>
     (\<lambda>ts s. Ok tiny_chunk) tokens tiny_spec = Ok raw \<and> length tokens = 2"
proof -
  let ?step = "\<lambda>c ts. Ok (if length ts < 2 then Some 5 else None) :: int option res"
  let ?c = "\<lparr>ar_max_tokens = 3, ar_eos_token = None\<rparr>"
  have "decode const_numerics (\<lambda>n. Fin 0) 0 [] tiny_spec
      (AutoregressiveTokenHead (Some ?step) (Some (\<lambda>ts s. Ok tiny_chunk)) ?c 0) =
    (AutoregressiveTokenHead (Some ?step) (Some (\<lambda>ts s. Ok tiny_chunk)) ?c 2, Ok tiny_chunk)"
    by (simp add: eval_nat_numeral validate_chunk_def tiny_chunk_valid)
  from autoregressive_bounded [OF this] show ?thesis by auto
qed

text \<open>
  Thinking is decoupled from acting.  A dual-system decode calls the planner
  exactly when nothing was planned yet, the instruction differs from the planned
  one, or the refresh interval has elapsed; otherwise the result does not depend
  on the planner at all and the stored latent conditions the fast head.
\<close>

theorem dual_system_replans:
  assumes "decode nm clk d ctxt spec (DualSystemHead (Some plan) (Some fast) c st) =
             (DualSystemHead (Some plan) (Some fast') c st', r)"
    and "plan ctxt = Ok v"
  shows "if needs_replan (clk (2 * d)) c st ctxt
         then dst_calls st' = Suc (dst_calls st) \<and> dst_latent st' = Some v \<and>
              (\<forall>now ctxt'. map_of ctxt' (ds_instruction_key c) = map_of ctxt (ds_instruction_key c) \<longrightarrow>
                 \<not> pf_le (ds_refresh_interval_s c) (pf_sub now (clk (2 * d + 1))) \<longrightarrow>
                 \<not> needs_replan now c st' ctxt')
         else st' = st \<and> decode nm clk (Suc d) (condition (dst_latent st) ctxt) spec fast = (fast', r) \<and>
              (\<forall>plan'. decode nm clk d ctxt spec (DualSystemHead (Some plan') (Some fast) c st) =
                 (DualSystemHead (Some plan') (Some fast') c st, r))"
proof (cases "needs_replan (clk (2 * d)) c st ctxt")
  case True
  with assms show ?thesis
    by (auto simp: ds_replan_def needs_replan_def split: prod.splits)
next
  case False
  then have "ds_replan (clk (2 * d)) (clk (2 * d + 1)) p c ctxt st = Ok st" for p
    by (simp add: ds_replan_def)
  with False assms(1) show ?thesis by (auto split: prod.splits)
qed

theorem dual_system_replans_witness:
  "\<not> needs_replan (Fin 1) \<lparr>ds_refresh_interval_s = Fin 5, ds_instruction_key = ''instruction''\<rparr>
     \<lparr>dst_latent = Some 9, dst_instruction = Some 7, dst_time = Fin 0, dst_calls = 1\<rparr>
     [(''instruction'', 7 :: nat)]"
proof -
  let ?c = "\<lparr>ds_refresh_interval_s = Fin 5, ds_instruction_key = ''instruction''\<rparr>"
  let ?x = "[(''instruction'', 7 :: nat)]"
  let ?st = "\<lparr>dst_latent = Some 9, dst_instruction = Some 7, dst_time = Fin 0, dst_calls = 1\<rparr>"
  let ?h = "ParallelRegressionHead (Some (\<lambda>c s. Ok tiny_chunk)) :: (nat, unit) head"
  have d: "decode const_numerics (\<lambda>n. Fin 0) 0 ?x tiny_spec (DualSystemHead (Some (\<lambda>x. Ok 9)) (Some ?h) ?c ds_state_init) =
      (DualSystemHead (Some (\<lambda>x. Ok 9)) (Some ?h) ?c ?st, Ok tiny_chunk)"
    by (simp add: ds_replan_def needs_replan_def ds_state_init_def validate_chunk_def tiny_chunk_valid)
  have "needs_replan (Fin 0) ?c (ds_state_init :: nat ds_state) ?x"
    by (simp add: needs_replan_def ds_state_init_def)
  with dual_system_replans [OF d, of 9] show ?thesis by simp
qed

text \<open>
  Reset restores the initial behaviour.  However many chunks a head made by
  \<open>create_head\<close> has decoded, successfully or not, \<open>reset\<close> brings it back to the
  state it was created in (for flow matching, with a seed, so that its samples
  repeat); and its paradigm is the kind that was asked for.
\<close>

theorem head_reset_restores:
  assumes "create_head nm show_val kind fns config = Ok h" and "seeded h"
  shows "head_reset nm (heads.decode_each nm cs spec h) = h \<and> paradigm h = kind"
  using heads.reset_each [of nm cs spec h] create_head_fresh [OF assms(1)] create_head_paradigm [OF assms(1)]
  by simp

theorem head_reset_restores_witness:
  "\<exists>h. create_head const_numerics (\<lambda>v. []) ''dual_system''
         \<lparr>hf_step = None, hf_detokenize = None, hf_regress = Some (\<lambda>c s. Ok tiny_chunk), hf_velocity = None,
          hf_plan = Some (\<lambda>c. Ok (1 :: nat))\<rparr>
         [(PStr ''fast'', PDict [(PStr ''kind'', PStr ''regression'')])] = Ok h \<and>
       head_reset const_numerics (heads.decode_each const_numerics [(\<lambda>n. Fin 0, [])] tiny_spec h) = h"
proof -
  obtain h where h: "create_head const_numerics (\<lambda>v. []) ''dual_system''
         \<lparr>hf_step = None, hf_detokenize = None, hf_regress = Some (\<lambda>c s. Ok tiny_chunk), hf_velocity = None,
          hf_plan = Some (\<lambda>c. Ok (1 :: nat))\<rparr>
         [(PStr ''fast'', PDict [(PStr ''kind'', PStr ''regression'')])] = Ok h" and "seeded h"
    by (simp add: create_head.simps fast_config.simps dget_or_def without_kind_def py_str_def
        ds_config_post_init_def)
  with head_reset_restores [OF this, of "[(\<lambda>n. Fin 0, [])]" tiny_spec] show ?thesis by blast
qed

end
