(* ===== verification/Mock_Model.thy ===== *)
theory Mock_Model
  imports Action_Head_Props Scheduler_Props
begin

text \<open>
  The mock model of \<open>models/mock/\<close>: a backend that answers with a function of the
  state, and a batching runner for the scheduler.  \<open>np.tanh\<close> on \<open>float32\<close> is the
  parameter \<open>tanh32\<close>.
\<close>

definition mock_spec :: "(pyval \<Rightarrow> string) \<Rightarrow> pydict \<Rightarrow> model_spec res" where
  "mock_spec show_val config =
     res_bind (py_int (dget_or config ''model_state_dim'' (dget_or config ''state_dim'' (PInt 14)))) (\<lambda>sd.
     res_bind (py_int (dget_or config ''model_action_dim'' (dget_or config ''action_dim'' (PInt 14)))) (\<lambda>ad.
     res_bind (py_int (dget_or config ''raw_state_dim'' (PInt sd))) (\<lambda>rs.
     res_bind (py_int (dget_or config ''raw_action_dim'' (PInt ad))) (\<lambda>ra.
     res_bind (py_int (dget_or config ''action_horizon'' (PInt 8))) (\<lambda>hz.
     res_bind (camera_names (dget_or config ''camera_order''
                 (PList [PStr ''head'', PStr ''left_wrist'', PStr ''right_wrist'']))) (\<lambda>cams.
     res_bind (py_int (dget_or config ''control_period_ns'' (PInt 20000000))) (\<lambda>per.
       model_spec_post_init
         \<lparr>ms_name = py_str show_val (dget_or config ''model_name'' (PStr ''mock-vla'')), ms_backend = ''mock'',
          ms_raw_state_dim = rs, ms_model_state_dim = sd, ms_raw_action_dim = ra, ms_model_action_dim = ad,
          ms_action_horizon = hz, ms_camera_order = cams, ms_action_representation = ''absolute'',
          ms_control_period_ns = per, ms_extras = []\<rparr>)))))))"

text \<open>\<open>np.resize\<close> repeats the values cyclically (zeros when there are none).\<close>

definition np_resize :: "nat \<Rightarrow> f32 list \<Rightarrow> f32 list" where
  "np_resize n xs = (if xs = [] then replicate n f32_zero else map (\<lambda>i. xs ! (i mod length xs)) [0 ..< n])"

definition mock_actions :: "(f32 \<Rightarrow> f32) \<Rightarrow> model_spec \<Rightarrow> infer_req \<Rightarrow> ndarray" where
  "mock_actions tanh32 spec request =
     (let target = np_resize (nat (ms_model_action_dim spec)) (map tanh32 (nd_f32s (rq_state request)))
      in nd_of_f32s [nat (ms_action_horizon spec), nat (ms_model_action_dim spec)]
           (concat (replicate (nat (ms_action_horizon spec)) target)))"

definition mock_infer ::
    "(dtype \<Rightarrow> ndarray \<Rightarrow> ndarray res) \<Rightarrow> (f32 \<Rightarrow> f32) \<Rightarrow> model_spec \<Rightarrow> infer_req \<Rightarrow> backend_result res" where
  "mock_infer cast tanh32 spec request =
     res_bind (validate_request spec request) (\<lambda>_.
     res_bind (validate_actions cast spec (mock_actions tanh32 spec request)) (\<lambda>a.
       Ok \<lparr>br_actions = a, br_representation = ms_action_representation spec,
           br_control_period_ns = ms_control_period_ns spec, br_timing = []\<rparr>))"

text \<open>The runner's state is the list of batch sizes it has seen.\<close>

definition mock_execute ::
    "(dtype \<Rightarrow> ndarray \<Rightarrow> ndarray res) \<Rightarrow> (f32 \<Rightarrow> f32) \<Rightarrow> model_spec \<Rightarrow> nat list \<Rightarrow>
     infer_req inference_request list \<Rightarrow> nat list \<times> backend_result list res" where
  "mock_execute cast tanh32 spec sizes batch =
     (sizes @ [length batch],
      mapM (\<lambda>r. mock_infer cast tanh32 spec (pl_body (as_backend_request r))) batch)"

section \<open>Lemmas\<close>

lemma length_np_resize [simp]: "length (np_resize n xs) = n"
  by (simp add: np_resize_def)

lemma set_np_resize: "set (np_resize n xs) \<subseteq> insert f32_zero (set xs)"
  by (auto simp: np_resize_def)

lemma mock_chunk_ok:
  assumes "model_spec_wf spec" and "\<And>x. f32_finite (tanh32 x)"
  shows "chunk_ok spec (mock_actions tanh32 spec request)"
proof -
  have "f32_finite x" if "x \<in> set (np_resize n (map tanh32 xs))" for x n xs
    using that set_np_resize [of n "map tanh32 xs"] assms(2) by auto
  with assms(1) show ?thesis
    by (auto simp: chunk_ok_def mock_actions_def Let_def nd_isfinite_def list_all_iff model_spec_wf_def)
qed

definition mock_answers ::
    "(dtype \<Rightarrow> ndarray \<Rightarrow> ndarray res) \<Rightarrow> (f32 \<Rightarrow> f32) \<Rightarrow> model_spec \<Rightarrow>
     infer_req inference_request \<Rightarrow> backend_result \<Rightarrow> bool" where
  "mock_answers cast tanh32 spec r out = (mock_infer cast tanh32 spec (pl_body (as_backend_request r)) = Ok out)"

interpretation mock: request_runner "mock_execute cast tanh32 spec" "mock_answers cast tanh32 spec"
    for cast tanh32 spec
  by unfold_locales
    (auto simp: mock_execute_def mapM_eq_Ok mock_answers_def elim: list_all2_mono)

section \<open>Properties\<close>

text \<open>
  The mock backend serves exactly the requests its contract admits: with a
  valid specification and a \<open>tanh\<close> that yields finite numbers, it returns a result
  if and only if the state has the right shape and every camera is present, and
  then every row of the chunk is the cyclically repeated \<open>tanh\<close> of the state.
\<close>

theorem mock_infer_exact:
  assumes "model_spec_wf spec" and "\<And>x. f32_finite (tanh32 x)"
  shows "mock_infer cast tanh32 spec request = Ok out \<longleftrightarrow>
    map int (nd_shape (rq_state request)) = [ms_model_state_dim spec] \<and>
    (\<forall>cam \<in> set (ms_camera_order spec). map_of (rq_images request) cam \<noteq> None) \<and>
    out = \<lparr>br_actions = mock_actions tanh32 spec request,
           br_representation = ms_action_representation spec,
           br_control_period_ns = ms_control_period_ns spec, br_timing = []\<rparr>"
proof -
  have "nd_dtype (mock_actions tanh32 spec request) = DF32" by (simp add: mock_actions_def Let_def)
  from validate_actions_same [OF this mock_chunk_ok [OF assms]]
  have "validate_actions cast spec (mock_actions tanh32 spec request) = Ok (mock_actions tanh32 spec request)" .
  then show ?thesis
    by (auto simp: mock_infer_def validate_request_def missing_cameras_def filter_empty_conv split: if_splits)
qed

lemma tiny_spec_wf: "model_spec_wf tiny_spec"
  by (simp add: model_spec_wf_def tiny_spec_def)

theorem mock_infer_exact_witness:
  "mock_infer (\<lambda>d a. Ok a) (\<lambda>x. f32_one) tiny_spec tiny_request =
     Ok \<lparr>br_actions = mock_actions (\<lambda>x. f32_one) tiny_spec tiny_request,
         br_representation = ''absolute'', br_control_period_ns = 0, br_timing = []\<rparr>"
  by (subst mock_infer_exact [OF tiny_spec_wf]) (simp_all add: tiny_spec_def tiny_request_def)

text \<open>
  C20: Batching is invisible to the clients of the mock model: in every
  interleaving of the scheduler with the batching runner, a future that holds a
  result holds the answer of the mock backend to its own request, and the chunk
  satisfies the model's contract.
\<close>

theorem mock_scheduled_answers:
  assumes "batch_policy_post_init p = Ok p"
    and "sched_reach (mock_execute cast tanh32 spec) (sched_init p now []) s"
    and "i < sc_next s" and "sc_futures s i = FResult out"
  shows "\<exists>r. sc_requests s i = Some r \<and> mock_infer cast tanh32 spec (pl_body (ir_payload r)) = Ok out \<and>
           chunk_ok spec (br_actions out)"
proof -
  obtain r where r: "sc_requests s i = Some r" "mock_answers cast tanh32 spec r out"
    using mock.results_answer [OF assms(2) _ assms(3,4)] valid_policy_ok [OF assms(1)] by blast
  then have "mock_infer cast tanh32 spec (pl_body (ir_payload r)) = Ok out"
    by (simp add: mock_answers_def as_backend_request_def)
  moreover from this have "chunk_ok spec (br_actions out)"
    by (auto simp: mock_infer_def dest: validate_actions_Ok)
  ultimately show ?thesis using r(1) by blast
qed

definition mock_envelope :: "infer_req inference_request" where
  "mock_envelope =
     \<lparr>ir_payload = \<lparr>pl_request_id = Some (PInt 1), pl_timeout_ms = None, pl_body = tiny_request\<rparr>,
      ir_deadline = None\<rparr>"

definition mock_sched :: "(infer_req, backend_result, nat list) sched" where
  "mock_sched = worker_iter (mock_execute (\<lambda>d a. Ok a) (\<lambda>x. f32_one) tiny_spec) 7
     (submit_put (mock_envelope\<lparr>ir_deadline := Some PInf\<rparr>) (sched_init default_batch_policy 0 []))"

lemma mock_sched_reach:
  "sched_reach (mock_execute (\<lambda>d a. Ok a) (\<lambda>x. f32_one) tiny_spec) (sched_init default_batch_policy 0 []) mock_sched"
  unfolding mock_sched_def
proof (rule worker_iter_reach, rule client_reach [OF reach_refl c_put])
  show "submit_envelope (sc_now (sched_init default_batch_policy 0 [])) (SubRequest mock_envelope) (Some PInf) =
      Ok (mock_envelope\<lparr>ir_deadline := Some PInf\<rparr>)"
    by (simp add: submit_envelope_def)
qed (simp add: sched_init_def default_batch_policy_def)

lemma mock_tiny_answer:
  "mock_infer (\<lambda>d a. Ok a) (\<lambda>x. f32_one) tiny_spec tiny_request =
     Ok \<lparr>br_actions = mock_actions (\<lambda>x. f32_one) tiny_spec tiny_request,
         br_representation = ms_action_representation tiny_spec,
         br_control_period_ns = ms_control_period_ns tiny_spec, br_timing = []\<rparr>"
proof -
  have "nd_dtype (mock_actions (\<lambda>x. f32_one) tiny_spec tiny_request) = DF32"
    by (simp add: mock_actions_def Let_def)
  from validate_actions_same [OF this mock_chunk_ok [OF tiny_spec_wf]] show ?thesis
    by (simp add: mock_infer_def) (simp add: validate_request_def missing_cameras_def tiny_spec_def tiny_request_def)
qed

theorem mock_scheduled_answers_witness:
  "\<exists>r out. sc_requests mock_sched 0 = Some r \<and> sc_futures mock_sched 0 = FResult out \<and>
     chunk_ok tiny_spec (br_actions out)"
proof -
  obtain out where f: "sc_futures mock_sched 0 = FResult out" and n: "sc_next mock_sched = 1"
    by (simp add: mock_sched_def eval_nat_numeral submit_put_def sched_init_def worker_next_def collecting_def
        batch_remaining_def default_batch_policy_def deadline_passed_def mock_envelope_def worker_execute_def
        mock_execute_def as_backend_request_def set_future_def mock_tiny_answer)
  from mock_scheduled_answers [OF default_policy_valid mock_sched_reach _ f] n f show ?thesis by auto
qed

end
