(* ===== verification/Server.thy ===== *)
theory Server
  imports Protocol
begin

text \<open>
  The WebSocket handler of \<open>server.py\<close>.  A connection is the list of payloads the
  client sends; the handler's output is the list of payloads it sends back.
  The backend (state \<open>'s\<close>, metadata, \<open>infer\<close>, \<open>reset\<close>) is a parameter, and so is
  the outcome of handing a request to the scheduler and waiting for its future,
  which the theory of the scheduler describes.  The readings of the clocks that
  one payload causes are a record.  \<open>BaseException\<close>s other than \<open>Exception\<close> and
  the printing of tracebacks are left out.
\<close>

section \<open>State\<close>

record 's server_env =
  se_metadata :: "'s \<Rightarrow> pydict"
  se_infer :: "'s \<Rightarrow> infer_req \<Rightarrow> 's \<times> backend_result res"
  se_reset :: "'s \<Rightarrow> 's \<times> unit res"
  se_scheduler :: "('s \<Rightarrow> infer_req \<Rightarrow> pyfloat \<Rightarrow> pyfloat \<Rightarrow> 's \<times> backend_result res) option"
  se_cast :: "dtype \<Rightarrow> ndarray \<Rightarrow> ndarray res"
  se_packb :: "pyval \<Rightarrow> byte list res"
  se_unpackb :: "byte list \<Rightarrow> pyval res"

record 's server =
  sv_backend :: 's
  sv_requests_total :: nat
  sv_requests_failed :: nat

text \<open>Clock readings in the order the handler takes them (seconds).\<close>

record clock =
  ck_uptime :: real
  ck_started :: real
  ck_queued :: real
  ck_monotonic :: real
  ck_guarded :: real
  ck_inferred :: real
  ck_finished :: real

section \<open>Operations\<close>

definition health :: "'s server_env \<Rightarrow> clock \<Rightarrow> 's server \<Rightarrow> pydict" where
  "health env ck s =
     [(PStr ''protocol'', PStr ''embodied-infer/1''), (PStr ''type'', PStr ''health''),
      (PStr ''status'', PStr ''ready''), (PStr ''uptime_ms'', PFloat (Fin (ck_uptime ck * 1000))),
      (PStr ''requests_total'', PInt (int (sv_requests_total s))),
      (PStr ''requests_failed'', PInt (int (sv_requests_failed s))),
      (PStr ''metadata'', PDict (se_metadata env (sv_backend s)))]"

definition metadata_int :: "pydict \<Rightarrow> string \<Rightarrow> string \<Rightarrow> int res" where
  "metadata_int metadata key alias = py_int (dget_or metadata key (dget_or metadata alias (PInt (-1))))"

definition validate_state_shape :: "pydict \<Rightarrow> infer_req \<Rightarrow> unit res" where
  "validate_state_shape metadata request =
     res_bind (metadata_int metadata ''model_state_dim'' ''state_dim'') (\<lambda>state_dim.
       if map int (nd_shape (rq_state request)) \<noteq> [state_dim]
       then Err (ProtocolError ''wire state has the wrong shape'') else Ok ())"

definition validate_action_shape :: "pydict \<Rightarrow> ndarray \<Rightarrow> unit res" where
  "validate_action_shape metadata actions =
     res_bind (metadata_int metadata ''model_action_dim'' ''action_dim'') (\<lambda>action_dim.
     res_bind (py_int (dget_or metadata ''action_horizon'' (PInt (-1)))) (\<lambda>horizon.
       if map int (nd_shape actions) \<noteq> [horizon, action_dim]
       then Err (RuntimeError ''backend actions have the wrong shape'') else Ok ()))"

definition validate_shapes :: "pydict \<Rightarrow> infer_req \<Rightarrow> ndarray option \<Rightarrow> unit res" where
  "validate_shapes metadata request actions =
     res_bind (validate_state_shape metadata request) (\<lambda>_.
       case actions of None \<Rightarrow> Ok () | Some a \<Rightarrow> validate_action_shape metadata a)"

text \<open>\<open>started + timeout_ms / 1000\<close>\<close>

fun deadline_of :: "real \<Rightarrow> pyfloat \<Rightarrow> pyfloat" where
  "deadline_of started (Fin t) = Fin (started + t / 1000)"
| "deadline_of started t = t"

text \<open>The inference itself: through the scheduler, or guarded by the backend lock.\<close>

definition run_inference ::
    "'s server_env \<Rightarrow> clock \<Rightarrow> infer_req \<Rightarrow> 's \<Rightarrow> 's \<times> backend_result res" where
  "run_inference env ck request b =
     (let deadline = deadline_of (ck_started ck) (rq_timeout_ms request)
      in case se_scheduler env of
           Some submit \<Rightarrow>
             (let remaining = pf_sub deadline (Fin (ck_monotonic ck))
              in if pf_le remaining (Fin 0)
                 then (b, Err (TimeoutError ''request deadline expired in server queue''))
                 else submit b request deadline remaining)
         | None \<Rightarrow>
             (if pf_le deadline (Fin (ck_guarded ck))
              then (b, Err (TimeoutError ''request deadline expired in server queue''))
              else se_infer env b request))"

text \<open>\<open>timing.update(...)\<close>, as floats.\<close>

fun timing_put :: "string \<Rightarrow> pyfloat \<Rightarrow> (string \<times> pyfloat) list \<Rightarrow> (string \<times> pyfloat) list" where
  "timing_put k v [] = [(k, v)]"
| "timing_put k v ((k', v') # t) = (if k' = k then (k, v) # t else (k', v') # timing_put k v t)"

definition server_timing :: "clock \<Rightarrow> (string \<times> pyfloat) list \<Rightarrow> (string \<times> pyfloat) list" where
  "server_timing ck timing =
     timing_put ''server_total_ms'' (Fin ((ck_finished ck - ck_started ck) * 1000))
       (timing_put ''server_queue_ms'' (Fin ((ck_queued ck - ck_started ck) * 1000)) timing)"

text \<open>The body of the \<open>try\<close> for an inference request.\<close>

definition serve_infer :: "'s server_env \<Rightarrow> clock \<Rightarrow> pydict \<Rightarrow> 's \<Rightarrow> 's \<times> pydict res" where
  "serve_infer env ck message b =
     (case parse_infer_request message of
        Err e \<Rightarrow> (b, Err e)
      | Ok request \<Rightarrow>
          (case validate_shapes (se_metadata env b) request None of
             Err e \<Rightarrow> (b, Err e)
           | Ok _ \<Rightarrow>
               (case run_inference env ck request b of
                  (b', Err e) \<Rightarrow> (b', Err e)
                | (b', Ok result) \<Rightarrow>
                    (b', if pf_le (deadline_of (ck_started ck) (rq_timeout_ms request)) (Fin (ck_inferred ck))
                         then Err (TimeoutError ''request deadline expired during inference'')
                         else res_bind (validate_shapes (se_metadata env b') request (Some (br_actions result)))
                           (\<lambda>_. make_action_response (se_cast env) request (br_actions result)
                                  (br_representation result) (br_control_period_ns result)
                                  (server_timing ck (br_timing result)))))))"

fun error_code :: "pyerr \<Rightarrow> string" where
  "error_code (ProtocolError m) = ''invalid_request''"
| "error_code (TimeoutError m) = ''deadline_exceeded''"
| "error_code _ = ''backend_error''"

text \<open>\<open>str(exc)\<close>; that of a \<open>KeyError\<close> quotes the key.\<close>

fun error_text :: "pyerr \<Rightarrow> string" where
  "error_text (ProtocolError m) = m"
| "error_text (ValueError m) = m"
| "error_text (TypeError m) = m"
| "error_text (KeyError m) = [CHR 0x27] @ m @ [CHR 0x27]"
| "error_text (IndexError m) = m"
| "error_text (RuntimeError m) = m"
| "error_text (TimeoutError m) = m"
| "error_text (OverflowError m) = m"
| "error_text (NotImplementedError m) = m"
| "error_text (ConnectionError m) = m"
| "error_text (ActionHeadUnavailableError m) = m"
| "error_text (InvalidStateError m) = m"
| "error_text (AttributeError m) = m"

definition reset_ok :: pydict where
  "reset_ok = [(PStr ''protocol'', PStr ''embodied-infer/1''), (PStr ''type'', PStr ''reset_ok'')]"

text \<open>
  The body of the \<open>try\<close>: the reply to health and reset messages is encoded and
  sent inside it (\<open>Inl\<close>), the response to an inference request after it (\<open>Inr\<close>).
  With the exception goes the request identifier read so far.
\<close>

definition try_payload ::
    "'s server_env \<Rightarrow> clock \<Rightarrow> byte list \<Rightarrow> 's server \<Rightarrow> 's server \<times> int \<times> (byte list + pydict) res" where
  "try_payload env ck payload s =
     (case decode_message (se_unpackb env) payload of
        Err e \<Rightarrow> (s, 0, Err e)
      | Ok message \<Rightarrow>
          (case py_int (dget_or message ''request_id'' (PInt 0)) of
             Err e \<Rightarrow> (s, 0, Err e)
           | Ok request_id \<Rightarrow>
               (if dget_none message ''type'' = PStr ''health''
                then (s, request_id, res_bind (encode_message (se_packb env) (health env ck s)) (\<lambda>r. Ok (Inl r)))
                else if dget_none message ''type'' = PStr ''reset''
                then (case se_reset env (sv_backend s) of
                        (b, Err e) \<Rightarrow> (s\<lparr>sv_backend := b\<rparr>, request_id, Err e)
                      | (b, Ok _) \<Rightarrow>
                          (s\<lparr>sv_backend := b\<rparr>, request_id,
                           res_bind (encode_message (se_packb env) reset_ok) (\<lambda>r. Ok (Inl r))))
                else (case serve_infer env ck message (sv_backend s) of
                        (b, Err e) \<Rightarrow> (s\<lparr>sv_backend := b\<rparr>, request_id, Err e)
                      | (b, Ok response) \<Rightarrow>
                          (s\<lparr>sv_backend := b, sv_requests_total := Suc (sv_requests_total s)\<rparr>,
                           request_id, Ok (Inr response))))))"

text \<open>One turn of the loop: the new state and the reply, or the exception that ends the handler.\<close>

definition handle_payload ::
    "'s server_env \<Rightarrow> clock \<Rightarrow> byte list \<Rightarrow> 's server \<Rightarrow> 's server \<times> byte list res" where
  "handle_payload env ck payload s =
     (case try_payload env ck payload s of
        (s', _, Ok (Inl reply)) \<Rightarrow> (s', Ok reply)
      | (s', _, Ok (Inr response)) \<Rightarrow> (s', encode_message (se_packb env) response)
      | (s', request_id, Err e) \<Rightarrow>
          (s'\<lparr>sv_requests_failed := Suc (sv_requests_failed s')\<rparr>,
           encode_message (se_packb env) (make_error (error_text e) request_id (error_code e))))"

fun handle_loop ::
    "'s server_env \<Rightarrow> (clock \<times> byte list) list \<Rightarrow> 's server \<Rightarrow> 's server \<times> byte list list \<times> unit res" where
  "handle_loop env [] s = (s, [], Ok ())"
| "handle_loop env ((ck, payload) # rest) s =
     (case handle_payload env ck payload s of
        (s', Err e) \<Rightarrow> (s', [], Err e)
      | (s', Ok reply) \<Rightarrow>
          (case handle_loop env rest s' of (s'', replies, r) \<Rightarrow> (s'', reply # replies, r)))"

text \<open>A connection: the close code \<open>1008\<close> for a wrong key, or the messages sent.\<close>

datatype 's connection = Unauthorized 's | Served 's "byte list list" "unit res"

definition handler ::
    "'s server_env \<Rightarrow> string option \<Rightarrow> string option \<Rightarrow> (clock \<times> byte list) list \<Rightarrow> 's server \<Rightarrow>
     's server connection" where
  "handler env api_key authorization payloads s =
     (if (case api_key of None \<Rightarrow> False | Some k \<Rightarrow> k \<noteq> [] \<and> authorization \<noteq> Some (''Bearer '' @ k))
      then Unauthorized s
      else case encode_message (se_packb env) (make_hello (se_metadata env (sv_backend s))) of
          Err e \<Rightarrow> Served s [] (Err e)
        | Ok hello \<Rightarrow>
            (case handle_loop env payloads s of (s', replies, r) \<Rightarrow> Served s' (hello # replies) r))"

section \<open>Lemmas\<close>

lemma handle_payload_counts:
  assumes "handle_payload env ck payload s = (s', r)"
  shows "(sv_requests_total s', sv_requests_failed s') \<in>
    {(sv_requests_total s, sv_requests_failed s), (Suc (sv_requests_total s), sv_requests_failed s),
     (sv_requests_total s, Suc (sv_requests_failed s))}"
  using assms
  by (auto simp: handle_payload_def try_payload_def split: res.splits prod.splits sum.splits if_splits)

lemma handle_payload_Err:
  assumes "handle_payload env ck payload s = (s', Err e)"
  shows "\<exists>m. encode_message (se_packb env) m = Err e"
  using assms
  by (auto simp: handle_payload_def split: res.splits prod.splits sum.splits)

lemma serve_infer_Ok:
  assumes "serve_infer env ck message b = (b', Ok response)"
  obtains request result where "parse_infer_request message = Ok request"
    and "validate_shapes (se_metadata env b) request None = Ok ()"
    and "run_inference env ck request b = (b', Ok result)"
    and "\<not> pf_le (deadline_of (ck_started ck) (rq_timeout_ms request)) (Fin (ck_inferred ck))"
    and "validate_shapes (se_metadata env b') request (Some (br_actions result)) = Ok ()"
    and "make_action_response (se_cast env) request (br_actions result) (br_representation result)
           (br_control_period_ns result) (server_timing ck (br_timing result)) = Ok response"
  using assms by (auto simp: serve_infer_def split: res.splits prod.splits if_splits)

text \<open>The shapes a backend's metadata announces.\<close>

definition announced :: "pydict \<Rightarrow> int \<Rightarrow> int \<Rightarrow> int \<Rightarrow> bool" where
  "announced metadata sd hz ad =
     (metadata_int metadata ''model_state_dim'' ''state_dim'' = Ok sd \<and>
      metadata_int metadata ''model_action_dim'' ''action_dim'' = Ok ad \<and>
      py_int (dget_or metadata ''action_horizon'' (PInt (-1))) = Ok hz)"

lemma spec_announced:
  "announced (spec_metadata spec) (ms_model_state_dim spec) (ms_action_horizon spec) (ms_model_action_dim spec)"
proof -
  have f: "dget (spec_metadata spec) ''model_state_dim'' = Some (PInt (ms_model_state_dim spec))"
      "dget (spec_metadata spec) ''model_action_dim'' = Some (PInt (ms_model_action_dim spec))"
      "dget (spec_metadata spec) ''action_horizon'' = Some (PInt (ms_action_horizon spec))"
    by (rule spec_metadata_field, simp add: spec_fields_def)+
  then show ?thesis by (simp add: announced_def metadata_int_def dget_or_def)
qed

lemma validate_shapes_announced:
  "announced metadata sd hz ad \<Longrightarrow>
     (validate_shapes metadata request None = Ok ()) = (map int (nd_shape (rq_state request)) = [sd]) \<and>
     (validate_shapes metadata request (Some a) = Ok ()) =
       (map int (nd_shape (rq_state request)) = [sd] \<and> map int (nd_shape a) = [hz, ad])"
  by (auto simp: validate_shapes_def validate_state_shape_def validate_action_shape_def announced_def
      split: if_splits)

text \<open>Two backends that agree on the requests the checks admit cannot be told apart.\<close>

lemma run_inference_cong:
  assumes "se_infer env b request = se_infer env' b request"
    and "\<And>d r. map_option (\<lambda>f. f b request d r) (se_scheduler env) =
               map_option (\<lambda>f. f b request d r) (se_scheduler env')"
  shows "run_inference env ck request b = run_inference env' ck request b"
proof (cases "se_scheduler env")
  case None
  with assms(2) have "se_scheduler env' = None" by simp
  with None assms(1) show ?thesis by (simp add: run_inference_def)
next
  case (Some f)
  with assms(2) obtain g where "se_scheduler env' = Some g" and "\<And>d r. f b request d r = g b request d r"
    by (cases "se_scheduler env'") auto
  with Some show ?thesis by (simp add: run_inference_def Let_def)
qed

section \<open>A sample deployment\<close>

text \<open>The message a client sends for the sample request, and a server whose backend answers it.\<close>

definition sample_message :: pydict where
  "sample_message =
     (case make_infer_request (\<lambda>d a. Ok a) 3 0 5 ''go'' [(''head'', sample_image, 5)] sample_state (Fin 250) of
        Ok m \<Rightarrow> m | Err _ \<Rightarrow> [])"

lemma sample_sendable: "sendable 3 0 5 ''go'' [(''head'', sample_image, 5)] sample_state (Fin 250)"
  using sample_state_ok sample_image_ok
  by (simp add: sendable_def MAX_INSTRUCTION_BYTES_def timeout_ok_def MAX_TIMEOUT_MS_def MAX_IMAGES_def)

lemma sample_message_parses:
  "make_infer_request (\<lambda>d a. Ok a) 3 0 5 ''go'' [(''head'', sample_image, 5)] sample_state (Fin 250) =
     Ok sample_message"
  "parse_infer_request sample_message = Ok sample_request"
  "dget sample_message ''request_id'' = Some (PInt 3)"
  "dget sample_message ''protocol'' = Some (PStr PROTOCOL_VERSION)"
proof -
  obtain m where m: "make_infer_request (\<lambda>d a. Ok a) 3 0 5 ''go'' [(''head'', sample_image, 5)]
      sample_state (Fin 250) = Ok m"
    using make_infer_request_sendable [OF sample_sendable] by blast
  then have eq: "sample_message = m" by (simp add: sample_message_def)
  then show "make_infer_request (\<lambda>d a. Ok a) 3 0 5 ''go'' [(''head'', sample_image, 5)]
      sample_state (Fin 250) = Ok sample_message"
    using m by simp
  show "parse_infer_request sample_message = Ok sample_request"
    unfolding sample_request_def eq
    using sample_sendable by (intro parse_make_infer_request [OF m]) (auto simp: sendable_def)
  from m show "dget sample_message ''request_id'' = Some (PInt 3)"
      "dget sample_message ''protocol'' = Some (PStr PROTOCOL_VERSION)"
    unfolding eq by (auto simp: make_infer_request_def split: if_splits)
qed

definition sample_metadata :: pydict where
  "sample_metadata =
     [(PStr ''state_dim'', PInt 2), (PStr ''action_dim'', PInt 2), (PStr ''action_horizon'', PInt 1)]"

definition sample_env :: "ndarray \<Rightarrow> nat server_env" where
  "sample_env chunk =
     \<lparr>se_metadata = (\<lambda>b. sample_metadata),
      se_infer = (\<lambda>b request. (Suc b, Ok \<lparr>br_actions = chunk, br_representation = ''delta'',
                                        br_control_period_ns = 20, br_timing = []\<rparr>)),
      se_reset = (\<lambda>b. (0, Ok ())), se_scheduler = None, se_cast = (\<lambda>d a. Ok a),
      se_packb = (\<lambda>v. Ok []), se_unpackb = (\<lambda>p. Ok (PDict sample_message))\<rparr>"

definition sample_clock :: clock where
  "sample_clock = \<lparr>ck_uptime = 5, ck_started = 1, ck_queued = 1, ck_monotonic = 1, ck_guarded = 1,
     ck_inferred = 1, ck_finished = 1\<rparr>"

lemma sample_announced: "announced sample_metadata 2 1 2"
  by (simp add: announced_def metadata_int_def sample_metadata_def dget_or_def)

lemma sample_request_fields [simp]:
  "rq_state sample_request = sample_state" "rq_timeout_ms sample_request = Fin 250"
  "rq_request_id sample_request = 3" "rq_control_step sample_request = 0"
  by (simp_all add: sample_request_def received_request_def)

lemma sample_state_shape [simp]: "nd_shape sample_state = [2]"
  by (simp add: sample_state_def)

lemma sample_request_admitted:
  "validate_shapes sample_metadata sample_request None = Ok ()"
  "nd_shape a = [1, 2] \<Longrightarrow> validate_shapes sample_metadata sample_request (Some a) = Ok ()"
  using validate_shapes_announced [OF sample_announced, of sample_request a] by simp_all

lemma sample_run:
  "run_inference (sample_env chunk) sample_clock sample_request b =
     (Suc b, Ok \<lparr>br_actions = chunk, br_representation = ''delta'', br_control_period_ns = 20, br_timing = []\<rparr>)"
  by (simp add: run_inference_def sample_env_def sample_clock_def)

section \<open>Properties\<close>


text \<open>
  C17: The backend is shielded.  Whatever bytes a client sends, the backend's
  \<open>infer\<close> (or the scheduler) is consulted only on requests that satisfy every
  limit of the protocol and have the announced state dimension: two servers
  whose backends agree on such requests behave identically.
\<close>

theorem server_shields_backend:
  assumes "\<And>b request. infer_req_wf request \<Longrightarrow>
             validate_state_shape (se_metadata env b) request = Ok () \<Longrightarrow>
             se_infer env' b request = se_infer env b request"
    and "\<And>b request d r. infer_req_wf request \<Longrightarrow>
             validate_state_shape (se_metadata env b) request = Ok () \<Longrightarrow>
             map_option (\<lambda>submit. submit b request d r) (se_scheduler env') =
             map_option (\<lambda>submit. submit b request d r) (se_scheduler env)"
  shows "handle_loop (env\<lparr>se_infer := se_infer env', se_scheduler := se_scheduler env'\<rparr>) payloads s =
         handle_loop env payloads s"
proof -
  let ?e = "env\<lparr>se_infer := se_infer env', se_scheduler := se_scheduler env'\<rparr>"
  have serve: "serve_infer ?e ck message b = serve_infer env ck message b" for ck message b
  proof (cases "parse_infer_request message")
    case (Ok request)
    note wf = parse_infer_request_wf [OF Ok]
    show ?thesis
    proof (cases "validate_state_shape (se_metadata env b) request")
      case v: (Ok u)
      have "run_inference ?e ck request b = run_inference env ck request b"
        using assms(1) [OF wf, of b] assms(2) [OF wf, of b] v by (intro run_inference_cong) simp_all
      with Ok v show ?thesis
        by (simp add: serve_infer_def validate_shapes_def split: prod.splits res.splits)
    qed (simp add: serve_infer_def Ok validate_shapes_def)
  qed (simp add: serve_infer_def)
  have "try_payload ?e ck payload s = try_payload env ck payload s" for ck payload s
    by (cases "decode_message (se_unpackb env) payload")
      (simp_all add: try_payload_def serve health_def split: res.split)
  then have step: "handle_payload ?e ck payload s = handle_payload env ck payload s" for ck payload s
    unfolding handle_payload_def by simp
  show ?thesis
  proof (induction payloads arbitrary: s)
    case (Cons p rest)
    then show ?case by (cases p) (auto simp: step split: res.split prod.split)
  qed simp
qed

definition fragile_infer :: "nat \<Rightarrow> infer_req \<Rightarrow> nat \<times> backend_result res" where
  "fragile_infer b request =
     (if nd_shape (rq_state request) = [2] then se_infer (sample_env sample_chunk) b request
      else (0, Err (RuntimeError ''crash'')))"

definition sample_server :: "nat server" where
  "sample_server = \<lparr>sv_backend = 0, sv_requests_total = 0, sv_requests_failed = 0\<rparr>"

lemma sample_state_shape_only:
  "validate_state_shape sample_metadata request = Ok () \<Longrightarrow> nd_shape (rq_state request) = [2]"
  using sample_announced by (auto simp: validate_state_shape_def announced_def split: if_splits)

lemma sample_env_simps [simp]:
  "se_metadata (sample_env chunk) b = sample_metadata" "se_scheduler (sample_env chunk) = None"
  "se_cast (sample_env chunk) d a = Ok a" "se_packb (sample_env chunk) v = Ok []"
  "se_unpackb (sample_env chunk) p = Ok (PDict sample_message)"
  by (simp_all add: sample_env_def)

theorem server_shields_backend_witness:
  "handle_loop ((sample_env sample_chunk)\<lparr>se_infer := fragile_infer, se_scheduler := None\<rparr>)
       [(sample_clock, [1, 2])] sample_server =
   handle_loop (sample_env sample_chunk) [(sample_clock, [1, 2])] sample_server"
  using server_shields_backend [where env = "sample_env sample_chunk" and
      env' = "(sample_env sample_chunk)\<lparr>se_infer := fragile_infer\<rparr>" and
      payloads = "[(sample_clock, [1, 2])]" and s = sample_server]
  by (simp add: fragile_infer_def sample_state_shape_only del: handle_loop.simps)


lemma sample_serve:
  "\<exists>response. serve_infer (sample_env sample_chunk) sample_clock sample_message 0 = (1, Ok response)"
proof -
  obtain t where "pack_array (\<lambda>d a. Ok a) sample_chunk (Some ''f32'') = Ok t"
    using pack_array_fits [of "''f32''" sample_chunk] sample_chunk_ok
    by (auto simp: MAX_TENSOR_RANK_def MAX_TENSOR_BYTES_def)
  moreover have "validate_shapes sample_metadata sample_request (Some sample_chunk) = Ok ()"
    using sample_chunk_ok by (intro sample_request_admitted) simp
  ultimately show ?thesis
    using sample_chunk_ok
    by (simp add: serve_infer_def sample_message_parses sample_run sample_request_admitted(1))
      (simp add: sample_clock_def make_action_response_def action_representations_def sample_env_def)
qed


text \<open>
  A backend fault is blamed on the client.  When the backend returns a chunk
  of the announced shape that contains NaN or infinity, the server answers with
  the code \<open>invalid_request\<close>, since the check that fails is the protocol's own.
\<close>

theorem server_blames_client:
  assumes "decode_message (se_unpackb env) payload = Ok message"
    and "py_int (dget_or message ''request_id'' (PInt 0)) = Ok rid"
    and "parse_infer_request message = Ok request"
    and "validate_shapes (se_metadata env (sv_backend s)) request None = Ok ()"
    and "run_inference env ck request (sv_backend s) = (b', Ok result)"
    and "\<not> pf_le (deadline_of (ck_started ck) (rq_timeout_ms request)) (Fin (ck_inferred ck))"
    and "validate_shapes (se_metadata env b') request (Some (br_actions result)) = Ok ()"
    and "nd_dtype (br_actions result) = DF32" and "\<not> nd_isfinite (br_actions result)"
  shows "handle_payload env ck payload s =
           (s\<lparr>sv_backend := b', sv_requests_failed := Suc (sv_requests_failed s)\<rparr>,
            encode_message (se_packb env)
              (make_error ''actions must be a finite [steps, action_dim] tensor'' rid ''invalid_request''))"
proof -
  have "dget_none message ''type'' = PStr ''infer''"
    using assms(3) by (auto simp: parse_infer_request_def split: if_splits)
  moreover have "serve_infer env ck message (sv_backend s) =
      (b', Err (ProtocolError ''actions must be a finite [steps, action_dim] tensor''))"
    using assms(3-) by (simp add: serve_infer_def make_action_response_def)
  ultimately show ?thesis
    using assms(1,2) by (simp add: handle_payload_def try_payload_def)
qed

text \<open>A chunk of the announced shape whose second coordinate is NaN.\<close>

definition nan_chunk :: ndarray where
  "nan_chunk = nd_of_f32s [1, 2] [f32_one, 0x7FC00000]"

lemma nan_chunk_not_finite: "\<not> nd_isfinite nan_chunk"
  by (simp add: nan_chunk_def nd_isfinite_def f32_finite_def f32_exponent_def drop_bit_eq_div take_bit_eq_mod)

theorem server_blames_client_witness:
  "handle_payload (sample_env nan_chunk) sample_clock [1, 2] sample_server =
     (sample_server\<lparr>sv_backend := 1, sv_requests_failed := 1\<rparr>,
      encode_message (\<lambda>v. Ok [])
        (make_error ''actions must be a finite [steps, action_dim] tensor'' 3 ''invalid_request''))"
proof -
  have d: "decode_message (se_unpackb (sample_env nan_chunk)) [1, 2] = Ok sample_message"
    by (simp add: decode_message_def sample_message_parses dget_none_def MAX_MESSAGE_BYTES_def)
  have i: "py_int (dget_or sample_message ''request_id'' (PInt 0)) = Ok 3"
    by (simp add: dget_or_def sample_message_parses)
  have sh: "nd_shape nan_chunk = [1, 2]" "nd_dtype nan_chunk = DF32" by (simp_all add: nan_chunk_def)
  show ?thesis
    using server_blames_client [OF d i sample_message_parses(2) _ sample_run, of sample_server]
      sample_request_admitted sh nan_chunk_not_finite
    by (simp add: sample_server_def sample_clock_def) (simp add: sample_env_def)
qed

end
