(* ===== verification/Client.thy ===== *)
theory Client
  imports Server
begin

text \<open>
  The synchronous client of \<open>client.py\<close>.  The WebSocket library is a parameter: a
  \<open>transport\<close> over a world \<open>'w\<close> (the network and the peer).  An operation is a
  function from the client and the world to the new pair and a result, so that
  what an exception leaves behind is part of the model.  \<open>with self._lock\<close>
  serialises the operations; each is one sequential run.
\<close>

section \<open>Operations with effects\<close>

type_synonym ('x, 'a) io = "'x \<Rightarrow> 'x \<times> 'a res"

definition io_return :: "'a \<Rightarrow> ('x, 'a) io" where
  "io_return a x = (x, Ok a)"

definition io_raise :: "pyerr \<Rightarrow> ('x, 'a) io" where
  "io_raise e x = (x, Err e)"

definition io_lift :: "'a res \<Rightarrow> ('x, 'a) io" where
  "io_lift r x = (x, r)"

definition io_bind :: "('x, 'a) io \<Rightarrow> ('a \<Rightarrow> ('x, 'b) io) \<Rightarrow> ('x, 'b) io" where
  "io_bind m f x = (case m x of (x', Err e) \<Rightarrow> (x', Err e) | (x', Ok a) \<Rightarrow> f a x')"

text \<open>\<open>try: m except Exception: h; raise\<close>\<close>

definition io_on_error :: "('x, 'a) io \<Rightarrow> ('x \<Rightarrow> 'x) \<Rightarrow> ('x, 'a) io" where
  "io_on_error m h x = (case m x of (x', Err e) \<Rightarrow> (h x', Err e) | r \<Rightarrow> r)"

named_theorems io_simps

lemma io_run [io_simps]:
  "io_return a x = (x, Ok a)" "io_raise e x = (x, Err e)" "io_lift r x = (x, r)"
  by (simp_all add: io_return_def io_raise_def io_lift_def)

lemma io_bind_run [io_simps]:
  "m x = (x', Ok a) \<Longrightarrow> io_bind m f x = f a x'"
  "m x = (x', Err e) \<Longrightarrow> io_bind m f x = (x', Err e)"
  by (simp_all add: io_bind_def)

lemma io_bind_lift_run [io_simps]:
  "io_bind (io_lift (Ok a)) f x = f a x" "io_bind (io_lift (Err e)) f x = (x, Err e)"
  "io_bind (io_return a) f x = f a x"
  by (simp_all add: io_bind_def io_run)

lemma io_bind_eq_Ok:
  "io_bind m f x = (y, Ok b) \<longleftrightarrow> (\<exists>x' a. m x = (x', Ok a) \<and> f a x' = (y, Ok b))"
  by (auto simp: io_bind_def split: prod.splits res.splits)

section \<open>State\<close>

record ('c, 'w) transport =
  tr_connect :: "string option \<Rightarrow> pyfloat \<Rightarrow> ('w, 'c) io"
  tr_send :: "'c \<Rightarrow> byte list \<Rightarrow> ('w, unit) io"
  tr_recv :: "'c \<Rightarrow> pyfloat \<Rightarrow> ('w, byte list) io"
  tr_close :: "'c \<Rightarrow> 'w \<Rightarrow> 'w"

record ('c, 'w) client_env =
  ce_transport :: "('c, 'w) transport"
  ce_cast :: "dtype \<Rightarrow> ndarray \<Rightarrow> ndarray res"
  ce_packb :: "pyval \<Rightarrow> byte list res"
  ce_unpackb :: "byte list \<Rightarrow> pyval res"
  ce_show :: "pyval \<Rightarrow> string"

record 'c client =
  cl_api_key :: "string option"
  cl_open_timeout :: pyfloat
  cl_request_timeout :: pyfloat
  cl_connection :: "'c option"
  cl_metadata :: pydict
  cl_next_request_id :: int

definition client_init :: "string option \<Rightarrow> pyfloat \<Rightarrow> pyfloat \<Rightarrow> 'c client" where
  "client_init api_key open_timeout request_timeout =
     \<lparr>cl_api_key = api_key, cl_open_timeout = open_timeout, cl_request_timeout = request_timeout,
      cl_connection = None, cl_metadata = [], cl_next_request_id = 1\<rparr>"

section \<open>Operations\<close>

text \<open>The primitives of the connection; without one, Python raises \<open>AttributeError\<close>.\<close>

definition on_world :: "('w, 'a) io \<Rightarrow> ('c client \<times> 'w, 'a) io" where
  "on_world m x = (case m (snd x) of (w, r) \<Rightarrow> ((fst x, w), r))"

definition conn_send :: "('c, 'w) client_env \<Rightarrow> byte list \<Rightarrow> ('c client \<times> 'w, unit) io" where
  "conn_send env payload x =
     (case cl_connection (fst x) of
        None \<Rightarrow> (x, Err (AttributeError ''no connection''))
      | Some c \<Rightarrow> on_world (tr_send (ce_transport env) c payload) x)"

definition conn_recv :: "('c, 'w) client_env \<Rightarrow> pyfloat \<Rightarrow> ('c client \<times> 'w, byte list) io" where
  "conn_recv env timeout x =
     (case cl_connection (fst x) of
        None \<Rightarrow> (x, Err (AttributeError ''no connection''))
      | Some c \<Rightarrow> on_world (tr_recv (ce_transport env) c timeout) x)"

text \<open>\<open>self._connection.close(); self._connection = None\<close>, when there is one.\<close>

definition drop_connection :: "('c, 'w) client_env \<Rightarrow> 'c client \<times> 'w \<Rightarrow> 'c client \<times> 'w" where
  "drop_connection env x =
     (case cl_connection (fst x) of
        None \<Rightarrow> x
      | Some c \<Rightarrow> ((fst x)\<lparr>cl_connection := None\<rparr>, tr_close (ce_transport env) c (snd x)))"

definition auth_header :: "'c client \<Rightarrow> string option" where
  "auth_header cl = (case cl_api_key cl of
     None \<Rightarrow> None | Some k \<Rightarrow> if k = [] then None else Some (''Bearer '' @ k))"

definition open_connection :: "('c, 'w) client_env \<Rightarrow> ('c client \<times> 'w, unit) io" where
  "open_connection env x =
     (case tr_connect (ce_transport env) (auth_header (fst x)) (cl_open_timeout (fst x)) (snd x) of
        (w, Err e) \<Rightarrow> ((fst x, w), Err e)
      | (w, Ok c) \<Rightarrow> (((fst x)\<lparr>cl_connection := Some c\<rparr>, w), Ok ()))"

definition accept_hello :: "('c, 'w) client_env \<Rightarrow> pydict \<Rightarrow> ('c client \<times> 'w, unit) io" where
  "accept_hello env hello x =
     (case dget_none hello ''metadata'' of
        PDict metadata \<Rightarrow>
          (if dget_none hello ''type'' \<noteq> PStr ''hello''
           then (drop_connection env x, Err (ProtocolError ''server did not send a valid hello message''))
           else (((fst x)\<lparr>cl_metadata := metadata\<rparr>, snd x), Ok ()))
      | _ \<Rightarrow> (drop_connection env x, Err (ProtocolError ''server did not send a valid hello message'')))"

definition ensure_connected :: "('c, 'w) client_env \<Rightarrow> ('c client \<times> 'w, unit) io" where
  "ensure_connected env x =
     (if cl_connection (fst x) \<noteq> None then (x, Ok ())
      else io_bind (open_connection env) (\<lambda>_.
           io_bind (conn_recv env (cl_open_timeout (fst x))) (\<lambda>raw.
           io_bind (io_lift (decode_message (ce_unpackb env) raw)) (accept_hello env))) x)"

definition client_metadata :: "('c, 'w) client_env \<Rightarrow> ('c client \<times> 'w, pydict) io" where
  "client_metadata env =
     io_bind (ensure_connected env) (\<lambda>_ x. (x, Ok (cl_metadata (fst x))))"

definition client_close :: "('c, 'w) client_env \<Rightarrow> ('c client \<times> 'w, unit) io" where
  "client_close env x = (drop_connection env x, Ok ())"

text \<open>Sending a message and reading the peer's next one, as every operation does.\<close>

definition exchange :: "('c, 'w) client_env \<Rightarrow> pydict \<Rightarrow> pyfloat \<Rightarrow> ('c client \<times> 'w, pydict) io" where
  "exchange env message timeout =
     io_bind (io_lift (encode_message (ce_packb env) message)) (\<lambda>payload.
     io_bind (conn_send env payload) (\<lambda>_.
     io_bind (conn_recv env timeout) (\<lambda>raw.
       io_lift (decode_message (ce_unpackb env) raw))))"

definition reset_message :: pydict where
  "reset_message = [(PStr ''protocol'', PStr ''embodied-infer/1''), (PStr ''type'', PStr ''reset'')]"

definition client_reset :: "('c, 'w) client_env \<Rightarrow> ('c client \<times> 'w, unit) io" where
  "client_reset env =
     io_bind (ensure_connected env) (\<lambda>_ x.
     io_bind (exchange env reset_message (cl_request_timeout (fst x))) (\<lambda>response.
       if dget_none response ''type'' \<noteq> PStr ''reset_ok''
       then io_raise (ProtocolError
              (py_str (ce_show env) (dget_or response ''message'' (PStr ''reset failed''))))
       else io_return ()) x)"

definition client_health :: "('c, 'w) client_env \<Rightarrow> ('c client \<times> 'w, pydict) io" where
  "client_health env =
     io_bind (ensure_connected env) (\<lambda>_ x.
     io_bind (io_lift (make_health_request (PInt 0))) (\<lambda>request.
     io_bind (exchange env request (cl_request_timeout (fst x))) (\<lambda>response.
       io_lift (parse_health_response response))) x)"

text \<open>\<open>value == n\<close> for an integer \<open>n\<close>: Python compares numbers across their types.\<close>

fun py_eq_int :: "pyval \<Rightarrow> int \<Rightarrow> bool" where
  "py_eq_int (PInt i) n = (i = n)"
| "py_eq_int (PBool b) n = ((if b then 1 else 0) = n)"
| "py_eq_int (PFloat (Fin r)) n = (r = of_int n)"
| "py_eq_int _ n = False"

record infer_args =
  ia_control_step :: int
  ia_timestamp_ns :: int
  ia_instruction :: string
  ia_images :: "(string \<times> ndarray \<times> int) list"
  ia_state :: ndarray
  ia_timeout :: "pyfloat option"

fun pf_millis :: "pyfloat \<Rightarrow> pyfloat" where
  "pf_millis (Fin t) = Fin (t * 1000)"
| "pf_millis t = t"

definition infer_timeout :: "'c client \<Rightarrow> infer_args \<Rightarrow> pyfloat" where
  "infer_timeout cl args = (case ia_timeout args of None \<Rightarrow> cl_request_timeout cl | Some t \<Rightarrow> t)"

definition client_request :: "('c, 'w) client_env \<Rightarrow> infer_args \<Rightarrow> 'c client \<Rightarrow> pydict res" where
  "client_request env args cl =
     make_infer_request (ce_cast env) (cl_next_request_id cl) (ia_control_step args) (ia_timestamp_ns args)
       (ia_instruction args) (ia_images args) (ia_state args) (pf_millis (infer_timeout cl args))"

text \<open>The body of the \<open>try\<close>.\<close>

definition infer_exchange ::
    "('c, 'w) client_env \<Rightarrow> pydict \<Rightarrow> pyfloat \<Rightarrow> ('c client \<times> 'w, action_response) io" where
  "infer_exchange env request timeout =
     io_bind (ensure_connected env) (\<lambda>_.
     io_bind (exchange env request timeout) (\<lambda>message.
       io_lift (parse_action_response message)))"

definition with_round_trip :: "real \<Rightarrow> action_response \<Rightarrow> action_response" where
  "with_round_trip elapsed response =
     response\<lparr>ar_message := dput (ar_message response) ''client_round_trip_ms'' (PFloat (Fin (elapsed * 1000)))\<rparr>"

definition client_infer ::
    "('c, 'w) client_env \<Rightarrow> real \<Rightarrow> infer_args \<Rightarrow> ('c client \<times> 'w, action_response) io" where
  "client_infer env elapsed args x =
     (let cl = fst x;
          request_id = cl_next_request_id cl;
          x1 = (cl\<lparr>cl_next_request_id := request_id + 1\<rparr>, snd x)
      in io_bind (io_lift (client_request env args cl)) (\<lambda>request.
         io_bind (io_on_error (infer_exchange env request (infer_timeout cl args)) (drop_connection env)) (\<lambda>response0.
           let response = with_round_trip elapsed response0
           in if \<not> py_eq_int (dget_none (ar_message response) ''request_id'') request_id
              then io_raise (ProtocolError ''response request_id differs'')
              else io_return response)) x1)"

section \<open>Frame lemmas\<close>

text \<open>Connecting and exchanging messages leave the counter of identifiers alone.\<close>

definition keeps_id :: "('c client \<times> 'w, 'a) io \<Rightarrow> bool" where
  "keeps_id m = (\<forall>x x' r. m x = (x', r) \<longrightarrow> cl_next_request_id (fst x') = cl_next_request_id (fst x))"

lemma keeps_idD: "keeps_id m \<Longrightarrow> m x = (x', r) \<Longrightarrow> cl_next_request_id (fst x') = cl_next_request_id (fst x)"
  unfolding keeps_id_def by blast

lemma keeps_bind [intro]:
  assumes "keeps_id m" and "\<And>a. keeps_id (f a)"
  shows "keeps_id (io_bind m f)"
  unfolding keeps_id_def
proof (intro allI impI)
  fix x x' r
  assume bind: "io_bind m f x = (x', r)"
  obtain x1 r1 where m: "m x = (x1, r1)" by (cases "m x")
  show "cl_next_request_id (fst x') = cl_next_request_id (fst x)"
  proof (cases r1)
    case (Err e)
    with bind m keeps_idD [OF assms(1) m] show ?thesis by (simp add: io_bind_def)
  next
    case (Ok a)
    with bind m have "f a x1 = (x', r)" by (simp add: io_bind_def)
    from keeps_idD [OF assms(2) this] keeps_idD [OF assms(1) m] show ?thesis by simp
  qed
qed

lemma drop_connection_fields [simp]:
  "cl_connection (fst (drop_connection env x)) = None"
  "cl_next_request_id (fst (drop_connection env x)) = cl_next_request_id (fst x)"
  by (simp_all add: drop_connection_def split: option.split)

lemma drop_connection_eqD:
  "drop_connection env x = (cl, w) \<Longrightarrow> cl_next_request_id cl = cl_next_request_id (fst x)"
  using drop_connection_fields(2) [of env x] by simp

lemma keeps_primitives [intro]:
  "keeps_id (io_lift r)" "keeps_id (conn_send env p)" "keeps_id (conn_recv env t)"
  "keeps_id (open_connection env)" "keeps_id (accept_hello env hello)"
  by (auto simp: keeps_id_def io_lift_def conn_send_def conn_recv_def on_world_def open_connection_def
      accept_hello_def split: option.splits prod.splits res.splits pyval.splits dest: drop_connection_eqD)

lemma keeps_ensure_connected [intro]: "keeps_id (ensure_connected env)"
proof -
  have "keeps_id (io_bind (open_connection env) (\<lambda>_.
      io_bind (conn_recv env t) (\<lambda>raw.
      io_bind (io_lift (decode_message (ce_unpackb env) raw)) (accept_hello env))))" for t
    by (intro keeps_bind keeps_primitives)
  then show ?thesis by (auto simp: keeps_id_def ensure_connected_def split: if_splits)
qed

lemma keeps_infer_exchange: "keeps_id (infer_exchange env request t)"
  unfolding infer_exchange_def exchange_def by (intro keeps_bind keeps_primitives keeps_ensure_connected)

lemma keeps_on_error:
  "keeps_id m \<Longrightarrow> keeps_id (io_on_error m (drop_connection env))"
  unfolding keeps_id_def [of "io_on_error m (drop_connection env)"] io_on_error_def
  by (auto split: prod.splits res.splits dest!: drop_connection_eqD dest: keeps_idD)

lemma dget_with_round_trip [simp]:
  "n \<noteq> ''client_round_trip_ms'' \<Longrightarrow>
     dget (ar_message (with_round_trip elapsed response)) n = dget (ar_message response) n"
  "ar_actions (with_round_trip elapsed response) = ar_actions response"
  by (simp_all add: with_round_trip_def dget_dput)

section \<open>Properties\<close>

text \<open>
  C11: The client trusts nothing it receives.  Against every transport and peer,
  an inference either returns a finite rank-two \<open>float32\<close> chunk in a message that
  carries the identifier of this very request, or raises; after an exception in
  the exchange the connection is dropped, so a late answer cannot be taken for
  the answer to a later request.  Every call consumes one identifier, whatever
  its outcome.
\<close>

theorem client_infer_safe:
  "case client_infer env elapsed args (cl, w) of ((cl', w'), r) \<Rightarrow>
     cl_next_request_id cl' = cl_next_request_id cl + 1 \<and>
     (case r of
        Ok response \<Rightarrow>
          nd_dtype (ar_actions response) = DF32 \<and> nd_ndim (ar_actions response) = 2 \<and>
          nd_wf (ar_actions response) \<and> nd_isfinite (ar_actions response) \<and>
          py_eq_int (dget_none (ar_message response) ''request_id'') (cl_next_request_id cl)
      | Err e \<Rightarrow>
          client_request env args cl = Err e \<or> cl_connection cl' = None \<or>
          e = ProtocolError ''response request_id differs'')"
proof (cases "client_request env args cl")
  case (Err e)
  then show ?thesis by (simp add: client_infer_def Let_def io_simps)
next
  case (Ok request)
  let ?x = "(cl\<lparr>cl_next_request_id := cl_next_request_id cl + 1\<rparr>, w)"
  let ?m = "io_on_error (infer_exchange env request (infer_timeout cl args)) (drop_connection env)"
  obtain cl1 w1 r where m: "?m ?x = ((cl1, w1), r)" by (cases "?m ?x") auto
  have id: "cl_next_request_id cl1 = cl_next_request_id cl + 1"
    using keeps_idD [OF keeps_on_error [OF keeps_infer_exchange] m] by simp
  show ?thesis
  proof (cases r)
    case (Err e)
    with m have "cl_connection cl1 = None"
      by (auto simp: io_on_error_def split: prod.splits res.splits) (metis drop_connection_fields(1) fst_conv)
    with Err m Ok id show ?thesis by (simp add: client_infer_def Let_def io_simps)
  next
    case ok: (Ok response)
    with m have "infer_exchange env request (infer_timeout cl args) ?x = ((cl1, w1), Ok response)"
      by (auto simp: io_on_error_def split: prod.splits res.splits)
    then obtain message where "parse_action_response message = Ok response"
      by (auto simp: infer_exchange_def io_bind_eq_Ok io_run)
    note p = parse_action_response_Ok [OF this]
    from m ok Ok id p show ?thesis
      by (simp add: client_infer_def Let_def io_simps dget_none_def)
  qed
qed

text \<open>
  A broken handshake is forgotten.  When the first message of a server cannot be
  decoded, the call raises but the connection stays in place: the next call takes
  it for an established one and \<open>metadata\<close> returns what it had before (an empty
  dictionary on a fresh client) without any error.
\<close>

theorem failed_handshake_forgotten:
  assumes "cl_connection cl = None"
    and "tr_connect (ce_transport env) (auth_header cl) (cl_open_timeout cl) w = (w1, Ok c)"
    and "tr_recv (ce_transport env) c (cl_open_timeout cl) w1 = (w2, Ok raw)"
    and "decode_message (ce_unpackb env) raw = Err e"
  shows "\<exists>cl'. client_metadata env (cl, w) = ((cl', w2), Err e) \<and>
           client_metadata env (cl', w2) = ((cl', w2), Ok (cl_metadata cl))"
proof -
  let ?cl = "cl\<lparr>cl_connection := Some c\<rparr>"
  have "ensure_connected env (cl, w) = ((?cl, w2), Err e)"
    using assms by (simp add: ensure_connected_def io_bind_def open_connection_def conn_recv_def on_world_def io_run)
  moreover have "ensure_connected env (?cl, w2) = ((?cl, w2), Ok ())"
    by (simp add: ensure_connected_def)
  ultimately have "client_metadata env (cl, w) = ((?cl, w2), Err e) \<and>
      client_metadata env (?cl, w2) = ((?cl, w2), Ok (cl_metadata cl))"
    by (simp add: client_metadata_def io_simps)
  then show ?thesis by blast
qed

end
