(* ===== verification/Deployment.thy ===== *)
theory Deployment
  imports Client
begin

text \<open>
  Client and server together.  The interface between them is a link that answers
  every payload with one reply, in order (\<open>reply_link\<close>); the client's operations
  are proved against it.  The link is then the loopback: the WebSocket connection
  of a client whose peer is the handler of \<open>server.py\<close>, turn by turn.
\<close>

section \<open>The interface\<close>

locale reply_link =
  fixes tr :: "('c, 'w) transport"
    and greet :: "string option \<Rightarrow> 'w \<Rightarrow> byte list option"
    and serve :: "'w \<Rightarrow> byte list \<Rightarrow> 'w \<times> byte list res"
    and idle :: "'c \<Rightarrow> 'w \<Rightarrow> bool"
  assumes greeted: "greet header w = Some hello \<Longrightarrow>
      \<exists>c w1 w2. tr_connect tr header t w = (w1, Ok c) \<and> tr_recv tr c t w1 = (w2, Ok hello) \<and> idle c w2 \<and>
        (\<forall>p. serve w2 p = serve w p)"
    and answered: "idle c w \<Longrightarrow> serve w p = (w', Ok reply) \<Longrightarrow>
      \<exists>w1. tr_send tr c p w = (w1, Ok ()) \<and> tr_recv tr c t w1 = (w', Ok reply) \<and> idle c w'"
begin

lemma exchange_answered:
  assumes env: "ce_transport env = tr" and c: "cl_connection cl = Some c" and i: "idle c w"
    and enc: "encode_message (ce_packb env) m = Ok p" and s: "serve w p = (w', Ok reply)"
    and dec: "decode_message (ce_unpackb env) reply = Ok response"
  shows "exchange env m t (cl, w) = ((cl, w'), Ok response) \<and> idle c w'"
proof -
  obtain w1 where "tr_send tr c p w = (w1, Ok ())" "tr_recv tr c t w1 = (w', Ok reply)" "idle c w'"
    using answered [OF i s] by blast
  with env c enc dec show ?thesis
    by (simp add: exchange_def io_bind_def io_run conn_send_def conn_recv_def on_world_def)
qed

text \<open>A client that is connected and idle, or that would be greeted, can be used.\<close>

definition usable :: "(byte list \<Rightarrow> pyval res) \<Rightarrow> 'c client \<Rightarrow> 'w \<Rightarrow> bool" where
  "usable unpackb cl w =
     (case cl_connection cl of
        Some c \<Rightarrow> idle c w
      | None \<Rightarrow> (\<exists>hello m d. greet (auth_header cl) w = Some hello \<and> decode_message unpackb hello = Ok m \<and>
                  dget_none m ''type'' = PStr ''hello'' \<and> dget_none m ''metadata'' = PDict d))"

lemma usable_connects:
  assumes env: "ce_transport env = tr" and u: "usable (ce_unpackb env) cl w"
  shows "\<exists>cl1 w1 c. ensure_connected env (cl, w) = ((cl1, w1), Ok ()) \<and> cl_connection cl1 = Some c \<and>
    idle c w1 \<and> (\<forall>p. serve w1 p = serve w p)"
proof (cases "cl_connection cl")
  case (Some c)
  with u have "idle c w" by (simp add: usable_def)
  with Some show ?thesis by (simp add: ensure_connected_def)
next
  case None
  with u obtain hello m d where h: "greet (auth_header cl) w = Some hello"
      "decode_message (ce_unpackb env) hello = Ok m" "dget_none m ''type'' = PStr ''hello''"
      "dget_none m ''metadata'' = PDict d"
    by (auto simp: usable_def)
  obtain c w1 w2 where l: "tr_connect tr (auth_header cl) (cl_open_timeout cl) w = (w1, Ok c)"
      "tr_recv tr c (cl_open_timeout cl) w1 = (w2, Ok hello)" "idle c w2" "\<forall>p. serve w2 p = serve w p"
    using greeted [OF h(1)] by blast
  have "ensure_connected env (cl, w) =
      ((cl\<lparr>cl_connection := Some c, cl_metadata := d\<rparr>, w2), Ok ())"
    using None h l env
    by (simp add: ensure_connected_def io_bind_def open_connection_def conn_recv_def on_world_def io_run accept_hello_def)
  with l show ?thesis by auto
qed

text \<open>An inference whose request is answered with a matching action message succeeds.\<close>

lemma infer_answered:
  assumes env: "ce_transport env = tr" and u: "usable (ce_unpackb env) cl w"
    and req: "client_request env args cl = Ok m" and enc: "encode_message (ce_packb env) m = Ok p"
    and s: "serve w p = (w', Ok reply)" and dec: "decode_message (ce_unpackb env) reply = Ok message"
    and parse: "parse_action_response message = Ok response"
    and rid: "dget (ar_message response) ''request_id'' = Some (PInt (cl_next_request_id cl))"
  shows "\<exists>cl'. client_infer env elapsed args (cl, w) = ((cl', w'), Ok (with_round_trip elapsed response)) \<and>
    cl_next_request_id cl' = cl_next_request_id cl + 1 \<and> usable (ce_unpackb env) cl' w'"
proof -
  let ?cl = "cl\<lparr>cl_next_request_id := cl_next_request_id cl + 1\<rparr>"
  have "usable (ce_unpackb env) ?cl w"
    using u by (simp add: usable_def auth_header_def cong: option.case_cong)
  then obtain cl1 w1 c where e: "ensure_connected env (?cl, w) = ((cl1, w1), Ok ())"
      "cl_connection cl1 = Some c" "idle c w1" "serve w1 p = serve w p"
    using usable_connects [OF env] by blast
  have id: "cl_next_request_id cl1 = cl_next_request_id cl + 1"
    using keeps_idD [OF keeps_ensure_connected e(1)] by simp
  have x: "exchange env m t (cl1, w1) = ((cl1, w'), Ok message)" "idle c w'" for t
    using exchange_answered [OF env e(2,3) enc _ dec, of w' t] e(4) s by simp_all
  have "infer_exchange env m t (?cl, w) = ((cl1, w'), Ok response)" for t
    using e x parse by (simp add: infer_exchange_def io_bind_def io_run)
  then have "client_infer env elapsed args (cl, w) = ((cl1, w'), Ok (with_round_trip elapsed response))"
    using req rid by (simp add: client_infer_def Let_def io_simps io_on_error_def dget_none_def)
  moreover have "usable (ce_unpackb env) cl1 w'"
    using e x by (simp add: usable_def)
  ultimately show ?thesis using id by blast
qed

end

section \<open>The loopback\<close>

text \<open>
  The network between one client and one handler: the server, the replies under
  way, and the readings of the clocks for each turn of the handler's loop.
\<close>

record 's net =
  nw_server :: "'s server"
  nw_inbox :: "byte list list"
  nw_clock :: "nat \<Rightarrow> clock"
  nw_turn :: nat

definition net_serve :: "'s server_env \<Rightarrow> 's net \<Rightarrow> byte list \<Rightarrow> 's net \<times> byte list res" where
  "net_serve se w p =
     (case handle_payload se (nw_clock w (nw_turn w)) p (nw_server w) of
        (s', r) \<Rightarrow> (w\<lparr>nw_server := s', nw_inbox := [], nw_turn := Suc (nw_turn w)\<rparr>, r))"

text \<open>The greeting of the handler, unless the key is wrong.\<close>

definition net_greet :: "'s server_env \<Rightarrow> string option \<Rightarrow> string option \<Rightarrow> 's net \<Rightarrow> byte list option" where
  "net_greet se api_key header w =
     (case handler se api_key header [] (nw_server w) of
        Served _ [hello] (Ok _) \<Rightarrow> Some hello
      | _ \<Rightarrow> None)"

definition loopback :: "'s server_env \<Rightarrow> string option \<Rightarrow> (unit, 's net) transport" where
  "loopback se api_key =
     \<lparr>tr_connect = (\<lambda>header t w.
        (w\<lparr>nw_inbox := (case net_greet se api_key header w of None \<Rightarrow> [] | Some hello \<Rightarrow> [hello])\<rparr>, Ok ())),
      tr_send = (\<lambda>c p w.
        (case net_serve se w p of
           (w', Ok reply) \<Rightarrow> (w'\<lparr>nw_inbox := nw_inbox w @ [reply]\<rparr>, Ok ())
         | (w', Err e) \<Rightarrow> (w'\<lparr>nw_inbox := nw_inbox w\<rparr>, Ok ()))),
      tr_recv = (\<lambda>c t w.
        (case nw_inbox w of
           [] \<Rightarrow> (w, Err (ConnectionError ''no message''))
         | reply # rest \<Rightarrow> (w\<lparr>nw_inbox := rest\<rparr>, Ok reply))),
      tr_close = (\<lambda>c w. w\<lparr>nw_inbox := []\<rparr>)\<rparr>"

interpretation loop: reply_link "loopback se api_key" "net_greet se api_key" "net_serve se" "\<lambda>c w. nw_inbox w = []"
    for se api_key
proof
  fix header hello t and w :: "'a net"
  assume g: "net_greet se api_key header w = Some hello"
  let ?w2 = "w\<lparr>nw_inbox := []\<rparr>"
  have "tr_connect (loopback se api_key) header t w = (w\<lparr>nw_inbox := [hello]\<rparr>, Ok ()) \<and>
      tr_recv (loopback se api_key) () t (w\<lparr>nw_inbox := [hello]\<rparr>) = (?w2, Ok hello) \<and>
      nw_inbox ?w2 = [] \<and> (\<forall>p. net_serve se ?w2 p = net_serve se w p)"
    using g by (simp add: loopback_def net_serve_def split: prod.split)
  then show "\<exists>c w1 w2. tr_connect (loopback se api_key) header t w = (w1, Ok c) \<and>
      tr_recv (loopback se api_key) c t w1 = (w2, Ok hello) \<and> nw_inbox w2 = [] \<and>
      (\<forall>p. net_serve se w2 p = net_serve se w p)"
    by blast
next
  fix c p reply t and w w' :: "'a net"
  assume "nw_inbox w = []" "net_serve se w p = (w', Ok reply)"
  moreover from this have "nw_inbox w' = []"
    by (auto simp: net_serve_def split: prod.splits)
  ultimately show "\<exists>w1. tr_send (loopback se api_key) c p w = (w1, Ok ()) \<and>
      tr_recv (loopback se api_key) c t w1 = (w', Ok reply) \<and> nw_inbox w' = []"
    by (simp add: loopback_def)
qed

definition net_client ::
    "'s server_env \<Rightarrow> string option \<Rightarrow> (dtype \<Rightarrow> ndarray \<Rightarrow> ndarray res) \<Rightarrow> (pyval \<Rightarrow> string) \<Rightarrow>
     (unit, 's net) client_env" where
  "net_client se api_key cast show_val =
     \<lparr>ce_transport = loopback se api_key, ce_cast = cast, ce_packb = se_packb se, ce_unpackb = se_unpackb se,
      ce_show = show_val\<rparr>"

text \<open>A client whose connection is open and idle, or whose key the server accepts.\<close>

definition linked :: "'s server_env \<Rightarrow> string option \<Rightarrow> unit client \<Rightarrow> 's net \<Rightarrow> bool" where
  "linked se api_key cl w =
     (if cl_connection cl = None then net_greet se api_key (auth_header cl) w \<noteq> None else nw_inbox w = [])"

text \<open>The request the server should see.\<close>

definition intended_request :: "unit client \<Rightarrow> infer_args \<Rightarrow> infer_req" where
  "intended_request cl args =
     received_request (cl_next_request_id cl) (ia_control_step args) (ia_timestamp_ns args) (ia_instruction args)
       (ia_images args) (ia_state args) (pf_millis (infer_timeout cl args))"

definition sendable_args :: "unit client \<Rightarrow> infer_args \<Rightarrow> bool" where
  "sendable_args cl args =
     sendable (cl_next_request_id cl) (ia_control_step args) (ia_timestamp_ns args) (ia_instruction args)
       (ia_images args) (ia_state args) (pf_millis (infer_timeout cl args))"

section \<open>Lemmas\<close>

lemma net_greet_hello:
  assumes codec: "\<And>v p. se_packb se v = Ok p \<Longrightarrow> se_unpackb se p = Ok v"
    and g: "net_greet se api_key header w = Some hello"
  shows "decode_message (se_unpackb se) hello = Ok (make_hello (se_metadata se (sv_backend (nw_server w))))"
proof -
  let ?hi = "make_hello (se_metadata se (sv_backend (nw_server w)))"
  have "encode_message (se_packb se) ?hi = Ok hello"
    using g by (auto simp: net_greet_def handler_def split: if_splits res.splits connection.splits list.splits)
  moreover have "dget ?hi ''protocol'' = Some (PStr PROTOCOL_VERSION)"
    by (simp add: make_hello_def)
  ultimately show ?thesis using codec by (intro decode_encode_message)
qed

lemma linked_usable:
  assumes codec: "\<And>v p. se_packb se v = Ok p \<Longrightarrow> se_unpackb se p = Ok v"
    and l: "linked se api_key cl w"
  shows "loop.usable se api_key (se_unpackb se) cl w"
proof (cases "cl_connection cl")
  case None
  with l obtain hello where g: "net_greet se api_key (auth_header cl) w = Some hello"
    by (auto simp: linked_def)
  from net_greet_hello [OF codec g] have "\<exists>m d. decode_message (se_unpackb se) hello = Ok m \<and>
      dget_none m ''type'' = PStr ''hello'' \<and> dget_none m ''metadata'' = PDict d"
    by (simp add: make_hello_def dget_none_def)
  with None g show ?thesis by (auto simp: loop.usable_def)
qed (use l in \<open>simp add: loop.usable_def linked_def\<close>)

text \<open>The handler's turn for an inference message that is served.\<close>

lemma net_serve_infer:
  assumes dec: "decode_message (se_unpackb se) p = Ok m" and rid: "dget m ''request_id'' = Some (PInt i)"
    and ty: "dget m ''type'' = Some (PStr ''infer'')"
    and s: "serve_infer se (nw_clock w (nw_turn w)) m (sv_backend (nw_server w)) = (b', Ok response)"
    and enc: "encode_message (se_packb se) response = Ok reply"
  shows "\<exists>w'. net_serve se w p = (w', Ok reply) \<and> sv_backend (nw_server w') = b' \<and>
    sv_requests_total (nw_server w') = Suc (sv_requests_total (nw_server w)) \<and>
    sv_requests_failed (nw_server w') = sv_requests_failed (nw_server w)"
  using assms
  by (simp add: net_serve_def handle_payload_def try_payload_def dget_or_def dget_none_def)

lemma client_request_fields:
  assumes "client_request env args cl = Ok m"
  shows "dget m ''protocol'' = Some (PStr PROTOCOL_VERSION)" "dget m ''type'' = Some (PStr ''infer'')"
    "dget m ''request_id'' = Some (PInt (cl_next_request_id cl))"
  using assms by (auto simp: client_request_def make_infer_request_def split: if_splits)

section \<open>Properties\<close>

text \<open>
  C1: End to end.  A client connected to the server (or about to connect with the
  right key) calls \<open>infer\<close> with arguments within the protocol's limits.  If
  \<open>unpackb\<close> inverts \<open>packb\<close>, the messages fit the size limit and the server's
  checks and its backend succeed, then the backend has been asked exactly the
  request the caller meant, the call returns, the actions the caller gets are to
  the bit those the backend produced, and exactly one request is counted.
\<close>

theorem client_end_to_end:
  assumes codec: "\<And>v p. se_packb se v = Ok p \<Longrightarrow> se_unpackb se p = Ok v"
    and link: "linked se api_key cl w"
    and args: "sendable_args cl args"
    and req: "client_request (net_client se api_key cast show_val) args cl = Ok m"
    and enc: "encode_message (se_packb se) m = Ok p"
    and served: "serve_infer se (nw_clock w (nw_turn w)) m (sv_backend (nw_server w)) = (b', Ok response)"
    and reply: "encode_message (se_packb se) response = Ok reply"
    and chunk: "\<And>result. run_inference se (nw_clock w (nw_turn w)) (intended_request cl args)
                  (sv_backend (nw_server w)) = (b', Ok result) \<Longrightarrow>
                nd_dtype (br_actions result) = DF32 \<and> wire_ok (br_actions result)"
  shows "\<exists>cl' w' answer result.
    client_infer (net_client se api_key cast show_val) elapsed args (cl, w) = ((cl', w'), Ok answer) \<and>
    run_inference se (nw_clock w (nw_turn w)) (intended_request cl args) (sv_backend (nw_server w)) =
      (b', Ok result) \<and>
    ar_actions answer = br_actions result \<and>
    dget (ar_message answer) ''first_control_step'' = Some (PInt (ia_control_step args)) \<and>
    linked se api_key cl' w' \<and> cl_next_request_id cl' = cl_next_request_id cl + 1 \<and>
    sv_backend (nw_server w') = b' \<and>
    sv_requests_total (nw_server w') = Suc (sv_requests_total (nw_server w))"
proof -
  let ?env = "net_client se api_key cast show_val"
  note f = client_request_fields [OF req]
  have parsed: "parse_infer_request m = Ok (intended_request cl args)"
    using req args unfolding intended_request_def sendable_args_def
    by (intro parse_make_infer_request) (auto simp: client_request_def sendable_def list_all_iff)
  obtain result where r: "run_inference se (nw_clock w (nw_turn w)) (intended_request cl args)
        (sv_backend (nw_server w)) = (b', Ok result)"
      and mk: "make_action_response (se_cast se) (intended_request cl args) (br_actions result)
        (br_representation result) (br_control_period_ns result)
        (server_timing (nw_clock w (nw_turn w)) (br_timing result)) = Ok response"
    using served parsed by (auto elim!: serve_infer_Ok)
  note ans = parse_make_action_response [OF mk conjunct1 [OF chunk [OF r]] conjunct2 [OF chunk [OF r]]]
  obtain w' where s: "net_serve se w p = (w', Ok reply)" "sv_backend (nw_server w') = b'"
      "sv_requests_total (nw_server w') = Suc (sv_requests_total (nw_server w))"
    using net_serve_infer [OF decode_encode_message [OF enc codec f(1)] f(3,2) served reply] by blast
  have dec: "decode_message (se_unpackb se) reply = Ok response"
    using ans by (intro decode_encode_message [OF reply codec]) auto
  have "\<exists>cl'. client_infer ?env elapsed args (cl, w) =
        ((cl', w'), Ok (with_round_trip elapsed \<lparr>ar_message = response, ar_actions = br_actions result\<rparr>)) \<and>
      cl_next_request_id cl' = cl_next_request_id cl + 1 \<and> loop.usable se api_key (ce_unpackb ?env) cl' w'"
    using linked_usable [OF codec link] enc s(1) dec ans req
    by (intro loop.infer_answered [OF _ _ req])
      (auto simp: net_client_def intended_request_def received_request_def)
  then obtain cl' where c: "client_infer ?env elapsed args (cl, w) =
        ((cl', w'), Ok (with_round_trip elapsed \<lparr>ar_message = response, ar_actions = br_actions result\<rparr>))"
      "cl_next_request_id cl' = cl_next_request_id cl + 1" "loop.usable se api_key (se_unpackb se) cl' w'"
    by (auto simp: net_client_def)
  from c(3) have "linked se api_key cl' w'"
    by (auto simp: loop.usable_def linked_def split: option.splits)
  with c s r ans show ?thesis
    by (auto simp: intended_request_def received_request_def)
qed

text \<open>A codec for finitely many messages, each a number in unary.\<close>

fun table_packb :: "pyval list \<Rightarrow> pyval \<Rightarrow> byte list res" where
  "table_packb [] v = Err (TypeError ''cannot serialize'')"
| "table_packb (m # ms) v = (if m = v then Ok [] else res_bind (table_packb ms v) (\<lambda>p. Ok (0 # p)))"

definition table_unpackb :: "pyval list \<Rightarrow> byte list \<Rightarrow> pyval res" where
  "table_unpackb ms p = (if length p < length ms then Ok (ms ! length p) else Err (ValueError ''bad payload''))"

lemma table_codec: "table_packb ms v = Ok p \<Longrightarrow> table_unpackb ms p = Ok v"
  by (induction ms v arbitrary: p rule: table_packb.induct) (auto simp: table_unpackb_def split: if_splits)

lemma table_packb_length: "table_packb ms v = Ok p \<Longrightarrow> length p < length ms"
  by (induction ms v arbitrary: p rule: table_packb.induct) (auto split: if_splits)

lemma table_encodes:
  assumes "PDict m \<in> set ms" and "length ms \<le> MAX_MESSAGE_BYTES"
  shows "\<exists>p. encode_message (table_packb ms) m = Ok p"
proof -
  have "\<exists>p. table_packb ms (PDict m) = Ok p" using assms(1) by (induction ms) auto
  then obtain p where "table_packb ms (PDict m) = Ok p" by blast
  with table_packb_length [OF this] assms(2) show ?thesis by (simp add: encode_message_def)
qed

definition sample_response :: pydict where
  "sample_response = (case serve_infer (sample_env sample_chunk) sample_clock sample_message 0 of
     (_, Ok r) \<Rightarrow> r | _ \<Rightarrow> [])"

definition sample_table :: "pyval list" where
  "sample_table = [PDict (make_hello sample_metadata), PDict sample_message, PDict sample_response]"

definition sample_se :: "nat server_env" where
  "sample_se = (sample_env sample_chunk)\<lparr>se_packb := table_packb sample_table, se_unpackb := table_unpackb sample_table\<rparr>"

definition sample_net :: "nat net" where
  "sample_net = \<lparr>nw_server = sample_server, nw_inbox = [], nw_clock = (\<lambda>n. sample_clock), nw_turn = 0\<rparr>"

definition sample_client :: "unit client" where
  "sample_client = (client_init None (Fin 10) (Fin (1 / 4)))\<lparr>cl_next_request_id := 3\<rparr>"

definition sample_args :: infer_args where
  "sample_args = \<lparr>ia_control_step = 0, ia_timestamp_ns = 5, ia_instruction = ''go'',
     ia_images = [(''head'', sample_image, 5)], ia_state = sample_state, ia_timeout = None\<rparr>"

lemma sample_served: "serve_infer (sample_env sample_chunk) sample_clock sample_message 0 = (1, Ok sample_response)"
  using sample_serve by (auto simp: sample_response_def)

lemma sample_se_run:
  "run_inference sample_se ck request b = run_inference (sample_env sample_chunk) ck request b"
  "serve_infer sample_se ck message b = serve_infer (sample_env sample_chunk) ck message b"
proof -
  show r: "run_inference sample_se ck request b = run_inference (sample_env sample_chunk) ck request b" for request
    by (simp add: run_inference_def sample_se_def)
  have f: "se_metadata sample_se = se_metadata (sample_env sample_chunk)"
      "se_cast sample_se = se_cast (sample_env sample_chunk)"
    by (simp_all add: sample_se_def)
  show "serve_infer sample_se ck message b = serve_infer (sample_env sample_chunk) ck message b"
    unfolding serve_infer_def r f ..
qed

theorem client_end_to_end_witness:
  "\<exists>cl' w' answer. client_infer (net_client sample_se None (\<lambda>d a. Ok a) (\<lambda>v. [])) 1 sample_args
      (sample_client, sample_net) = ((cl', w'), Ok answer) \<and>
    ar_actions answer = sample_chunk \<and> sv_requests_total (nw_server w') = 1"
proof -
  have T: "length sample_table \<le> MAX_MESSAGE_BYTES" by (simp add: sample_table_def MAX_MESSAGE_BYTES_def)
  have codec: "se_packb sample_se v = Ok p \<Longrightarrow> se_unpackb sample_se p = Ok v" for v p
    by (simp add: sample_se_def table_codec)
  have link: "linked sample_se None sample_client sample_net"
    using table_encodes [OF _ T, of "make_hello sample_metadata"]
    by (auto simp: linked_def sample_client_def client_init_def net_greet_def handler_def sample_se_def sample_table_def)
  have intended: "intended_request sample_client sample_args = sample_request"
    by (simp add: intended_request_def sample_client_def client_init_def sample_args_def infer_timeout_def
        sample_request_def)
  have args: "sendable_args sample_client sample_args"
    using sample_sendable
    by (simp add: sendable_args_def sample_client_def client_init_def sample_args_def infer_timeout_def)
  have req: "client_request (net_client sample_se None (\<lambda>d a. Ok a) (\<lambda>v. [])) sample_args sample_client =
      Ok sample_message"
    using sample_message_parses(1)
    by (simp add: client_request_def net_client_def sample_client_def client_init_def sample_args_def infer_timeout_def)
  obtain p where p: "encode_message (se_packb sample_se) sample_message = Ok p"
    using table_encodes [OF _ T, of sample_message] by (auto simp: sample_se_def sample_table_def)
  obtain reply where reply: "encode_message (se_packb sample_se) sample_response = Ok reply"
    using table_encodes [OF _ T, of sample_response] by (auto simp: sample_se_def sample_table_def)
  have served: "serve_infer sample_se (nw_clock sample_net (nw_turn sample_net)) sample_message
      (sv_backend (nw_server sample_net)) = (1, Ok sample_response)"
    using sample_served by (simp add: sample_se_run sample_net_def sample_server_def)
  show ?thesis
    using client_end_to_end [OF codec link args req p served reply, of 1] sample_chunk_ok
    by (auto simp: intended sample_se_run sample_run sample_net_def sample_server_def)
qed

end
