(* ===== verification/Images.thy ===== *)
theory Images
  imports Protocol S600_Clamp
begin

text \<open>
  Camera images (\<open>images.py\<close> and \<open>S600Adapter._image\<close>).  An image is an array of
  rank three; its elements are byte groups of the element size.  Changes of layout
  are exact; the conversions between element types are parameters applied to one
  element at a time (\<open>image_ops\<close>), and so are the two JPEG codecs.
\<close>

section \<open>Elements and layouts\<close>

definition nd_elems :: "ndarray \<Rightarrow> byte list list" where
  "nd_elems a = chunks (prod_list (nd_shape a)) (itemsize (nd_dtype a)) (nd_data a)"

definition nd_of_elems :: "dtype \<Rightarrow> nat list \<Rightarrow> byte list list \<Rightarrow> ndarray" where
  "nd_of_elems d sh es = \<lparr>nd_dtype = d, nd_shape = sh, nd_data = concat es\<rparr>"

text \<open>
  \<open>np.moveaxis(image, 0, -1)\<close> on shape \<open>[c, h, w]\<close> and \<open>np.moveaxis(image, -1, 0)\<close>
  on shape \<open>[h, w, c]\<close> transpose the matrix of channels and pixels.
\<close>

definition transpose_flat :: "nat \<Rightarrow> nat \<Rightarrow> 'a list \<Rightarrow> 'a list" where
  "transpose_flat r q xs = map (\<lambda>n. xs ! (n mod r * q + n div r)) [0 ..< q * r]"

definition channels_last :: "ndarray \<Rightarrow> ndarray" where
  "channels_last a =
     (case nd_shape a of
        [c, h, w] \<Rightarrow> nd_of_elems (nd_dtype a) [h, w, c] (transpose_flat c (h * w) (nd_elems a))
      | _ \<Rightarrow> a)"

definition channels_first :: "ndarray \<Rightarrow> ndarray" where
  "channels_first a =
     (case nd_shape a of
        [h, w, c] \<Rightarrow> nd_of_elems (nd_dtype a) [c, h, w] (transpose_flat (h * w) c (nd_elems a))
      | _ \<Rightarrow> a)"

text \<open>\<open>image[..., :3]\<close>\<close>

definition first_channels :: "ndarray \<Rightarrow> ndarray" where
  "first_channels a =
     (case nd_shape a of
        [h, w, c] \<Rightarrow>
          nd_of_elems (nd_dtype a) [h, w, min c 3] (concat (map (take 3) (chunks (h * w) c (nd_elems a))))
      | _ \<Rightarrow> a)"

section \<open>Conversions\<close>

definition as_hwc :: "ndarray \<Rightarrow> ndarray res" where
  "as_hwc img =
     (if nd_ndim img \<noteq> 3 then Err (ValueError ''camera image must be rank 3'')
      else let img1 = (if hd (nd_shape img) \<in> {1, 3, 4} \<and> last (nd_shape img) \<notin> {1, 3, 4}
                       then channels_last img else img)
           in if last (nd_shape img1) \<notin> {1, 3, 4}
              then Err (ValueError ''camera image must be HWC or CHW RGB'')
              else Ok (first_channels img1))"

text \<open>
  The element conversions of NumPy: is the type a floating one, \<open>clip(x, 0, 1) * 255\<close>
  within the type, the casts to \<open>uint8\<close> and \<open>float32\<close>, and division by 255.
\<close>

record image_ops =
  im_floating :: "dtype \<Rightarrow> bool"
  im_scale :: "dtype \<Rightarrow> byte list \<Rightarrow> byte list"
  im_u8 :: "dtype \<Rightarrow> byte list \<Rightarrow> byte"
  im_f32 :: "dtype \<Rightarrow> byte list \<Rightarrow> f32"
  im_div255 :: "f32 \<Rightarrow> f32"

definition as_hwc_uint8 :: "image_ops \<Rightarrow> ndarray \<Rightarrow> ndarray res" where
  "as_hwc_uint8 ops img =
     res_bind (as_hwc img) (\<lambda>im.
       if nd_dtype im = DU8 then Ok im
       else let d = nd_dtype im;
                es = (if im_floating ops d then map (im_scale ops d) (nd_elems im) else nd_elems im)
            in Ok (nd_of_elems DU8 (nd_shape im) (map (\<lambda>e. [im_u8 ops d e]) es)))"

definition as_chw_uint8 :: "image_ops \<Rightarrow> ndarray \<Rightarrow> ndarray res" where
  "as_chw_uint8 ops img = res_bind (as_hwc_uint8 ops img) (\<lambda>im. Ok (channels_first im))"

text \<open>\<open>np.max\<close> of a non-empty array is NaN as soon as one element is, so the test fails then.\<close>

definition exceeds_unit :: "f32 list \<Rightarrow> bool" where
  "exceeds_unit xs = (\<not> list_ex f32_nan xs \<and> list_ex (\<lambda>x. 3 / 2 < f32_real x) xs)"

definition as_hwc_float01 :: "image_ops \<Rightarrow> ndarray \<Rightarrow> ndarray res" where
  "as_hwc_float01 ops img =
     res_bind (as_hwc img) (\<lambda>im.
       let xs = (if nd_dtype im = DF32 then nd_f32s im else map (im_f32 ops (nd_dtype im)) (nd_elems im));
           ys = (if exceeds_unit xs then map (im_div255 ops) xs else xs)
       in Ok (nd_of_f32s (nd_shape im) (map (\<lambda>y. np_clip y f32_zero f32_one) ys)))"

text \<open>
  \<open>encode_jpeg\<close>: with Pillow (\<open>None\<close> when it cannot be imported), else with OpenCV on the
  image with its channels reversed; the two codecs are parameters.
\<close>

definition reverse_channels :: "ndarray \<Rightarrow> ndarray" where
  "reverse_channels a =
     (case nd_shape a of
        [h, w, c] \<Rightarrow> nd_of_elems (nd_dtype a) [h, w, c] (concat (map rev (chunks (h * w) c (nd_elems a))))
      | _ \<Rightarrow> a)"

definition encode_jpeg ::
    "image_ops \<Rightarrow> (ndarray \<Rightarrow> byte list res) option \<Rightarrow> (ndarray \<Rightarrow> byte list option) \<Rightarrow> ndarray \<Rightarrow> byte list res" where
  "encode_jpeg ops pillow imencode value =
     res_bind (as_hwc_uint8 ops value) (\<lambda>array.
       case pillow of
         Some save \<Rightarrow> save array
       | None \<Rightarrow> (case imencode (reverse_channels array) of
                   None \<Rightarrow> Err (RuntimeError ''failed to encode image as JPEG'')
                 | Some b \<Rightarrow> Ok b))"

text \<open>\<open>S600Adapter._image\<close>: three channels, and a plain cast without scaling.\<close>

definition s600_image :: "(dtype \<Rightarrow> ndarray \<Rightarrow> ndarray res) \<Rightarrow> ndarray \<Rightarrow> ndarray res" where
  "s600_image cast img =
     (let img1 = (if nd_ndim img = 3 \<and> hd (nd_shape img) = 3 \<and> last (nd_shape img) \<noteq> 3
                  then channels_last img else img)
      in if nd_ndim img1 \<noteq> 3 \<or> last (nd_shape img1) \<noteq> 3
         then Err (ValueError ''S600 image must be HWC RGB'')
         else as_dtype cast DU8 img1)"

section \<open>Lemmas\<close>

lemma length_transpose_flat [simp]: "length (transpose_flat r q xs) = q * r"
  by (simp add: transpose_flat_def)

lemma row_major_less: "i < (h :: nat) \<Longrightarrow> j < w \<Longrightarrow> i * w + j < h * w"
proof -
  assume "i < h" "j < w"
  then have "i * w + j < Suc i * w" by simp
  also have "\<dots> \<le> h * w" using \<open>i < h\<close> by (intro mult_le_mono1) simp
  finally show ?thesis .
qed

lemma transpose_flat_nth:
  "p < q \<Longrightarrow> k < r \<Longrightarrow> transpose_flat r q xs ! (p * r + k) = xs ! (k * q + p)"
  using row_major_less [of p q k r] by (simp add: transpose_flat_def)

lemma transpose_transpose:
  assumes "length xs = r * q"
  shows "transpose_flat q r (transpose_flat r q xs) = xs"
proof (rule nth_equalityI)
  show "length (transpose_flat q r (transpose_flat r q xs)) = length xs"
    using assms by simp
  fix n
  assume "n < length (transpose_flat q r (transpose_flat r q xs))"
  then have n: "n < r * q" by simp
  then have "0 < q" by (cases q) simp_all
  then have "n mod q < q" and "n div q < r" and eq: "n div q * q + n mod q = n"
    using n by (simp_all add: less_mult_imp_div_less)
  from transpose_flat_nth [OF this(2,1), of "transpose_flat r q xs"] transpose_flat_nth [OF this(1,2), of xs] eq
  show "transpose_flat q r (transpose_flat r q xs) ! n = xs ! n" by simp
qed

lemma nd_wf_elems:
  assumes "nd_wf a"
  shows "length (nd_elems a) = prod_list (nd_shape a)" "e \<in> set (nd_elems a) \<Longrightarrow> length e = itemsize (nd_dtype a)"
    "nd_of_elems (nd_dtype a) (nd_shape a) (nd_elems a) = a"
  using assms concat_chunks [of "nd_data a" "prod_list (nd_shape a)" "itemsize (nd_dtype a)"]
  by (auto simp: nd_elems_def nd_wf_def nd_of_elems_def dest: chunks_width)

lemma nd_elems_of_elems:
  assumes "length es = prod_list sh" and "\<And>e. e \<in> set es \<Longrightarrow> length e = itemsize d"
  shows "nd_elems (nd_of_elems d sh es) = es" "nd_wf (nd_of_elems d sh es)"
proof -
  show "nd_elems (nd_of_elems d sh es) = es"
    using assms chunks_concat [of es "itemsize d"] by (simp add: nd_elems_def nd_of_elems_def)
  have "length (concat es) = length es * itemsize d"
    using assms(2) by (induction es) auto
  then show "nd_wf (nd_of_elems d sh es)" using assms(1) by (simp add: nd_wf_def nd_of_elems_def)
qed

lemma set_transpose_flat: "length xs = r * q \<Longrightarrow> set (transpose_flat r q xs) \<subseteq> set xs"
proof
  fix x
  assume len: "length xs = r * q" and "x \<in> set (transpose_flat r q xs)"
  then obtain n where n: "n < q * r" "x = xs ! (n mod r * q + n div r)"
    by (auto simp: transpose_flat_def)
  then have "0 < r" by (cases r) simp_all
  then have "n mod r * q + n div r < r * q"
    using n(1) by (intro row_major_less) (simp_all add: less_mult_imp_div_less)
  with len n show "x \<in> set xs" by simp
qed

lemma channels_moved:
  assumes "nd_wf a" and "nd_shape a = [c, h, w]"
  shows "nd_shape (channels_last a) = [h, w, c]" "nd_dtype (channels_last a) = nd_dtype a"
    "nd_elems (channels_last a) = transpose_flat c (h * w) (nd_elems a)" "nd_wf (channels_last a)"
    "channels_first (channels_last a) = a"
proof -
  have len: "length (nd_elems a) = c * (h * w)" using nd_wf_elems [OF assms(1)] assms(2) by simp
  show sh: "nd_shape (channels_last a) = [h, w, c]" and d: "nd_dtype (channels_last a) = nd_dtype a"
    using assms(2) by (simp_all add: channels_last_def nd_of_elems_def)
  have w: "length e = itemsize (nd_dtype a)" if "e \<in> set (transpose_flat c (h * w) (nd_elems a))" for e
    using that set_transpose_flat [OF len] nd_wf_elems(2) [OF assms(1)] by blast
  have cl: "channels_last a = nd_of_elems (nd_dtype a) [h, w, c] (transpose_flat c (h * w) (nd_elems a))"
    using assms(2) by (simp add: channels_last_def)
  show el: "nd_elems (channels_last a) = transpose_flat c (h * w) (nd_elems a)" and "nd_wf (channels_last a)"
    unfolding cl using w by (auto intro!: nd_elems_of_elems)
  show "channels_first (channels_last a) = a"
    using nd_wf_elems(3) [OF assms(1)] transpose_transpose [OF len] assms(2)
    by (simp add: channels_first_def sh d el)
qed

lemma first_channels_le3:
  assumes "nd_wf a" and "nd_shape a = [h, w, c]" and "c \<le> 3"
  shows "first_channels a = a"
proof -
  have len: "length (nd_elems a) = h * w * c" using nd_wf_elems(1) [OF assms(1)] assms(2) by simp
  have "map (take 3) (chunks (h * w) c (nd_elems a)) = chunks (h * w) c (nd_elems a)"
    using chunks_width [OF len] assms(3) by (intro map_idI) simp
  with nd_wf_elems(3) [OF assms(1)] concat_chunks [OF len] assms(2,3) show ?thesis
    by (simp add: first_channels_def min_def)
qed

lemma concat_take_length:
  "(\<And>r. r \<in> set rs \<Longrightarrow> length r = c) \<Longrightarrow> length (concat (map (take 3) rs)) = length rs * min c 3"
  by (induction rs) (auto simp: min_def)

lemma first_channels_wf:
  assumes "nd_wf a" and "nd_shape a = [h, w, c]"
  shows "nd_wf (first_channels a)" "nd_shape (first_channels a) = [h, w, min c 3]"
    "nd_dtype (first_channels a) = nd_dtype a"
proof -
  let ?rs = "chunks (h * w) c (nd_elems a)"
  have len: "length (nd_elems a) = h * w * c" using nd_wf_elems(1) [OF assms(1)] assms(2) by simp
  have rows: "length (concat (map (take 3) ?rs)) = h * w * min c 3"
    using concat_take_length [of ?rs c] chunks_width [OF len] by simp
  have "set (concat (map (take 3) ?rs)) \<subseteq> set (concat ?rs)"
    by (auto dest: in_set_takeD)
  then have "length e = itemsize (nd_dtype a)" if "e \<in> set (concat (map (take 3) ?rs))" for e
    using that concat_chunks [OF len] nd_wf_elems(2) [OF assms(1)] by auto
  with rows show "nd_wf (first_channels a)"
    using assms(2) by (auto simp: first_channels_def intro!: nd_elems_of_elems(2))
qed (use assms in \<open>simp_all add: first_channels_def nd_of_elems_def\<close>)

lemma as_hwc_Ok:
  assumes "nd_wf img" and "as_hwc img = Ok out"
  shows "nd_wf out \<and> nd_dtype out = nd_dtype img \<and> (\<exists>h w k. nd_shape out = [h, w, k] \<and> k \<in> {1, 3})"
proof -
  from assms(2) obtain s0 s1 s2 where sh: "nd_shape img = [s0, s1, s2]"
    by (auto simp: as_hwc_def length_Suc_conv numeral_3_eq_3 split: if_splits)
  define img1 where "img1 = (if s0 \<in> {1, 3, 4} \<and> s2 \<notin> {1, 3, 4} then channels_last img else img)"
  have out: "out = first_channels img1" "last (nd_shape img1) \<in> {1, 3, 4}"
    using assms(2) sh by (auto simp: as_hwc_def img1_def Let_def split: if_splits)
  have w: "nd_wf img1" "nd_dtype img1 = nd_dtype img"
    using assms(1) channels_moved [OF assms(1) sh] by (auto simp: img1_def)
  have "nd_shape img1 = [s1, s2, s0] \<or> nd_shape img1 = [s0, s1, s2]"
    using sh channels_moved(1) [OF assms(1) sh] by (auto simp: img1_def)
  then obtain h w k where s1: "nd_shape img1 = [h, w, k]" by blast
  with out(2) have "k \<in> {1, 3, 4}" by simp
  then have "min k 3 \<in> {1, 3}" by auto
  with first_channels_wf [OF w(1) s1] w(2) out(1) show ?thesis by auto
qed

section \<open>Properties\<close>

text \<open>
  Every camera image that normalisation accepts can be sent.  Whatever the
  layout (HWC or CHW) and the element type of a rank-three image, a result of
  \<open>as_hwc_uint8\<close> is a well-formed \<open>uint8\<close> image of one or three channels, which the
  protocol's own check of images admits.
\<close>

theorem normalised_images_sendable:
  assumes "nd_wf img" and "as_hwc_uint8 ops img = Ok out"
  shows "nd_dtype out = DU8 \<and> nd_wf out \<and> hwc_channels_ok (nd_shape out)"
proof -
  from assms(2) obtain im where im: "as_hwc img = Ok im"
    by (auto simp: as_hwc_uint8_def)
  note ok = as_hwc_Ok [OF assms(1) im]
  then have ch: "hwc_channels_ok (nd_shape im)" by (auto simp: hwc_channels_ok_def)
  show ?thesis
  proof (cases "nd_dtype im = DU8")
    case True
    with assms(2) im ok ch show ?thesis by (auto simp: as_hwc_uint8_def)
  next
    case False
    define es where "es = (if im_floating ops (nd_dtype im) then map (im_scale ops (nd_dtype im)) (nd_elems im)
      else nd_elems im)"
    have "length es = prod_list (nd_shape im)"
      using nd_wf_elems(1) [of im] ok by (simp add: es_def)
    then have "nd_wf (nd_of_elems DU8 (nd_shape im) (map (\<lambda>e. [im_u8 ops (nd_dtype im) e]) es))"
      by (intro nd_elems_of_elems(2)) auto
    moreover have "out = nd_of_elems DU8 (nd_shape im) (map (\<lambda>e. [im_u8 ops (nd_dtype im) e]) es)"
      using assms(2) im False by (simp add: as_hwc_uint8_def Let_def es_def)
    ultimately show ?thesis using ch by (simp add: nd_of_elems_def)
  qed
qed

definition plain_ops :: image_ops where
  "plain_ops = \<lparr>im_floating = (\<lambda>d. False), im_scale = (\<lambda>d e. e), im_u8 = (\<lambda>d e. 0), im_f32 = (\<lambda>d e. f32_zero),
     im_div255 = (\<lambda>x. x)\<rparr>"

definition chw_sample :: ndarray where
  "chw_sample = \<lparr>nd_dtype = DU8, nd_shape = [3, 2, 2], nd_data = [11, 12, 13, 14, 21, 22, 23, 24, 31, 32, 33, 34]\<rparr>"

lemma chw_sample_hwc:
  "as_hwc_uint8 plain_ops chw_sample =
     Ok \<lparr>nd_dtype = DU8, nd_shape = [2, 2, 3], nd_data = [11, 21, 31, 12, 22, 32, 13, 23, 33, 14, 24, 34]\<rparr>"
  by code_simp

theorem normalised_images_sendable_witness:
  "\<exists>out. as_hwc_uint8 plain_ops chw_sample = Ok out \<and> nd_dtype out = DU8 \<and> nd_wf out \<and>
     hwc_channels_ok (nd_shape out)"
proof -
  have "nd_wf chw_sample" by (simp add: nd_wf_def chw_sample_def)
  from normalised_images_sendable [OF this chw_sample_hwc] chw_sample_hwc show ?thesis by blast
qed

text \<open>
  Layout changes keep every pixel.  A \<open>uint8\<close> image in CHW layout whose width
  is not itself a channel count is turned into HWC layout with the pixel \<open>(i, j)\<close>
  of channel \<open>k\<close> at its place, and \<open>as_chw_uint8\<close> returns the very same image.
\<close>

theorem chw_image_roundtrip:
  assumes "nd_wf img" and "nd_dtype img = DU8" and "nd_shape img = [c, h, w]" and "c \<in> {1, 3}"
    and "w \<notin> {1, 3, 4}"
  shows "as_chw_uint8 ops img = Ok img \<and>
    (\<exists>out. as_hwc_uint8 ops img = Ok out \<and>
       (\<forall>i < h. \<forall>j < w. \<forall>k < c. nd_elems out ! ((i * w + j) * c + k) = nd_elems img ! (k * (h * w) + (i * w + j))))"
proof -
  note m = channels_moved [OF assms(1,3)]
  have "first_channels (channels_last img) = channels_last img"
    using m assms(4) by (intro first_channels_le3) auto
  with assms m have hwc: "as_hwc_uint8 ops img = Ok (channels_last img)"
    by (auto simp: as_hwc_uint8_def as_hwc_def Let_def)
  have "nd_elems (channels_last img) ! ((i * w + j) * c + k) = nd_elems img ! (k * (h * w) + (i * w + j))"
    if "i < h" "j < w" "k < c" for i j k
    using that row_major_less [OF that(1,2)] by (simp add: m transpose_flat_nth)
  with hwc m(5) show ?thesis by (simp add: as_chw_uint8_def)
qed

theorem chw_image_roundtrip_witness:
  "as_chw_uint8 plain_ops chw_sample = Ok chw_sample"
  using chw_image_roundtrip [of chw_sample 3 2 2 plain_ops] by (simp add: nd_wf_def chw_sample_def)

text \<open>
  A gray image keeps its single channel: the documentation of \<open>as_hwc\<close> promises
  exactly three.
\<close>

theorem gray_stays_gray:
  assumes "nd_wf img" and "nd_shape img = [h, w, 1]"
  shows "as_hwc img = Ok img"
  using first_channels_le3 [OF assms] assms(2) by (auto simp: as_hwc_def)

end
