(* ===== verification/Robotwin.thy ===== *)
theory Robotwin
  imports Images Client Robots
begin

text \<open>
  The closed loop of \<open>simulators/robotwin/\<close> and the S600 adapter's \<open>infer\<close>: an
  observation becomes an inference request, the returned chunk becomes raw robot
  actions, and the episode loop feeds them to an environment.  The client is a
  parameter of the adapters (an operation with effects on a state \<open>'x\<close>), and so is
  the environment of the episode loop; both are instantiated by the models of the
  client and of the demo environment.
\<close>

section \<open>Observations\<close>

datatype obs = OArray ndarray | OVal pyval | OMap "(string \<times> obs) list"

text \<open>
  \<open>x.get(key)\<close>: the value or \<open>None\<close>; other objects have no such method.  The entries
  an adapter looks into (\<open>observation\<close>, \<open>vision\<close>) are taken to be dictionaries.
\<close>

fun obs_get :: "obs \<Rightarrow> string \<Rightarrow> obs res" where
  "obs_get (OMap d) k = Ok (case map_of d k of None \<Rightarrow> OVal PNone | Some v \<Rightarrow> v)"
| "obs_get (OVal (PDict d)) k = Ok (OVal (dget_none d k))"
| "obs_get _ k = Err (AttributeError ''get'')"

fun obs_get_or :: "obs \<Rightarrow> string \<Rightarrow> obs \<Rightarrow> obs res" where
  "obs_get_or (OMap d) k dflt = Ok (case map_of d k of None \<Rightarrow> dflt | Some v \<Rightarrow> v)"
| "obs_get_or (OVal (PDict d)) k dflt = Ok (case dget d k of None \<Rightarrow> dflt | Some v \<Rightarrow> OVal v)"
| "obs_get_or _ k dflt = Err (AttributeError ''get'')"

fun obs_has :: "obs \<Rightarrow> string \<Rightarrow> bool" where
  "obs_has (OMap d) k = (map_of d k \<noteq> None)"
| "obs_has (OVal (PDict d)) k = (dget d k \<noteq> None)"
| "obs_has _ k = False"

text \<open>\<open>np.asarray\<close> of a value that is not an array is a parameter.\<close>

fun np_asarray :: "(obs \<Rightarrow> ndarray res) \<Rightarrow> obs \<Rightarrow> ndarray res" where
  "np_asarray conv (OArray a) = Ok a"
| "np_asarray conv v = conv v"

text \<open>Truthiness; NumPy refuses it for an array of several elements.\<close>

fun obs_bool :: "obs \<Rightarrow> bool res" where
  "obs_bool (OVal v) = Ok (py_bool v)"
| "obs_bool (OMap d) = Ok (d \<noteq> [])"
| "obs_bool (OArray a) = Err (ValueError ''the truth value of an array is ambiguous'')"

fun obs_str :: "(obs \<Rightarrow> string) \<Rightarrow> obs \<Rightarrow> string" where
  "obs_str show_obs (OVal (PStr s)) = s"
| "obs_str show_obs v = show_obs v"

section \<open>The adapters\<close>

record adapter_env =
  ae_cast :: "dtype \<Rightarrow> ndarray \<Rightarrow> ndarray res"
  ae_images :: image_ops
  ae_conv :: "obs \<Rightarrow> ndarray res"
  ae_show :: "obs \<Rightarrow> string"

record robotwin_adapter =
  ra_default_instruction :: string
  ra_contract :: robot_contract
  ra_camera_aliases :: "(string \<times> string list) list"

definition ROBOTWIN_CAMERA_ALIASES :: "(string \<times> string list) list" where
  "ROBOTWIN_CAMERA_ALIASES =
     [(''head'', [''head_camera'', ''cam_head'', ''cam_high'']),
      (''left_wrist'', [''left_camera'', ''cam_left_wrist'', ''left_wrist'']),
      (''right_wrist'', [''right_camera'', ''cam_right_wrist'', ''right_wrist''])]"

definition robotwin_adapter_init ::
    "string \<Rightarrow> robot_contract \<Rightarrow> (string \<times> string list) list option \<Rightarrow> robotwin_adapter" where
  "robotwin_adapter_init default_instruction contract camera_aliases =
     \<lparr>ra_default_instruction = default_instruction, ra_contract = contract,
      ra_camera_aliases = (case camera_aliases of None \<Rightarrow> ROBOTWIN_CAMERA_ALIASES | Some m \<Rightarrow> m)\<rparr>"

definition camera_value :: "adapter_env \<Rightarrow> obs \<Rightarrow> ndarray res" where
  "camera_value env v =
     res_bind (case v of
         OMap d \<Rightarrow> res_bind (obs_get v ''color'') (\<lambda>c. obs_get_or v ''rgb'' c)
       | OVal (PDict d) \<Rightarrow> res_bind (obs_get v ''color'') (\<lambda>c. obs_get_or v ''rgb'' c)
       | _ \<Rightarrow> Ok v) (\<lambda>u.
     res_bind (np_asarray (ae_conv env) u) (as_hwc_uint8 (ae_images env)))"

definition find_camera :: "obs \<Rightarrow> string list \<Rightarrow> obs res" where
  "find_camera camera_root aliases =
     (case filter (obs_has camera_root) aliases of
        [] \<Rightarrow> Err (KeyError ''missing RoboTwin camera'')
      | alias # _ \<Rightarrow>
          res_bind (obs_get camera_root alias) (\<lambda>found.
            if found = OVal PNone then Err (KeyError ''missing RoboTwin camera'') else Ok found))"

definition extract_images ::
    "adapter_env \<Rightarrow> robotwin_adapter \<Rightarrow> int \<Rightarrow> obs \<Rightarrow> (string \<times> ndarray \<times> int) list res" where
  "extract_images env ad now observation =
     res_bind (obs_get_or observation ''observation'' observation) (\<lambda>observation_root.
     res_bind (obs_get_or observation_root ''vision'' observation_root) (\<lambda>camera_root.
       mapM (\<lambda>(canonical, aliases).
         res_bind (find_camera camera_root aliases) (\<lambda>found.
         res_bind (camera_value env found) (\<lambda>img. Ok (canonical, img, now)))) (ra_camera_aliases ad)))"

definition extract_state :: "adapter_env \<Rightarrow> robotwin_adapter \<Rightarrow> obs \<Rightarrow> ndarray res" where
  "extract_state env ad observation =
     res_bind (if obs_has observation ''joint_action''
               then res_bind (obs_get observation ''joint_action'') (\<lambda>j. obs_get j ''vector'')
               else obs_get observation ''state'') (\<lambda>state.
       if state = OVal PNone
       then Err (KeyError ''RoboTwin observation has no state or joint_action.vector'')
       else res_bind (np_asarray (ae_conv env) state) (validate_raw_state (ae_cast env) (ra_contract ad)))"

text \<open>\<open>instruction or observation.get("instruction") or observation.get("language") or default\<close>\<close>

fun first_truthy :: "obs res list \<Rightarrow> obs \<Rightarrow> obs res" where
  "first_truthy [] dflt = Ok dflt"
| "first_truthy (r # rs) dflt =
     res_bind r (\<lambda>v. res_bind (obs_bool v) (\<lambda>b. if b then Ok v else first_truthy rs dflt))"

definition choose_instruction ::
    "adapter_env \<Rightarrow> robotwin_adapter \<Rightarrow> string option \<Rightarrow> obs \<Rightarrow> string res" where
  "choose_instruction env ad instruction observation =
     res_bind (first_truthy
       [Ok (case instruction of None \<Rightarrow> OVal PNone | Some i \<Rightarrow> OVal (PStr i)),
        obs_get observation ''instruction'', obs_get observation ''language'']
       (OVal (PStr (ra_default_instruction ad)))) (\<lambda>v. Ok (obs_str (ae_show env) v))"

text \<open>An action response together with \<open>response["raw_actions"]\<close>.\<close>

record raw_response = action_response +
  rr_raw_actions :: ndarray

definition with_raw_actions :: "action_response \<Rightarrow> ndarray \<Rightarrow> raw_response" where
  "with_raw_actions response raw =
     \<lparr>ar_message = ar_message response, ar_actions = ar_actions response, rr_raw_actions = raw\<rparr>"

definition robotwin_args ::
    "adapter_env \<Rightarrow> robotwin_adapter \<Rightarrow> int \<Rightarrow> int \<Rightarrow> string option \<Rightarrow> int \<Rightarrow> pyfloat option \<Rightarrow> obs \<Rightarrow>
     (ndarray \<times> infer_args) res" where
  "robotwin_args env ad timestamp now instruction control_step timeout observation =
     res_bind (choose_instruction env ad instruction observation) (\<lambda>text.
     res_bind (extract_state env ad observation) (\<lambda>raw_state.
     res_bind (extract_images env ad now observation) (\<lambda>images.
     res_bind (state_to_model (ae_cast env) (ra_contract ad) raw_state) (\<lambda>state.
       Ok (raw_state,
           \<lparr>ia_control_step = control_step, ia_timestamp_ns = timestamp, ia_instruction = text,
            ia_images = images, ia_state = state, ia_timeout = timeout\<rparr>)))))"

definition robotwin_infer ::
    "adapter_env \<Rightarrow> robotwin_adapter \<Rightarrow> (infer_args \<Rightarrow> ('x, action_response) io) \<Rightarrow> int \<Rightarrow> int \<Rightarrow>
     string option \<Rightarrow> int \<Rightarrow> pyfloat option \<Rightarrow> obs \<Rightarrow> ('x, raw_response) io" where
  "robotwin_infer env ad infer timestamp now instruction control_step timeout observation =
     io_bind (io_lift (robotwin_args env ad timestamp now instruction control_step timeout observation))
       (\<lambda>(raw_state, args).
     io_bind (infer args) (\<lambda>response.
     io_bind (io_lift (actions_to_raw (ae_cast env) (ra_contract ad) (ar_actions response) raw_state)) (\<lambda>raw.
       io_return (with_raw_actions response raw))))"

text \<open>\<open>S600Adapter.infer\<close>\<close>

definition camera_order :: "string list" where
  "camera_order = [''head'', ''left_wrist'', ''right_wrist'']"

definition s600_args ::
    "adapter_env \<Rightarrow> (string \<times> ndarray) list \<Rightarrow> ndarray \<Rightarrow> string \<Rightarrow> int \<Rightarrow> int \<Rightarrow> pyfloat option \<Rightarrow>
     (ndarray \<times> infer_args) res" where
  "s600_args env images state instruction control_step timestamp_ns timeout =
     (if list_ex (\<lambda>name. map_of images name = None) camera_order
      then Err (KeyError ''missing S600 cameras'')
      else
        res_bind (s600_validate_raw_state (ae_cast env) state) (\<lambda>raw_state.
        res_bind (mapM (\<lambda>name. case map_of images name of
             None \<Rightarrow> Err (KeyError name)
           | Some img \<Rightarrow> res_bind (s600_image (ae_cast env) img) (\<lambda>i. Ok (name, i, timestamp_ns)))
           camera_order) (\<lambda>entries.
        res_bind (state_to_model (ae_cast env) DAZZ_S600_CONTRACT raw_state) (\<lambda>model_state.
          Ok (raw_state,
              \<lparr>ia_control_step = control_step, ia_timestamp_ns = timestamp_ns, ia_instruction = instruction,
               ia_images = entries, ia_state = model_state, ia_timeout = timeout\<rparr>)))))"

definition s600_infer ::
    "adapter_env \<Rightarrow> (infer_args \<Rightarrow> ('x, action_response) io) \<Rightarrow> (string \<times> ndarray) list \<Rightarrow> ndarray \<Rightarrow>
     string \<Rightarrow> int \<Rightarrow> int \<Rightarrow> pyfloat option \<Rightarrow> ('x, raw_response) io" where
  "s600_infer env infer images state instruction control_step timestamp_ns timeout =
     io_bind (io_lift (s600_args env images state instruction control_step timestamp_ns timeout))
       (\<lambda>(raw_state, args).
     io_bind (infer args) (\<lambda>response.
     io_bind (io_lift (actions_to_raw (ae_cast env) DAZZ_S600_CONTRACT (ar_actions response) raw_state)) (\<lambda>raw.
       io_return (with_raw_actions response raw))))"

section \<open>The remote policy\<close>

record policy =
  po_exec_horizon :: int
  po_timeout :: pyfloat
  po_current :: "obs option"
  po_control_step :: int

definition policy_init :: "int \<Rightarrow> pyfloat \<Rightarrow> policy res" where
  "policy_init exec_horizon timeout =
     (if exec_horizon \<le> 0 then Err (ValueError ''exec_horizon must be positive'')
      else Ok \<lparr>po_exec_horizon = exec_horizon, po_timeout = timeout, po_current = None, po_control_step = 0\<rparr>)"

definition update_obs :: "obs \<Rightarrow> policy \<Rightarrow> policy" where
  "update_obs observation p = p\<lparr>po_current := Some observation\<rparr>"

definition policy_reset :: "('x, unit) io \<Rightarrow> (policy \<times> 'x, unit) io" where
  "policy_reset reset_client px =
     (case reset_client (snd px) of
        (x', r) \<Rightarrow> (((fst px)\<lparr>po_current := None, po_control_step := 0\<rparr>, x'), r))"

text \<open>The rows of \<open>raw_actions[:exec_horizon]\<close>.\<close>

definition nd_rows :: "ndarray \<Rightarrow> f32 list list" where
  "nd_rows a = (case nd_shape a of [n, w] \<Rightarrow> chunks n w (nd_f32s a) | _ \<Rightarrow> [])"

definition executed_rows :: "policy \<Rightarrow> ndarray \<Rightarrow> f32 list list" where
  "executed_rows p raw = take (nat (po_exec_horizon p)) (nd_rows raw)"

definition get_action ::
    "adapter_env \<Rightarrow> robotwin_adapter \<Rightarrow> (infer_args \<Rightarrow> ('x, action_response) io) \<Rightarrow> int \<Rightarrow> int \<Rightarrow>
     (policy \<times> 'x, (string \<times> f32 list) list list) io" where
  "get_action env ad infer timestamp now px =
     (let p = fst px
      in case po_current p of
           None \<Rightarrow> (px, Err (RuntimeError ''update_obs must be called before get_action''))
         | Some observation \<Rightarrow>
             (case robotwin_infer env ad infer timestamp now None (po_control_step p) (Some (po_timeout p))
                     observation (snd px) of
                (x', Err e) \<Rightarrow> ((p, x'), Err e)
              | (x', Ok response) \<Rightarrow>
                  (let actions = executed_rows p (rr_raw_actions response)
                   in ((p\<lparr>po_control_step := po_control_step p + int (length actions)\<rparr>, x'),
                       mapM (\<lambda>row. action_dict (ae_cast env) (ra_contract ad) (vec row)) actions))))"

section \<open>The episode loop\<close>

text \<open>\<open>flatten_qpos_action\<close> on an action dictionary and on any other value.\<close>

fun flatten_qpos_action :: "(string \<times> f32 list) list \<Rightarrow> f32 list res" where
  "flatten_qpos_action action =
     (if list_ex (\<lambda>k. map_of action k = None) qpos_fields
      then Err (KeyError ''RoboTwin qpos action is missing fields'')
      else Ok (concat (map (\<lambda>k. the (map_of action k)) qpos_fields)))"

record ('a, 'b, 'x) episode_ops =
  eo_env_reset :: "('x, unit) io"
  eo_policy_reset :: "('x, unit) io"
  eo_end :: "'x \<Rightarrow> bool"
  eo_observe :: "('x, unit) io"
  eo_get_action :: "('x, 'a list) io"
  eo_transform :: "'a \<Rightarrow> 'b res"
  eo_take :: "'b \<Rightarrow> ('x, unit) io"
  eo_on_step :: "nat \<Rightarrow> 'b \<Rightarrow> ('x, unit) io"

text \<open>The \<open>for\<close> loop over a chunk: whether the episode is over, and the steps executed.\<close>

fun run_chunk :: "('a, 'b, 'x) episode_ops \<Rightarrow> nat option \<Rightarrow> 'a list \<Rightarrow> nat \<Rightarrow> ('x, bool \<times> nat) io" where
  "run_chunk ops max_steps [] executed x = (x, Ok (False, executed))"
| "run_chunk ops max_steps (a # rest) executed x =
     io_bind (io_lift (eo_transform ops a)) (\<lambda>b.
     io_bind (eo_take ops b) (\<lambda>_.
     io_bind (eo_on_step ops (Suc executed) b) (\<lambda>_ x'.
       if eo_end ops x' \<or> (case max_steps of None \<Rightarrow> False | Some m \<Rightarrow> m \<le> Suc executed)
       then (x', Ok (True, Suc executed))
       else run_chunk ops max_steps rest (Suc executed) x'))) x"

text \<open>The \<open>while\<close> loop; that it may run for ever is the value \<open>None\<close>.\<close>

partial_function (option) episode_loop ::
    "('a, 'b, 'x) episode_ops \<Rightarrow> nat option \<Rightarrow> nat \<Rightarrow> 'x \<Rightarrow> ('x \<times> nat res) option" where
  "episode_loop ops max_steps executed x =
     (if eo_end ops x then Some (x, Ok executed)
      else case io_bind (eo_observe ops) (\<lambda>_. eo_get_action ops) x of
          (x1, Err e) \<Rightarrow> Some (x1, Err e)
        | (x1, Ok actions) \<Rightarrow>
            (if actions = [] then Some (x1, Err (RuntimeError ''policy returned an empty action chunk''))
             else case run_chunk ops max_steps actions executed x1 of
                 (x2, Err e) \<Rightarrow> Some (x2, Err e)
               | (x2, Ok (over, n)) \<Rightarrow>
                   (if over then Some (x2, Ok n) else episode_loop ops max_steps n x2)))"

declare episode_loop.simps [code]

definition run_episode ::
    "('a, 'b, 'x) episode_ops \<Rightarrow> int option \<Rightarrow> 'x \<Rightarrow> ('x \<times> nat res) option" where
  "run_episode ops max_steps x =
     (if (case max_steps of None \<Rightarrow> False | Some m \<Rightarrow> m \<le> 0)
      then Some (x, Err (ValueError ''max_steps must be positive''))
      else case io_bind (eo_env_reset ops) (\<lambda>_. eo_policy_reset ops) x of
          (x1, Err e) \<Rightarrow> Some (x1, Err e)
        | (x1, Ok _) \<Rightarrow> episode_loop ops (map_option nat max_steps) 0 x1)"

section \<open>The demo environment\<close>

record demo_env =
  de_episode_steps :: nat
  de_image_size :: nat
  de_contract :: robot_contract
  de_steps :: nat
  de_raw_state :: "f32 list"
  de_actions :: "f32 list list"

definition demo_init :: "int \<Rightarrow> int \<Rightarrow> robot_contract \<Rightarrow> demo_env res" where
  "demo_init episode_steps image_size contract =
     (if episode_steps \<le> 0 then Err (ValueError ''episode_steps must be positive'')
      else if image_size \<le> 0 then Err (ValueError ''image_size must be positive'')
      else Ok \<lparr>de_episode_steps = nat episode_steps, de_image_size = nat image_size, de_contract = contract,
               de_steps = 0, de_raw_state = replicate (nat (rc_raw_state_dim contract)) f32_zero,
               de_actions = []\<rparr>)"

definition demo_reset :: "demo_env \<Rightarrow> demo_env" where
  "demo_reset d = d\<lparr>de_steps := 0, de_actions := [], de_raw_state := map (\<lambda>_. f32_zero) (de_raw_state d)\<rparr>"

definition demo_end :: "demo_env \<Rightarrow> bool" where
  "demo_end d = (de_episode_steps d \<le> de_steps d)"

definition demo_image :: "demo_env \<Rightarrow> ndarray" where
  "demo_image d =
     \<lparr>nd_dtype = DU8, nd_shape = [de_image_size d, de_image_size d, 3],
      nd_data = concat (replicate (de_image_size d * de_image_size d)
                  [of_nat (min 255 (de_steps d * 8)), 0, 0])\<rparr>"

definition demo_obs :: "demo_env \<Rightarrow> obs" where
  "demo_obs d =
     (let camera = OMap [(''rgb'', OArray (demo_image d))]
      in OMap [(''instruction'', OVal (PStr ''move safely in the demo scene'')),
               (''observation'', OMap [(''head_camera'', camera), (''left_camera'', camera),
                                     (''right_camera'', camera)]),
               (''joint_action'', OMap [(''vector'', OArray (vec (de_raw_state d)))])])"

text \<open>\<open>self.raw_state[:command_dim] = value\<close> writes as many coordinates as there are.\<close>

definition demo_take :: "f32 list \<Rightarrow> demo_env \<Rightarrow> demo_env \<times> unit res" where
  "demo_take value d =
     (if int (length value) \<noteq> command_action_dim (de_contract d) \<or> \<not> list_all f32_finite value
      then (d, Err (ValueError ''demo RoboTwin action must be finite qpos''))
      else if length (de_raw_state d) < length value
      then (d\<lparr>de_actions := de_actions d @ [value]\<rparr>, Err (ValueError ''could not broadcast input array''))
      else (d\<lparr>de_actions := de_actions d @ [value],
              de_raw_state := value @ drop (length value) (de_raw_state d),
              de_steps := Suc (de_steps d)\<rparr>, Ok ()))"

text \<open>
  The command line's composition: the demo environment, the remote policy and the
  client, with the flattened action format.  The readings of \<open>time.time_ns()\<close> are
  functions of the environment's step.
\<close>

definition demo_ops ::
    "adapter_env \<Rightarrow> robotwin_adapter \<Rightarrow> (infer_args \<Rightarrow> ('x, action_response) io) \<Rightarrow> ('x, unit) io \<Rightarrow>
     (nat \<Rightarrow> int) \<Rightarrow> (nat \<Rightarrow> int) \<Rightarrow>
     ((string \<times> f32 list) list, f32 list, demo_env \<times> policy \<times> 'x) episode_ops" where
  "demo_ops env ad infer reset_client timestamp now =
     \<lparr>eo_env_reset = (\<lambda>(d, px). ((demo_reset d, px), Ok ())),
      eo_policy_reset = (\<lambda>(d, px). case policy_reset reset_client px of (px', r) \<Rightarrow> ((d, px'), r)),
      eo_end = (\<lambda>(d, px). demo_end d),
      eo_observe = (\<lambda>(d, p, x). ((d, update_obs (demo_obs d) p, x), Ok ())),
      eo_get_action = (\<lambda>(d, px). 
         case get_action env ad infer (timestamp (de_steps d)) (now (de_steps d)) px of (px', r) \<Rightarrow> ((d, px'), r)),
      eo_transform = flatten_qpos_action,
      eo_take = (\<lambda>v (d, px). case demo_take v d of (d', r) \<Rightarrow> ((d', px), r)),
      eo_on_step = (\<lambda>n v x. (x, Ok ()))\<rparr>"

section \<open>Episodes with a bounded number of steps\<close>

text \<open>
  What the episode loop needs of an environment to end: a number of steps left
  that only \<open>take_action\<close> changes, and by one.
\<close>

locale countdown_episode =
  fixes ops :: "('a, 'b, 'x) episode_ops" and left :: "'x \<Rightarrow> nat" and inv :: "'x \<Rightarrow> bool"
  assumes end_iff: "eo_end ops x = (left x = 0)"
    and observe: "eo_observe ops x = (x', r) \<Longrightarrow> left x' = left x \<and> (inv x \<longrightarrow> inv x')"
    and acting: "eo_get_action ops x = (x', r') \<Longrightarrow> left x' = left x \<and> (inv x \<longrightarrow> inv x')"
    and taking: "eo_take ops b x = (x', Ok u) \<Longrightarrow> 0 < left x \<Longrightarrow>
      left x = Suc (left x') \<and> (inv x \<longrightarrow> inv x')"
    and noting: "eo_on_step ops n b x = (x', r) \<Longrightarrow> left x' = left x \<and> (inv x \<longrightarrow> inv x')"
begin

definition below :: "nat option \<Rightarrow> nat \<Rightarrow> bool" where
  "below ms n = (case ms of None \<Rightarrow> True | Some k \<Rightarrow> n < k)"

lemma chunk_counts:
  assumes "run_chunk ops ms as n x = (x', Ok (over, m))" and "0 < left x" and "below ms n"
  shows "m + left x' = n + left x \<and> (inv x \<longrightarrow> inv x') \<and> (ms = None \<or> m \<le> the ms) \<and>
    (if over then left x' = 0 \<or> ms = Some m else 0 < left x' \<and> below ms m \<and> m = n + length as)"
  using assms
proof (induction as arbitrary: n x)
  case Nil
  then show ?case by (cases ms) (auto simp: below_def)
next
  case (Cons a as)
  from Cons.prems(1) obtain b x1 u x2 v where
      t: "eo_take ops b x = (x1, Ok u)" and s: "eo_on_step ops (Suc n) b x1 = (x2, Ok v)"
      and k: "(if eo_end ops x2 \<or> (case ms of None \<Rightarrow> False | Some m \<Rightarrow> m \<le> Suc n)
        then (x2, Ok (True, Suc n)) else run_chunk ops ms as (Suc n) x2) = (x', Ok (over, m))"
    by (auto simp: io_bind_eq_Ok io_run)
  have l: "left x = Suc (left x2) \<and> (inv x \<longrightarrow> inv x2)"
    using taking [OF t Cons.prems(2)] noting [OF s] by simp
  show ?case
  proof (cases "eo_end ops x2 \<or> (case ms of None \<Rightarrow> False | Some m \<Rightarrow> m \<le> Suc n)")
    case True
    with k l Cons.prems(3) show ?thesis
      by (cases ms) (auto simp: end_iff below_def)
  next
    case False
    then have "0 < left x2" "below ms (Suc n)"
      by (cases ms; simp add: end_iff below_def)+
    from Cons.IH [OF _ this] False k l show ?thesis by (auto split: if_splits)
  qed
qed

lemma loop_ends:
  assumes "left x = 0 \<or> below ms n"
  shows "\<exists>x' r. episode_loop ops ms n x = Some (x', r) \<and>
    (\<forall>m. r = Ok m \<longrightarrow> m + left x' = n + left x \<and> (inv x \<longrightarrow> inv x') \<and>
       (if left x = 0 then m = n else m = (case ms of None \<Rightarrow> n + left x | Some k \<Rightarrow> min k (n + left x))))"
  using assms
proof (induction "left x" arbitrary: n x rule: less_induct)
  case less
  show ?case
  proof (cases "left x = 0")
    case True
    then show ?thesis by (subst episode_loop.simps) (simp add: end_iff)
  next
    case False
    then have go: "0 < left x" "below ms n" "\<not> eo_end ops x" using less.prems by (auto simp: end_iff)
    obtain x1 r1 where a: "io_bind (eo_observe ops) (\<lambda>_. eo_get_action ops) x = (x1, r1)"
      by (cases "io_bind (eo_observe ops) (\<lambda>_. eo_get_action ops) x")
    have l1: "left x1 = left x \<and> (inv x \<longrightarrow> inv x1)"
      using a by (auto simp: io_bind_def split: prod.splits res.splits dest!: observe acting)
    consider e where "r1 = Err e" | "r1 = Ok []" | acts where "r1 = Ok acts" "acts \<noteq> []"
      by (cases r1) auto
    then show ?thesis
    proof cases
      case 3
      obtain x2 r2 where c: "run_chunk ops ms acts n x1 = (x2, r2)" by (cases "run_chunk ops ms acts n x1")
      show ?thesis
      proof (cases r2)
        case (Err e)
        with 3 a c go show ?thesis by (subst episode_loop.simps) simp
      next
        case (Ok om)
        then obtain over m where om: "r2 = Ok (over, m)" by (cases om) auto
        have cc: "m + left x2 = n + left x \<and> (inv x \<longrightarrow> inv x2) \<and> (ms = None \<or> m \<le> the ms) \<and>
            (if over then left x2 = 0 \<or> ms = Some m else 0 < left x2 \<and> below ms m \<and> m = n + length acts)"
          using chunk_counts [OF c [unfolded om]] go(1,2) l1 by (auto split del: if_split)
        show ?thesis
        proof (cases over)
          case True
          with 3 a c om go have "episode_loop ops ms n x = Some (x2, Ok m)"
            by (subst episode_loop.simps) simp
          with cc True go show ?thesis by (auto split: option.splits)
        next
          case False
          have step: "episode_loop ops ms n x = episode_loop ops ms m x2"
            using 3 a c om go False by (subst episode_loop.simps) simp
          have c3: "m + left x2 = n + left x" "m = n + length acts" "below ms m" "0 < left x2"
            using cc False by auto
          have "0 < length acts" using 3 by simp
          then have "left x2 < left x" using c3(1,2) by linarith
          note c3(3,4) this
          with less.hyps [of x2 m] cc go step c3 show ?thesis by (auto split: option.splits)
        qed
      qed
    qed (use a go in \<open>subst episode_loop.simps, simp\<close>)+
  qed
qed

end

text \<open>The demo environment counts down, whatever the policy, the client and the server do.\<close>

definition demo_left :: "demo_env \<times> policy \<times> 'x \<Rightarrow> nat" where
  "demo_left = (\<lambda>(d, px). de_episode_steps d - de_steps d)"

definition demo_counted :: "nat \<Rightarrow> demo_env \<times> policy \<times> 'x \<Rightarrow> bool" where
  "demo_counted tot = (\<lambda>(d, px). length (de_actions d) = de_steps d \<and> de_steps d \<le> tot \<and>
     de_episode_steps d = tot)"

interpretation demo: countdown_episode "demo_ops env ad infer reset_client timestamp now" demo_left "demo_counted tot"
    for tot env ad and infer :: "infer_args \<Rightarrow> ('x, action_response) io" and reset_client timestamp now
  by unfold_locales
    (auto simp: demo_ops_def demo_left_def demo_counted_def demo_end_def demo_take_def update_obs_def
      split: prod.splits if_splits)

lemma scatter_finite:
  "list_all f32_finite xs \<Longrightarrow> list_all f32_finite vs \<Longrightarrow> list_all f32_finite (scatter ks vs xs)"
proof (induction ks vs xs rule: scatter.induct)
  case (1 k ks v vs xs)
  moreover have "list_all f32_finite (xs[k := v])"
    using 1(2,3) set_update_subset_insert [of xs k v] by (auto simp: list_all_iff)
  ultimately show ?case by simp
qed simp_all

section \<open>Properties\<close>

text \<open>
  C12: An episode in the demo environment always ends.  Whatever the client does
  (any server, any network behaviour, any exception), \<open>run_episode\<close> returns; if it
  returns without an exception, it has executed the smaller of the episode length
  and \<open>max_steps\<close>, and the environment has recorded exactly that many actions.
\<close>

theorem demo_episode_ends:
  assumes "demo_init steps img contract = Ok d"
  shows "\<exists>d' px' r. run_episode (demo_ops env ad infer reset_client timestamp now) max_steps (d, px) =
      Some ((d', px'), r) \<and>
    (\<forall>n. r = Ok n \<longrightarrow> int n = (case max_steps of None \<Rightarrow> steps | Some k \<Rightarrow> min k steps) \<and>
       length (de_actions d') = n \<and> de_steps d' = n)"
proof (cases "case max_steps of None \<Rightarrow> False | Some m \<Rightarrow> m \<le> 0")
  case True
  then show ?thesis by (simp add: run_episode_def)
next
  case False
  let ?ops = "demo_ops env ad infer reset_client timestamp now"
  obtain px1 r1 where p: "policy_reset reset_client px = (px1, r1)" by (cases "policy_reset reset_client px")
  then have reset: "io_bind (eo_env_reset ?ops) (\<lambda>_. eo_policy_reset ?ops) (d, px) = ((demo_reset d, px1), r1)"
    by (cases r1) (auto simp: io_bind_def demo_ops_def split: prod.splits res.splits)
  show ?thesis
  proof (cases r1)
    case (Err e)
    with False reset show ?thesis by (simp add: run_episode_def)
  next
    case (Ok u)
    have left: "demo_left (demo_reset d, px1) = nat steps" "0 < steps" "demo_counted (nat steps) (demo_reset d, px1)"
      using assms by (auto simp: demo_left_def demo_reset_def demo_init_def demo_counted_def split: if_splits)
    obtain x' r where loop: "episode_loop ?ops (map_option nat max_steps) 0 (demo_reset d, px1) = Some (x', r)"
        and counts: "\<forall>m. r = Ok m \<longrightarrow> m + demo_left x' = 0 + nat steps \<and> demo_counted (nat steps) x' \<and>
          m = (case map_option nat max_steps of None \<Rightarrow> 0 + nat steps | Some k \<Rightarrow> min k (0 + nat steps))"
      using demo.loop_ends [of "(demo_reset d, px1)" "map_option nat max_steps" 0 env ad infer reset_client timestamp now "nat steps"]
        left False
      by (auto simp: demo.below_def split: option.splits)
    obtain d' px' where x': "x' = (d', px')" by (cases x')
    have "run_episode ?ops max_steps (d, px) = Some ((d', px'), r)"
      using False reset Ok loop x' by (simp add: run_episode_def)
    moreover have "int n = (case max_steps of None \<Rightarrow> steps | Some k \<Rightarrow> min k steps) \<and>
        length (de_actions d') = n \<and> de_steps d' = n" if n: "r = Ok n" for n
    proof -
      have "n + (nat steps - de_steps d') = nat steps" "de_steps d' \<le> nat steps"
          "length (de_actions d') = de_steps d'"
        using counts n x' by (auto simp: demo_counted_def demo_left_def)
      then have "length (de_actions d') = n \<and> de_steps d' = n" by linarith
      moreover have "int n = (case max_steps of None \<Rightarrow> steps | Some k \<Rightarrow> min k steps)"
        using counts n left(2) False by (auto simp: min_def split: option.splits)
      ultimately show ?thesis by blast
    qed
    ultimately show ?thesis by blast
  qed
qed

definition silent_env :: adapter_env where
  "silent_env = \<lparr>ae_cast = (\<lambda>d a. Ok a), ae_images = plain_ops, ae_conv = (\<lambda>v. Err (TypeError ''no array'')),
     ae_show = (\<lambda>v. [])\<rparr>"

definition small_contract :: robot_contract where
  "small_contract =
     \<lparr>rc_raw_state_dim = 4, rc_raw_action_dim = 4, rc_model_state_indices = [2, 0],
      rc_left_arm_slice = slice_of 0 1, rc_left_gripper_slice = slice_of 1 2,
      rc_right_arm_slice = slice_of 2 3, rc_right_gripper_slice = slice_of 3 4\<rparr>"

definition small_adapter :: robotwin_adapter where
  "small_adapter = robotwin_adapter_init [] small_contract None"

definition zero_chunk :: action_response where
  "zero_chunk = \<lparr>ar_message = [], ar_actions = nd_of_f32s [1, 2] [f32_zero, f32_zero]\<rparr>"

definition demo0 :: demo_env where
  "demo0 = \<lparr>de_episode_steps = 2, de_image_size = 1, de_contract = DAZZ_S600_CONTRACT, de_steps = 0,
     de_raw_state = replicate 18 f32_zero, de_actions = []\<rparr>"

definition small_demo :: demo_env where
  "small_demo = \<lparr>de_episode_steps = 2, de_image_size = 1, de_contract = small_contract, de_steps = 0,
     de_raw_state = replicate 4 f32_zero, de_actions = []\<rparr>"

definition policy0 :: policy where
  "policy0 = \<lparr>po_exec_horizon = 1, po_timeout = Fin 1, po_current = None, po_control_step = 0\<rparr>"

definition zero_ops :: "((string \<times> f32 list) list, f32 list, demo_env \<times> policy \<times> unit) episode_ops" where
  "zero_ops = demo_ops silent_env small_adapter (\<lambda>args x. (x, Ok zero_chunk)) (\<lambda>x. (x, Ok ())) (\<lambda>n. 0) (\<lambda>n. 0)"

lemma zero_run_Ok: "map_option snd (run_episode zero_ops (Some 1) (small_demo, policy0, ())) = Some (Ok 1)"
  by code_simp

lemma small_demo_init: "demo_init 2 1 small_contract = Ok small_demo"
  by (simp add: demo_init_def small_demo_def small_contract_def)

theorem demo_episode_ends_witness:
  "\<exists>d' px'. run_episode zero_ops (Some 1) (small_demo, policy0, ()) = Some ((d', px'), Ok 1) \<and>
     length (de_actions d') = 1"
proof -
  obtain d' px' r where run: "run_episode zero_ops (Some 1) (small_demo, policy0, ()) = Some ((d', px'), r)"
      and len: "\<forall>n. r = Ok n \<longrightarrow> length (de_actions d') = n"
    unfolding zero_ops_def using demo_episode_ends [OF small_demo_init] by blast
  from run zero_run_Ok have "r = Ok 1" by simp
  with run len show ?thesis by blast
qed

text \<open>
  C13: One step of the closed loop on the Dazz S600.  A model action over the
  current state becomes a raw action, an action dictionary and a flat command;
  the demo environment that takes the command ends up in exactly the raw action:
  the fourteen model coordinates follow the model, every other one is unchanged.
\<close>

theorem demo_step_exact:
  assumes "de_contract d = DAZZ_S600_CONTRACT" and "raw_state_ok DAZZ_S600_CONTRACT (de_raw_state d)"
    and "length row = 14" and "list_all f32_finite row"
  shows "\<exists>a v. action_dict cast DAZZ_S600_CONTRACT
        (vec (scatter (index_nats DAZZ_S600_CONTRACT) row (de_raw_state d))) = Ok a \<and>
      flatten_qpos_action a = Ok v \<and>
      demo_take v d = (d\<lparr>de_actions := de_actions d @ [v],
        de_raw_state := scatter (index_nats DAZZ_S600_CONTRACT) row (de_raw_state d),
        de_steps := Suc (de_steps d)\<rparr>, Ok ())"
proof -
  let ?xs = "de_raw_state d" and ?ks = "index_nats DAZZ_S600_CONTRACT"
  let ?raw = "scatter ?ks row ?xs"
  have dims: "rc_raw_action_dim DAZZ_S600_CONTRACT = 18" "rc_raw_state_dim DAZZ_S600_CONTRACT = 18"
    by (simp_all add: DAZZ_S600_CONTRACT_def)
  have len: "length ?raw = 18" "length ?xs = 18" using assms(2) dims by (simp_all add: raw_state_ok_def)
  define a where "a = (''raw_action'', ?raw) # zip qpos_fields (map (take_slice ?raw) (contract_slices DAZZ_S600_CONTRACT))"
  have "action_dict cast DAZZ_S600_CONTRACT (vec ?raw) = Ok a"
    using len dims by (simp add: action_dict_def a_def)
  moreover have "flatten_qpos_action a = Ok (take 16 ?raw)"
    using take_slices_adjacent [OF len(1)] by (simp add: a_def qpos_fields_def dazz_slices)
  moreover have "list_all f32_finite (take 16 ?raw)"
  proof -
    have "list_all f32_finite ?raw" using assms(2,4) scatter_finite by (simp add: raw_state_ok_def)
    then show ?thesis unfolding list_all_iff by (blast dest: in_set_takeD)
  qed
  moreover have "take 16 ?raw @ drop 16 ?xs = ?raw"
  proof -
    have "set ?ks \<subseteq> {..< 16}" by (simp add: index_nats_def DAZZ_S600_CONTRACT_def)
    then have "?raw ! i = ?xs ! i" if "16 \<le> i" for i using that by (intro scatter_other) auto
    then have "drop 16 ?xs = drop 16 ?raw" using len by (intro nth_equalityI) simp_all
    then show ?thesis by simp
  qed
  ultimately show ?thesis
    using assms(1) len dazz_dims(2) by (simp add: demo_take_def)
qed

theorem demo_step_exact_witness:
  "\<exists>a v. action_dict (\<lambda>d a. Ok a) DAZZ_S600_CONTRACT
      (vec (scatter (index_nats DAZZ_S600_CONTRACT) (replicate 14 f32_one) (de_raw_state demo0))) = Ok a \<and>
    flatten_qpos_action a = Ok v"
proof -
  have "raw_state_ok DAZZ_S600_CONTRACT (de_raw_state demo0)"
    by (simp add: raw_state_ok_def demo0_def list_all_iff) (simp add: DAZZ_S600_CONTRACT_def)
  moreover have "de_contract demo0 = DAZZ_S600_CONTRACT" by (simp add: demo0_def)
  ultimately show ?thesis
    using demo_step_exact [of demo0 "replicate 14 f32_one"] by (metis f32_finite_samples(2) in_set_replicate
        length_replicate list_all_iff)
qed

end
