(* ===== verification/Micro_Pipeline.thy ===== *)
theory Micro_Pipeline
  imports Scheduler Prefix_Cache
begin

text \<open>
  The staged pipeline of \<open>plugins/micro_pipeline.py\<close>: one bounded queue per stage,
  \<open>workers\<close> threads per stage, and a future per request that only the last stage
  (or an exception) resolves.  A worker is a program counter (\<open>mpc\<close>); one rule of
  \<open>mp_step\<close> is one atomic action of a worker or of a client, so that every
  interleaving is a run.  A stage is a function of its payload that may raise.
  Futures are numbered in the order of their \<open>submit\<close>; two ghost fields keep the
  submitted payloads and count the requests that no thread holds any more.
\<close>

section \<open>Configuration\<close>

record mp_config =
  mc_enabled :: bool
  mc_max_in_flight :: int
  mc_workers :: int

definition mp_config_post_init :: "mp_config \<Rightarrow> mp_config res" where
  "mp_config_post_init c =
     (if mc_max_in_flight c < 1 then Err (ValueError ''micro_pipeline.max_in_flight must be positive'')
      else if mc_workers c < 1 then Err (ValueError ''micro_pipeline.workers must be positive'')
      else Ok c)"

abbreviation default_mp_config :: "bool \<Rightarrow> mp_config" where
  "default_mp_config b \<equiv> \<lparr>mc_enabled = b, mc_max_in_flight = 8, mc_workers = 1\<rparr>"

definition mp_config_from_mapping :: "pyval \<Rightarrow> mp_config res" where
  "mp_config_from_mapping =
     plugin_config (\<lambda>b. mp_config_post_init (default_mp_config b)) (mp_config_post_init (default_mp_config False))
       (\<lambda>d. res_bind (py_int (dget_or d ''max_in_flight'' (PInt 8))) (\<lambda>m.
            res_bind (py_int (dget_or d ''workers'' (PInt 1))) (\<lambda>w.
              mp_config_post_init \<lparr>mc_enabled = py_bool (dget_or d ''enabled'' (PBool True)),
                mc_max_in_flight = m, mc_workers = w\<rparr>)))
       ''micro_pipeline must be a boolean or JSON object''"

section \<open>State\<close>

type_synonym 'v item = "nat \<times> 'v"

datatype 'v mpc =
    MLoop
  | MGet
  | MCheck "'v item"
  | MRun "'v item"
  | MSet nat "'v res"
  | MMark
  | MPut "'v item"
  | MExit
  | MCrash

record 'v mp =
  mp_queues :: "nat \<Rightarrow> 'v item list"
  mp_putters :: "'v item list"
  mp_workers :: "(nat \<times> 'v mpc) list"
  mp_stop :: bool
  mp_cleared :: bool
  mp_futures :: "nat \<Rightarrow> 'v fut"
  mp_payloads :: "nat \<Rightarrow> 'v option"
  mp_submitted :: nat
  mp_processed :: nat
  mp_dropped :: nat

definition mp_mode :: "mp_config \<Rightarrow> ('v \<Rightarrow> 'v res) list \<Rightarrow> string" where
  "mp_mode c stages = (if mc_enabled c \<and> stages \<noteq> [] then ''native''
     else if mc_enabled c then ''fallback'' else ''disabled'')"

text \<open>\<open>_start\<close>: \<open>workers\<close> threads for each stage, in order.\<close>

definition mp_start :: "mp_config \<Rightarrow> ('v \<Rightarrow> 'v res) list \<Rightarrow> (nat \<times> 'v mpc) list" where
  "mp_start c stages = concat (map (\<lambda>i. replicate (nat (mc_workers c)) (i, MLoop)) [0 ..< length stages])"

definition mp_init :: "mp_config \<Rightarrow> ('v \<Rightarrow> 'v res) list \<Rightarrow> 'v mp" where
  "mp_init c stages =
     \<lparr>mp_queues = (\<lambda>_. []), mp_putters = [],
      mp_workers = (if mp_mode c stages = ''native'' then mp_start c stages else []),
      mp_stop = False, mp_cleared = False, mp_futures = (\<lambda>_. FPending), mp_payloads = (\<lambda>_. None),
      mp_submitted = 0, mp_processed = 0, mp_dropped = 0\<rparr>"

section \<open>Operations\<close>

text \<open>Outside native mode \<open>submit\<close> resolves its future with the payload at once.\<close>

definition mp_submit_fallback :: "'v \<Rightarrow> 'v fut" where
  "mp_submit_fallback payload = FResult payload"

definition mp_submit :: "'v \<Rightarrow> 'v mp \<Rightarrow> 'v mp" where
  "mp_submit payload s =
     s\<lparr>mp_futures := (mp_futures s)(mp_submitted s := FPending),
       mp_payloads := (mp_payloads s)(mp_submitted s := Some payload),
       mp_putters := (if mp_cleared s then mp_putters s else mp_putters s @ [(mp_submitted s, payload)]),
       mp_dropped := (if mp_cleared s then Suc (mp_dropped s) else mp_dropped s),
       mp_submitted := Suc (mp_submitted s)\<rparr>"

text \<open>What \<open>submit\<close> does when the queues are gone: the counter is raised, then \<open>IndexError\<close>.\<close>

definition mp_submit_result :: "'v mp \<Rightarrow> unit res" where
  "mp_submit_result s = (if mp_cleared s then Err (IndexError ''list index out of range'') else Ok ())"

definition mp_push :: "nat \<Rightarrow> 'v item \<Rightarrow> 'v mp \<Rightarrow> 'v mp" where
  "mp_push i it s = s\<lparr>mp_queues := (mp_queues s)(i := mp_queues s i @ [it])\<rparr>"

definition mp_set_worker :: "nat \<Rightarrow> 'v mpc \<Rightarrow> 'v mp \<Rightarrow> 'v mp" where
  "mp_set_worker w pc s = s\<lparr>mp_workers := (mp_workers s)[w := (fst (mp_workers s ! w), pc)]\<rparr>"

definition mp_room :: "mp_config \<Rightarrow> nat \<Rightarrow> 'v mp \<Rightarrow> bool" where
  "mp_room c i s = (int (length (mp_queues s i)) < mc_max_in_flight c)"

text \<open>The stage call: an exception and the last stage's value go to the future.\<close>

definition mp_after_stage :: "('v \<Rightarrow> 'v res) list \<Rightarrow> nat \<Rightarrow> 'v item \<Rightarrow> 'v mpc" where
  "mp_after_stage stages i it =
     (case (stages ! i) (snd it) of
        Err e \<Rightarrow> MSet (fst it) (Err e)
      | Ok v \<Rightarrow> if Suc i = length stages then MSet (fst it) (Ok v) else MPut (fst it, v))"

fun fut_of :: "'v res \<Rightarrow> 'v fut" where
  "fut_of (Ok v) = FResult v"
| "fut_of (Err e) = FExc e"

definition mp_metadata :: "mp_config \<Rightarrow> ('v \<Rightarrow> 'v res) list \<Rightarrow> 'v mp \<Rightarrow> (string \<times> pyval) list" where
  "mp_metadata c stages s =
     [(''enabled'', PBool (mc_enabled c)), (''mode'', PStr (mp_mode c stages)),
      (''stages'', PInt (int (length stages))), (''workers'', PInt (mc_workers c)),
      (''max_in_flight'', PInt (mc_max_in_flight c)), (''submitted'', PInt (int (mp_submitted s))),
      (''processed'', PInt (int (mp_processed s))),
      (''in_flight'', PInt (int (mp_submitted s) - int (mp_processed s)))]"

section \<open>Steps\<close>

text \<open>One action of worker \<open>w\<close>, which serves stage \<open>i\<close>.\<close>

inductive mp_worker_step ::
    "mp_config \<Rightarrow> ('v \<Rightarrow> 'v res) list \<Rightarrow> nat \<Rightarrow> 'v mp \<Rightarrow> 'v mp \<Rightarrow> bool" for c stages w where
  m_loop: "mp_workers s ! w = (i, MLoop) \<Longrightarrow> w < length (mp_workers s) \<Longrightarrow> \<not> mp_stop s \<Longrightarrow>
    mp_worker_step c stages w s (mp_set_worker w MGet s)"
| m_exit: "mp_workers s ! w = (i, MLoop) \<Longrightarrow> w < length (mp_workers s) \<Longrightarrow> mp_stop s \<Longrightarrow>
    mp_worker_step c stages w s (mp_set_worker w MExit s)"
| m_empty: "mp_workers s ! w = (i, MGet) \<Longrightarrow> w < length (mp_workers s) \<Longrightarrow> mp_queues s i = [] \<Longrightarrow>
    mp_worker_step c stages w s (mp_set_worker w MLoop s)"
| m_get: "mp_workers s ! w = (i, MGet) \<Longrightarrow> w < length (mp_workers s) \<Longrightarrow> mp_queues s i = it # q \<Longrightarrow>
    mp_worker_step c stages w s
      (mp_set_worker w (MCheck it) (s\<lparr>mp_queues := (mp_queues s)(i := q)\<rparr>))"
| m_cancelled: "mp_workers s ! w = (i, MCheck it) \<Longrightarrow> w < length (mp_workers s) \<Longrightarrow>
    mp_futures s (fst it) = FCancelled \<Longrightarrow> mp_worker_step c stages w s (mp_set_worker w MMark s)"
| m_run: "mp_workers s ! w = (i, MCheck it) \<Longrightarrow> w < length (mp_workers s) \<Longrightarrow>
    mp_futures s (fst it) \<noteq> FCancelled \<Longrightarrow> mp_worker_step c stages w s (mp_set_worker w (MRun it) s)"
| m_stage: "mp_workers s ! w = (i, MRun it) \<Longrightarrow> w < length (mp_workers s) \<Longrightarrow>
    mp_worker_step c stages w s (mp_set_worker w (mp_after_stage stages i it) s)"
| m_set: "mp_workers s ! w = (i, MSet f r) \<Longrightarrow> w < length (mp_workers s) \<Longrightarrow> mp_futures s f = FPending \<Longrightarrow>
    mp_worker_step c stages w s
      (mp_set_worker w MMark (s\<lparr>mp_futures := (mp_futures s)(f := fut_of r)\<rparr>))"
| m_crash: "mp_workers s ! w = (i, MSet f r) \<Longrightarrow> w < length (mp_workers s) \<Longrightarrow> mp_futures s f \<noteq> FPending \<Longrightarrow>
    mp_worker_step c stages w s (mp_set_worker w MCrash (s\<lparr>mp_dropped := Suc (mp_dropped s)\<rparr>))"
| m_mark: "mp_workers s ! w = (i, MMark) \<Longrightarrow> w < length (mp_workers s) \<Longrightarrow>
    mp_worker_step c stages w s (mp_set_worker w MLoop (s\<lparr>mp_processed := Suc (mp_processed s)\<rparr>))"
| m_put: "mp_workers s ! w = (i, MPut it) \<Longrightarrow> w < length (mp_workers s) \<Longrightarrow> mp_room c (Suc i) s \<Longrightarrow>
    mp_worker_step c stages w s (mp_set_worker w MLoop (mp_push (Suc i) it s))"
| m_abandon: "mp_workers s ! w = (i, MPut it) \<Longrightarrow> w < length (mp_workers s) \<Longrightarrow> mp_stop s \<Longrightarrow>
    mp_worker_step c stages w s (mp_set_worker w MLoop (s\<lparr>mp_dropped := Suc (mp_dropped s)\<rparr>))"

text \<open>The action of worker \<open>w\<close> as a function; \<open>None\<close> when it has ended or its put blocks.\<close>

definition mp_next :: "mp_config \<Rightarrow> ('v \<Rightarrow> 'v res) list \<Rightarrow> nat \<Rightarrow> 'v mp \<Rightarrow> 'v mp option" where
  "mp_next c stages w s =
     (if length (mp_workers s) \<le> w then None
      else case mp_workers s ! w of
          (i, MLoop) \<Rightarrow> Some (mp_set_worker w (if mp_stop s then MExit else MGet) s)
        | (i, MGet) \<Rightarrow>
            (case mp_queues s i of
               [] \<Rightarrow> Some (mp_set_worker w MLoop s)
             | it # q \<Rightarrow> Some (mp_set_worker w (MCheck it) (s\<lparr>mp_queues := (mp_queues s)(i := q)\<rparr>)))
        | (i, MCheck it) \<Rightarrow>
            Some (mp_set_worker w (if mp_futures s (fst it) = FCancelled then MMark else MRun it) s)
        | (i, MRun it) \<Rightarrow> Some (mp_set_worker w (mp_after_stage stages i it) s)
        | (i, MSet f r) \<Rightarrow>
            (if mp_futures s f = FPending
             then Some (mp_set_worker w MMark (s\<lparr>mp_futures := (mp_futures s)(f := fut_of r)\<rparr>))
             else Some (mp_set_worker w MCrash (s\<lparr>mp_dropped := Suc (mp_dropped s)\<rparr>)))
        | (i, MMark) \<Rightarrow> Some (mp_set_worker w MLoop (s\<lparr>mp_processed := Suc (mp_processed s)\<rparr>))
        | (i, MPut it) \<Rightarrow>
            (if mp_room c (Suc i) s then Some (mp_set_worker w MLoop (mp_push (Suc i) it s))
             else if mp_stop s then Some (mp_set_worker w MLoop (s\<lparr>mp_dropped := Suc (mp_dropped s)\<rparr>))
             else None)
        | (i, _) \<Rightarrow> None)"

fun mp_run :: "mp_config \<Rightarrow> ('v \<Rightarrow> 'v res) list \<Rightarrow> nat list \<Rightarrow> 'v mp \<Rightarrow> 'v mp" where
  "mp_run c stages [] s = s"
| "mp_run c stages (w # ws) s =
     mp_run c stages ws (case mp_next c stages w s of None \<Rightarrow> s | Some t \<Rightarrow> t)"

inductive mp_client_step :: "mp_config \<Rightarrow> 'v mp \<Rightarrow> 'v mp \<Rightarrow> bool" for c where
  p_submit: "mp_client_step c s (mp_submit payload s)"
| p_put: "mp_putters s = ps @ it # qs \<Longrightarrow> mp_room c 0 s \<Longrightarrow>
    mp_client_step c s (mp_push 0 it (s\<lparr>mp_putters := ps @ qs\<rparr>))"
| p_cancel: "f < mp_submitted s \<Longrightarrow> mp_futures s f = FPending \<Longrightarrow>
    mp_client_step c s (s\<lparr>mp_futures := (mp_futures s)(f := FCancelled)\<rparr>)"
| p_stop: "\<not> mp_stop s \<Longrightarrow> mp_client_step c s (s\<lparr>mp_stop := True\<rparr>)"
| p_clear: "mp_stop s \<Longrightarrow> mp_client_step c s (s\<lparr>mp_cleared := True\<rparr>)"

inductive mp_reach :: "mp_config \<Rightarrow> ('v \<Rightarrow> 'v res) list \<Rightarrow> 'v mp \<Rightarrow> bool" for c stages where
  mp_start_state: "mp_reach c stages (mp_init c stages)"
| mp_worker: "mp_reach c stages s \<Longrightarrow> mp_worker_step c stages w s t \<Longrightarrow> mp_reach c stages t"
| mp_client: "mp_reach c stages s \<Longrightarrow> mp_client_step c s t \<Longrightarrow> mp_reach c stages t"

section \<open>Invariants\<close>

text \<open>The reference: the stages one after the other on one payload.\<close>

fun run_stages :: "('v \<Rightarrow> 'v res) list \<Rightarrow> 'v \<Rightarrow> 'v res" where
  "run_stages [] v = Ok v"
| "run_stages (f # fs) v = res_bind (f v) (run_stages fs)"

lemma run_stages_append: "run_stages (fs @ gs) v = res_bind (run_stages fs v) (run_stages gs)"
  by (induction fs v rule: run_stages.induct) (auto simp: res_bind_def split: res.splits)

text \<open>An item in front of stage \<open>i\<close> carries the value the earlier stages give for its payload.\<close>

definition staged :: "('v \<Rightarrow> 'v res) list \<Rightarrow> 'v mp \<Rightarrow> nat \<Rightarrow> 'v item \<Rightarrow> bool" where
  "staged stages s i it =
     (i < length stages \<and> fst it < mp_submitted s \<and>
      (\<exists>p. mp_payloads s (fst it) = Some p \<and> run_stages (take i stages) p = Ok (snd it)))"

definition resolves :: "('v \<Rightarrow> 'v res) list \<Rightarrow> 'v mp \<Rightarrow> nat \<Rightarrow> 'v res \<Rightarrow> bool" where
  "resolves stages s f r = (f < mp_submitted s \<and> (\<exists>p. mp_payloads s f = Some p \<and> run_stages stages p = r))"

fun pc_ok :: "('v \<Rightarrow> 'v res) list \<Rightarrow> 'v mp \<Rightarrow> nat \<Rightarrow> 'v mpc \<Rightarrow> bool" where
  "pc_ok stages s i (MCheck it) = staged stages s i it"
| "pc_ok stages s i (MRun it) = staged stages s i it"
| "pc_ok stages s i (MSet f r) = resolves stages s f r"
| "pc_ok stages s i (MPut it) = staged stages s (Suc i) it"
| "pc_ok stages s i _ = True"

definition fut_ok :: "('v \<Rightarrow> 'v res) list \<Rightarrow> 'v mp \<Rightarrow> nat \<Rightarrow> bool" where
  "fut_ok stages s f =
     (case mp_futures s f of
        FResult v \<Rightarrow> resolves stages s f (Ok v) | FExc e \<Rightarrow> resolves stages s f (Err e) | _ \<Rightarrow> True)"

definition workers_ok :: "('v \<Rightarrow> 'v res) list \<Rightarrow> 'v mp \<Rightarrow> bool" where
  "workers_ok stages s = (\<forall>(i, pc) \<in> set (mp_workers s). i < length stages \<and> pc_ok stages s i pc)"

definition queues_ok :: "('v \<Rightarrow> 'v res) list \<Rightarrow> 'v mp \<Rightarrow> bool" where
  "queues_ok stages s =
     ((\<forall>i. \<forall>it \<in> set (mp_queues s i). staged stages s i it) \<and> (\<forall>it \<in> set (mp_putters s). staged stages s 0 it))"

definition queues_bounded :: "mp_config \<Rightarrow> 'v mp \<Rightarrow> bool" where
  "queues_bounded c s = (\<forall>i. int (length (mp_queues s i)) \<le> max 0 (mc_max_in_flight c))"

definition mp_inv :: "mp_config \<Rightarrow> ('v \<Rightarrow> 'v res) list \<Rightarrow> 'v mp \<Rightarrow> bool" where
  "mp_inv c stages s =
     (queues_ok stages s \<and> workers_ok stages s \<and> (\<forall>f. fut_ok stages s f) \<and> queues_bounded c s)"

section \<open>The invariant is kept\<close>

text \<open>No step forgets or changes a submitted payload.\<close>

definition log_le :: "'v mp \<Rightarrow> 'v mp \<Rightarrow> bool" where
  "log_le s t = (mp_submitted s \<le> mp_submitted t \<and> (\<forall>f < mp_submitted s. mp_payloads t f = mp_payloads s f))"

lemma staged_mono: "log_le s t \<Longrightarrow> staged stages s i it \<Longrightarrow> staged stages t i it"
  by (auto simp: log_le_def staged_def)

lemma resolves_mono: "log_le s t \<Longrightarrow> resolves stages s f r \<Longrightarrow> resolves stages t f r"
  by (auto simp: log_le_def resolves_def)

lemma pc_ok_mono: "log_le s t \<Longrightarrow> pc_ok stages s i pc \<Longrightarrow> pc_ok stages t i pc"
  by (cases pc) (auto intro: staged_mono resolves_mono)

lemma worker_log: "mp_worker_step c stages w s t \<Longrightarrow> log_le s t"
  by (induction rule: mp_worker_step.induct) (auto simp: log_le_def mp_set_worker_def mp_push_def)

lemma client_log: "mp_client_step c s t \<Longrightarrow> log_le s t"
  by (induction rule: mp_client_step.induct) (auto simp: log_le_def mp_submit_def mp_push_def)

lemma after_stage_ok:
  assumes "staged stages s i it"
  shows "pc_ok stages s i (mp_after_stage stages i it)"
proof -
  from assms obtain p where p: "i < length stages" "fst it < mp_submitted s"
      "mp_payloads s (fst it) = Some p" "run_stages (take i stages) p = Ok (snd it)"
    by (auto simp: staged_def)
  have split: "stages = take i stages @ stages ! i # drop (Suc i) stages"
    using p(1) by (rule id_take_nth_drop)
  have all: "run_stages stages p = res_bind ((stages ! i) (snd it)) (run_stages (drop (Suc i) stages))"
    by (subst split) (simp add: run_stages_append p(4))
  have upto: "run_stages (take (Suc i) stages) p = (stages ! i) (snd it)"
    using p(1,4) by (simp add: take_Suc_conv_app_nth run_stages_append) (simp add: res_bind_def split: res.split)
  show ?thesis
    using p(1-3) all upto
    by (auto simp: mp_after_stage_def staged_def resolves_def split: res.splits)
qed

text \<open>Changing one worker.\<close>

lemma set_worker_all:
  assumes "\<forall>x \<in> set (mp_workers s). P x" and "w < length (mp_workers s)" and "P (fst (mp_workers s ! w), pc)"
  shows "\<forall>x \<in> set (mp_workers (mp_set_worker w pc s)). P x"
  using assms set_update_subset_insert [of "mp_workers s" w "(fst (mp_workers s ! w), pc)"]
  by (auto simp: mp_set_worker_def)

lemma set_worker_fields [simp]:
  "mp_queues (mp_set_worker w pc s) = mp_queues s" "mp_putters (mp_set_worker w pc s) = mp_putters s"
  "mp_futures (mp_set_worker w pc s) = mp_futures s" "mp_submitted (mp_set_worker w pc s) = mp_submitted s"
  "mp_payloads (mp_set_worker w pc s) = mp_payloads s" "mp_stop (mp_set_worker w pc s) = mp_stop s"
  "mp_processed (mp_set_worker w pc s) = mp_processed s" "mp_dropped (mp_set_worker w pc s) = mp_dropped s"
  "mp_workers (mp_set_worker w pc s) = (mp_workers s)[w := (fst (mp_workers s ! w), pc)]"
  by (simp_all add: mp_set_worker_def)

lemma workers_okD:
  "workers_ok stages s \<Longrightarrow> mp_workers s ! w = (i, pc) \<Longrightarrow> w < length (mp_workers s) \<Longrightarrow>
     i < length stages \<and> pc_ok stages s i pc"
  unfolding workers_ok_def using nth_mem by fastforce

lemma workers_ok_set:
  assumes ok: "workers_ok stages s" and w: "w < length (mp_workers s)" and wk: "mp_workers s ! w = (i, pc0)"
    and upd: "mp_workers t = (mp_workers s)[w := (i, pc)]" and log: "log_le s t" and pc: "pc_ok stages t i pc"
  shows "workers_ok stages t"
proof -
  have "j < length stages \<and> pc_ok stages t j pc'" if "(j, pc') \<in> set (mp_workers t)" for j pc'
  proof -
    from that upd have "(j, pc') = (i, pc) \<or> (j, pc') \<in> set (mp_workers s)"
      using set_update_subset_insert [of "mp_workers s" w "(i, pc)"] by auto
    with ok workers_okD [OF ok wk w] pc pc_ok_mono [OF log] show ?thesis by (auto simp: workers_ok_def)
  qed
  then show ?thesis by (auto simp: workers_ok_def)
qed

lemma worker_workers:
  assumes "mp_worker_step c stages w s t" and ok: "workers_ok stages s"
    and q: "\<And>i it. it \<in> set (mp_queues s i) \<Longrightarrow> staged stages s i it"
  shows "workers_ok stages t"
  using assms(1)
proof cases
  case (m_get i it q')
  note log = worker_log [OF assms(1)]
  have "staged stages s i it" using q [of it i] m_get by simp
  from staged_mono [OF log this] have "staged stages t i it" .
  with m_get show ?thesis by (intro workers_ok_set [OF ok _ _ _ log, of w i MGet "MCheck it"]) auto
next
  case (m_stage i it)
  note log = worker_log [OF assms(1)]
  have "staged stages s i it" using workers_okD [OF ok m_stage(2,3)] by simp
  from staged_mono [OF log this] have "staged stages t i it" .
  with m_stage after_stage_ok [of stages t i it] show ?thesis
    by (intro workers_ok_set [OF ok _ _ _ log, of w i "MRun it" "mp_after_stage stages i it"]) auto
next
  case (m_run i it)
  note log = worker_log [OF assms(1)]
  have "staged stages s i it" using workers_okD [OF ok m_run(2,3)] by simp
  from staged_mono [OF log this] have "staged stages t i it" .
  with m_run show ?thesis
    by (intro workers_ok_set [OF ok _ _ _ log, of w i "MCheck it" "MRun it"]) auto
qed (use worker_log [OF assms(1)] in \<open>auto simp: mp_push_def intro!: workers_ok_set [OF ok]\<close>)

lemma queues_ok_mono:
  assumes "queues_ok stages s" and "log_le s t"
    and "\<And>i it. it \<in> set (mp_queues t i) \<Longrightarrow> it \<in> set (mp_queues s i) \<or> staged stages s i it"
    and "\<And>it. it \<in> set (mp_putters t) \<Longrightarrow> it \<in> set (mp_putters s) \<or> staged stages t 0 it"
  shows "queues_ok stages t"
  using assms unfolding queues_ok_def by (meson staged_mono)

lemma worker_queues:
  assumes st: "mp_worker_step c stages w s t" and ok: "workers_ok stages s" and q: "queues_ok stages s"
  shows "queues_ok stages t"
  using st
proof cases
  case (m_put i it)
  have "staged stages s (Suc i) it" using workers_okD [OF ok m_put(2,3)] by simp
  then show ?thesis
    using worker_log [OF st] m_put
    by (intro queues_ok_mono [OF q]) (auto simp: mp_push_def split: if_splits)
qed (use worker_log [OF st] in \<open>auto intro!: queues_ok_mono [OF q] split: if_splits\<close>)

lemma worker_futures:
  assumes st: "mp_worker_step c stages w s t" and ok: "workers_ok stages s" and f: "\<forall>f. fut_ok stages s f"
  shows "\<forall>f. fut_ok stages t f"
proof
  fix g
  note mono = resolves_mono [OF worker_log [OF st]]
  from st show "fut_ok stages t g"
  proof cases
    case (m_set i h r)
    have "resolves stages s h r" using workers_okD [OF ok m_set(2,3)] by simp
    from mono [OF this] have r: "resolves stages t h r" .
    show ?thesis
    proof (cases "g = h")
      case True
      with r m_set(1) show ?thesis by (cases r) (simp_all add: fut_ok_def)
    next
      case False
      then have "mp_futures t g = mp_futures s g" using m_set(1) by simp
      with f mono show ?thesis by (auto simp: fut_ok_def split: fut.splits)
    qed
  qed (use f mono in \<open>auto simp: fut_ok_def mp_push_def split: fut.splits\<close>)
qed

lemma queues_bounded_mono:
  assumes "queues_bounded c s"
    and "\<And>i. length (mp_queues t i) \<le> length (mp_queues s i) \<or> int (length (mp_queues t i)) \<le> mc_max_in_flight c"
  shows "queues_bounded c t"
  unfolding queues_bounded_def
proof
  fix i
  from assms(1) have "int (length (mp_queues s i)) \<le> max 0 (mc_max_in_flight c)"
    by (simp add: queues_bounded_def)
  with assms(2) [of i] show "int (length (mp_queues t i)) \<le> max 0 (mc_max_in_flight c)" by linarith
qed

lemma worker_bounds:
  assumes "mp_worker_step c stages w s t" and b: "queues_bounded c s"
  shows "queues_bounded c t"
  using assms(1)
  by cases (auto intro!: queues_bounded_mono [OF b] simp: mp_push_def mp_room_def)

lemma client_inv:
  assumes st: "mp_client_step c s t" and inv: "mp_inv c stages s" and ne: "stages \<noteq> []"
  shows "mp_inv c stages t"
proof -
  note log = client_log [OF st]
  have w: "workers_ok stages t"
    using st inv pc_ok_mono [OF log]
    by cases (auto simp: mp_inv_def workers_ok_def mp_submit_def mp_push_def)
  have f: "\<forall>f. fut_ok stages t f"
    using st inv resolves_mono [OF log]
    by cases (auto simp: mp_inv_def fut_ok_def mp_submit_def mp_push_def split: fut.splits)
  have q: "queues_ok stages t"
    using st
  proof cases
    case (p_submit payload)
    have "staged stages t 0 (mp_submitted s, payload)"
      using ne p_submit by (simp add: staged_def mp_submit_def)
    moreover have "it = (mp_submitted s, payload) \<or> it \<in> set (mp_putters s)" if "it \<in> set (mp_putters t)" for it
      using that p_submit by (auto simp: mp_submit_def split: if_splits)
    moreover have "mp_queues t = mp_queues s" using p_submit by (simp add: mp_submit_def)
    ultimately show ?thesis
      using inv by (intro queues_ok_mono [OF _ log]) (auto simp: mp_inv_def)
  next
    case (p_put ps it qs)
    then have "staged stages s 0 it" using inv by (simp add: mp_inv_def queues_ok_def)
    then show ?thesis
      using inv p_put by (intro queues_ok_mono [OF _ log]) (auto simp: mp_inv_def mp_push_def split: if_splits)
  qed (use inv in \<open>simp_all add: mp_inv_def queues_ok_def staged_def\<close>)
  have "queues_bounded c t"
    using st inv
    by cases (auto intro!: queues_bounded_mono [of c s] simp: mp_inv_def mp_submit_def mp_push_def mp_room_def
        split: if_splits)
  with w f q show ?thesis by (simp add: mp_inv_def)
qed

lemma mp_reach_inv:
  assumes "mp_reach c stages s" and "stages \<noteq> []"
  shows "mp_inv c stages s"
  using assms(1)
proof induction
  case mp_start_state
  show ?case
    by (auto simp: mp_inv_def mp_init_def queues_ok_def workers_ok_def fut_ok_def queues_bounded_def mp_start_def
        split: if_splits)
next
  case (mp_worker s w t)
  then show ?case
    using worker_workers [OF mp_worker(2)] worker_queues [OF mp_worker(2)] worker_futures [OF mp_worker(2)]
      worker_bounds [OF mp_worker(2)]
    by (auto simp: mp_inv_def queues_ok_def)
next
  case (mp_client s t)
  with client_inv assms(2) show ?case by blast
qed

section \<open>Accounting\<close>

fun holds :: "'v mpc \<Rightarrow> nat" where
  "holds (MCheck it) = 1"
| "holds (MRun it) = 1"
| "holds (MSet f r) = 1"
| "holds MMark = 1"
| "holds (MPut it) = 1"
| "holds _ = 0"

definition in_pipe :: "('v \<Rightarrow> 'v res) list \<Rightarrow> 'v mp \<Rightarrow> nat" where
  "in_pipe stages s =
     length (mp_putters s) + (\<Sum>i < length stages. length (mp_queues s i)) +
     sum_list (map (\<lambda>(i, pc). holds pc) (mp_workers s))"

lemma sum_list_update:
  assumes "w < length xs"
  shows "sum_list (map f (xs[w := x])) + f (xs ! w) = sum_list (map f xs) + (f x :: nat)"
proof -
  have "sum_list (map f xs) = sum_list (map f (take w xs)) + f (xs ! w) + sum_list (map f (drop (Suc w) xs))"
    by (subst id_take_nth_drop [OF assms]) simp
  moreover have "sum_list (map f (xs[w := x])) = sum_list (map f (take w xs)) + f x + sum_list (map f (drop (Suc w) xs))"
    using assms by (simp add: upd_conv_take_nth_drop)
  ultimately show ?thesis by simp
qed

lemma sum_queue_update:
  assumes "i < (n :: nat)"
  shows "(\<Sum>j < n. length ((q(i := xs)) j)) + length (q i) = (\<Sum>j < n. length (q j)) + length xs"
proof -
  have "(\<Sum>j < n. length ((q(i := xs)) j)) = length xs + (\<Sum>j \<in> {..<n} - {i}. length (q j))"
    using assms by (subst sum.remove [of _ i]) (auto intro!: sum.cong)
  moreover have "(\<Sum>j < n. length (q j)) = length (q i) + (\<Sum>j \<in> {..<n} - {i}. length (q j))"
    using assms by (subst sum.remove [of _ i]) auto
  ultimately show ?thesis by simp
qed

definition balanced :: "('v \<Rightarrow> 'v res) list \<Rightarrow> 'v mp \<Rightarrow> bool" where
  "balanced stages s = (mp_submitted s = mp_processed s + in_pipe stages s + mp_dropped s)"

lemma holds_after_stage [simp]: "holds (mp_after_stage stages i it) = 1"
  by (simp add: mp_after_stage_def split: res.split)

lemma holds_update:
  assumes "w < length (mp_workers s)" and "mp_workers s ! w = (i, pc0)"
  shows "sum_list (map (\<lambda>(i, pc). holds pc) ((mp_workers s)[w := (i, pc)])) + holds pc0 =
    sum_list (map (\<lambda>(i, pc). holds pc) (mp_workers s)) + holds pc"
  using sum_list_update [OF assms(1), of "\<lambda>(i, pc). holds pc" "(i, pc)"] assms(2) by simp

lemma balanced_move:
  assumes "balanced stages s" and "w < length (mp_workers s)" and "mp_workers s ! w = (i, pc0)"
    and "mp_workers t = (mp_workers s)[w := (i, pc)]" and "mp_queues t = mp_queues s"
    and "mp_putters t = mp_putters s" and "mp_submitted t = mp_submitted s"
    and "mp_processed t + mp_dropped t + holds pc = mp_processed s + mp_dropped s + holds pc0"
  shows "balanced stages t"
  using assms holds_update [OF assms(2,3), of pc] by (simp add: balanced_def in_pipe_def)

lemma worker_balanced:
  assumes st: "mp_worker_step c stages w s t" and ok: "workers_ok stages s" and b: "balanced stages s"
  shows "balanced stages t"
  using st
proof cases
  case (m_get i it q)
  have "i < length stages" using workers_okD [OF ok m_get(2,3)] by simp
  from sum_queue_update [OF this, of "mp_queues s" q] holds_update [OF m_get(3,2), of "MCheck it"] m_get b
  show ?thesis by (simp add: balanced_def in_pipe_def)
next
  case (m_put i it)
  have "Suc i < length stages" using workers_okD [OF ok m_put(2,3)] by (simp add: staged_def)
  from sum_queue_update [OF this, of "mp_queues s" "mp_queues s (Suc i) @ [it]"] holds_update [OF m_put(3,2), of MLoop]
    m_put b
  show ?thesis by (simp add: balanced_def in_pipe_def mp_push_def)
qed (auto intro!: balanced_move [OF b])

lemma client_balanced:
  assumes "mp_client_step c s t" and ne: "stages \<noteq> []" and b: "balanced stages s"
  shows "balanced stages t"
  using assms(1)
proof cases
  case (p_put ps it qs)
  have "0 < length stages" using ne by simp
  from sum_queue_update [OF this, of "mp_queues s" "mp_queues s 0 @ [it]"] p_put b show ?thesis
    by (simp add: balanced_def in_pipe_def mp_push_def)
qed (use b in \<open>simp_all add: balanced_def in_pipe_def mp_submit_def\<close>)

lemma mp_reach_balanced:
  assumes "mp_reach c stages s" and ne: "stages \<noteq> []"
  shows "balanced stages s"
  using assms(1)
proof induction
  case mp_start_state
  have "holds pc = 0" if "(i, pc) \<in> set (mp_start c stages)" for i pc
    using that by (auto simp: mp_start_def)
  then show ?case by (auto simp: balanced_def in_pipe_def mp_init_def)
next
  case (mp_worker s w t)
  with worker_balanced mp_reach_inv [OF mp_worker(1) ne] show ?case by (auto simp: mp_inv_def)
next
  case (mp_client s t)
  with client_balanced ne show ?case by blast
qed

section \<open>Progress\<close>

text \<open>A step that is not the polling of an empty queue.\<close>

definition mp_progress :: "mp_config \<Rightarrow> ('v \<Rightarrow> 'v res) list \<Rightarrow> 'v mp \<Rightarrow> 'v mp \<Rightarrow> bool" where
  "mp_progress c stages s t =
     ((\<exists>w. mp_worker_step c stages w s t \<and>
         \<not> (snd (mp_workers s ! w) = MGet \<and> mp_queues s (fst (mp_workers s ! w)) = [])) \<or>
      (\<exists>ps it qs. mp_putters s = ps @ it # qs \<and> mp_room c 0 s \<and> t = mp_push 0 it (s\<lparr>mp_putters := ps @ qs\<rparr>)))"

definition alive :: "'v mpc \<Rightarrow> bool" where
  "alive pc = (pc \<noteq> MExit \<and> pc \<noteq> MCrash)"

definition staffed :: "('v \<Rightarrow> 'v res) list \<Rightarrow> 'v mp \<Rightarrow> bool" where
  "staffed stages s =
     (\<forall>i < length stages. \<exists>w < length (mp_workers s). fst (mp_workers s ! w) = i \<and> alive (snd (mp_workers s ! w)))"

text \<open>The steps still to be made for an item in front of stage \<open>i\<close> of \<open>n\<close>, and for a worker.\<close>

definition item_work :: "nat \<Rightarrow> nat \<Rightarrow> nat" where
  "item_work n i = 1 + 5 * (n - i)"

fun pc_work :: "nat \<Rightarrow> nat \<Rightarrow> 'v mpc \<Rightarrow> nat" where
  "pc_work n i MLoop = 1"
| "pc_work n i (MCheck it) = item_work n (Suc i) + 4"
| "pc_work n i (MRun it) = item_work n (Suc i) + 3"
| "pc_work n i (MSet f r) = 3"
| "pc_work n i MMark = 2"
| "pc_work n i (MPut it) = item_work n (Suc i) + 2"
| "pc_work n i _ = 0"

definition mp_work :: "('v \<Rightarrow> 'v res) list \<Rightarrow> 'v mp \<Rightarrow> nat" where
  "mp_work stages s =
     length (mp_putters s) * Suc (item_work (length stages) 0) +
     (\<Sum>i < length stages. length (mp_queues s i) * item_work (length stages) i) +
     sum_list (map (\<lambda>(i, pc). pc_work (length stages) i pc) (mp_workers s))"

lemma mp_progress_worker:
  "mp_worker_step c stages w s t \<Longrightarrow> mp_workers s ! w = (i, pc) \<Longrightarrow> pc \<noteq> MGet \<or> mp_queues s i \<noteq> [] \<Longrightarrow>
     mp_progress c stages s t"
  unfolding mp_progress_def by (intro disjI1 exI [of _ w]) auto

lemma mp_progress_put:
  "mp_putters s = it # qs \<Longrightarrow> mp_room c 0 s \<Longrightarrow> mp_progress c stages s (mp_push 0 it (s\<lparr>mp_putters := qs\<rparr>))"
  unfolding mp_progress_def by (intro disjI2 exI [of _ "[]"] exI [of _ it] exI [of _ qs]) simp

lemma item_work_Suc: "i < n \<Longrightarrow> item_work n i = item_work n (Suc i) + 5"
  by (simp add: item_work_def Suc_diff_Suc [symmetric])

lemma after_stage_work: "i < length stages \<Longrightarrow>
    pc_work (length stages) i (mp_after_stage stages i it) \<le> item_work (length stages) (Suc i) + 2"
  by (auto simp: mp_after_stage_def item_work_def split: res.split)

lemma sum_work_update:
  assumes "i < (n :: nat)"
  shows "(\<Sum>j < n. length ((q(i := xs)) j) * g j) + length (q i) * g i = (\<Sum>j < n. length (q j) * g j) + length xs * (g i :: nat)"
proof -
  have "(\<Sum>j < n. length ((q(i := xs)) j) * g j) = length xs * g i + (\<Sum>j \<in> {..<n} - {i}. length (q j) * g j)"
    using assms by (subst sum.remove [of _ i]) (auto intro!: sum.cong)
  moreover have "(\<Sum>j < n. length (q j) * g j) = length (q i) * g i + (\<Sum>j \<in> {..<n} - {i}. length (q j) * g j)"
    using assms by (subst sum.remove [of _ i]) auto
  ultimately show ?thesis by simp
qed

lemma work_update:
  assumes "w < length (mp_workers s)" and "mp_workers s ! w = (i, pc0)"
  shows "sum_list (map (\<lambda>(i, pc). pc_work n i pc) ((mp_workers s)[w := (i, pc)])) + pc_work n i pc0 =
    sum_list (map (\<lambda>(i, pc). pc_work n i pc) (mp_workers s)) + pc_work n i pc"
  using sum_list_update [OF assms(1), of "\<lambda>(i, pc). pc_work n i pc" "(i, pc)"] assms(2) by simp

lemma work_move:
  assumes "w < length (mp_workers s)" and "mp_workers s ! w = (i, pc0)"
    and "mp_workers t = (mp_workers s)[w := (i, pc)]" and "mp_queues t = mp_queues s"
    and "mp_putters t = mp_putters s" and "pc_work (length stages) i pc < pc_work (length stages) i pc0"
  shows "mp_work stages t < mp_work stages s"
  using assms work_update [OF assms(1,2), of "length stages" pc] by (simp add: mp_work_def)

lemma progress_decreases:
  assumes p: "mp_progress c stages s t" and ok: "workers_ok stages s" and run: "\<not> mp_stop s" and ne: "stages \<noteq> []"
  shows "mp_work stages t < mp_work stages s"
proof -
  let ?n = "length stages"
  from p consider (worker) w where "mp_worker_step c stages w s t"
      "\<not> (snd (mp_workers s ! w) = MGet \<and> mp_queues s (fst (mp_workers s ! w)) = [])"
    | (putter) ps it qs where "mp_putters s = ps @ it # qs" "t = mp_push 0 it (s\<lparr>mp_putters := ps @ qs\<rparr>)"
    by (auto simp: mp_progress_def)
  then show ?thesis
  proof cases
    case putter
    have "0 < ?n" using ne by simp
    from sum_work_update [OF this, of "mp_queues s" "mp_queues s 0 @ [it]" "item_work ?n"] putter show ?thesis
      by (simp add: mp_work_def mp_push_def algebra_simps)
  next
    case worker
    from worker(1) show ?thesis
    proof cases
      case (m_get i it q)
      have i: "i < ?n" using workers_okD [OF ok m_get(2,3)] by simp
      from sum_work_update [OF i, of "mp_queues s" q "item_work ?n"] work_update [OF m_get(3,2), of ?n "MCheck it"]
        item_work_Suc [OF i] m_get
      show ?thesis by (simp add: mp_work_def)
    next
      case (m_put i it)
      have i: "Suc i < ?n" using workers_okD [OF ok m_put(2,3)] by (simp add: staged_def)
      from sum_work_update [OF i, of "mp_queues s" "mp_queues s (Suc i) @ [it]" "item_work ?n"]
        work_update [OF m_put(3,2), of ?n MLoop] m_put
      show ?thesis by (simp add: mp_work_def mp_push_def)
    next
      case (m_stage i it)
      have "i < ?n" using workers_okD [OF ok m_stage(2,3)] by simp
      from after_stage_work [OF this, of it] m_stage show ?thesis
        by (intro work_move [OF m_stage(3,2), of _ "mp_after_stage stages i it"]) auto
    next
      case m_empty
      with worker(2) show ?thesis by simp
    qed (use run in \<open>auto intro!: work_move\<close>)
  qed
qed

lemma stage_progress:
  assumes ok: "workers_ok stages s" and st: "staffed stages s" and run: "\<not> mp_stop s" and mx: "1 \<le> mc_max_in_flight c"
    and i: "i < length stages"
    and busy: "mp_queues s i \<noteq> [] \<or> (\<exists>w < length (mp_workers s). \<exists>pc. mp_workers s ! w = (i, pc) \<and> holds pc = 1)"
  shows "\<exists>t. mp_progress c stages s t"
  using i busy
proof (induction "length stages - i" arbitrary: i rule: less_induct)
  case less
  have step: "\<exists>t. mp_progress c stages s t" if "mp_worker_step c stages w s t" "mp_workers s ! w = (j, pc)" "pc \<noteq> MGet"
    for w t j pc
    using mp_progress_worker [OF that(1,2)] that(3) by blast
  have held: "\<exists>t. mp_progress c stages s t" if w: "w < length (mp_workers s)" "mp_workers s ! w = (i, pc)" "holds pc = 1"
    for w pc
  proof (cases pc)
    case (MPut it)
    have n: "Suc i < length stages" using workers_okD [OF ok w(2,1)] MPut by (simp add: staged_def)
    show ?thesis
    proof (cases "mp_room c (Suc i) s")
      case True
      with step [OF m_put [OF _ w(1), of i it c stages] w(2)] w(2) MPut show ?thesis by simp
    next
      case False
      then have "mp_queues s (Suc i) \<noteq> []" using mx by (auto simp: mp_room_def)
      with less.hyps [of "Suc i"] n show ?thesis by simp
    qed
  next
    case (MCheck it)
    with step [OF m_cancelled [OF _ w(1), of i it] w(2)] step [OF m_run [OF _ w(1), of i it] w(2)] w(2)
    show ?thesis by (cases "mp_futures s (fst it) = FCancelled") auto
  next
    case (MSet f r)
    with step [OF m_set [OF _ w(1), of i f r] w(2)] step [OF m_crash [OF _ w(1), of i f r] w(2)] w(2)
    show ?thesis by (cases "mp_futures s f = FPending") auto
  next
    case (MRun it)
    with step [OF m_stage [OF _ w(1), of i it] w(2)] w(2) show ?thesis by simp
  next
    case MMark
    with step [OF m_mark [OF _ w(1), of i] w(2)] w(2) show ?thesis by simp
  qed (use w in auto)
  show ?case
  proof (cases "\<exists>w < length (mp_workers s). \<exists>pc. mp_workers s ! w = (i, pc) \<and> holds pc = 1")
    case True
    with held show ?thesis by blast
  next
    case False
    with less.prems obtain it q where q: "mp_queues s i = it # q" by (cases "mp_queues s i") auto
    obtain w pc where w: "w < length (mp_workers s)" "mp_workers s ! w = (i, pc)" "alive pc"
      using st less.prems(1) unfolding staffed_def by (metis prod.collapse)
    have "pc = MLoop \<or> pc = MGet" using w False by (cases pc) (auto simp: alive_def)
    then show ?thesis
    proof
      assume "pc = MLoop"
      with step [OF m_loop [OF _ w(1) run, of i] w(2)] w(2) show ?thesis by simp
    next
      assume "pc = MGet"
      with mp_progress_worker [OF m_get [OF _ w(1) q, of c stages] w(2)] w(2) q show ?thesis by auto
    qed
  qed
qed

lemma sum_list_pos: "0 < sum_list (map f xs) \<Longrightarrow> \<exists>x \<in> set xs. 0 < (f x :: nat)"
  by (induction xs) auto

lemma pipe_progress:
  assumes ok: "workers_ok stages s" and q: "queues_ok stages s" and st: "staffed stages s" and run: "\<not> mp_stop s"
    and mx: "1 \<le> mc_max_in_flight c" and ne: "stages \<noteq> []" and busy: "0 < in_pipe stages s"
  shows "\<exists>t. mp_progress c stages s t"
proof (cases "mp_putters s")
  case (Cons it qs)
  show ?thesis
  proof (cases "mp_room c 0 s")
    case True
    from mp_progress_put [OF Cons this] show ?thesis by blast
  next
    case False
    then have "mp_queues s 0 \<noteq> []" using mx by (auto simp: mp_room_def)
    with stage_progress [OF ok st run mx, of 0] ne show ?thesis by simp
  qed
next
  case Nil
  show ?thesis
  proof (cases "\<exists>i < length stages. mp_queues s i \<noteq> []")
    case True
    with stage_progress [OF ok st run mx] show ?thesis by blast
  next
    case False
    with Nil busy have "0 < sum_list (map (\<lambda>(i, pc). holds pc) (mp_workers s))"
      by (simp add: in_pipe_def)
    from sum_list_pos [OF this] obtain i pc where "(i, pc) \<in> set (mp_workers s)" "0 < holds pc" by auto
    moreover from this have "holds pc = 1" by (cases pc) auto
    ultimately obtain w where w: "w < length (mp_workers s)" "mp_workers s ! w = (i, pc)" "holds pc = 1"
      by (metis in_set_conv_nth)
    with stage_progress [OF ok st run mx, of i] workers_okD [OF ok w(2,1)] show ?thesis by blast
  qed
qed

section \<open>A sample run\<close>

lemma mp_next_step:
  assumes "mp_next c stages w s = Some t"
  shows "mp_worker_step c stages w s t"
proof -
  obtain i pc where w: "mp_workers s ! w = (i, pc)" by (cases "mp_workers s ! w")
  have len: "w < length (mp_workers s)" using assms by (auto simp: mp_next_def split: if_splits)
  show ?thesis
    using assms w len
    by (cases pc) (auto simp: mp_next_def split: if_splits list.splits
        intro: mp_worker_step.intros)
qed

lemma mp_run_reach: "mp_reach c stages s \<Longrightarrow> mp_reach c stages (mp_run c stages ws s)"
  by (induction ws arbitrary: s) (auto split: option.split intro: mp_worker mp_next_step)

definition two_stages :: "(nat \<Rightarrow> nat res) list" where
  "two_stages = [\<lambda>n. Ok (n + 1), \<lambda>n. if n = 0 then Err (ValueError ''zero'') else Ok (2 * n)]"

definition two_config :: mp_config where
  "two_config = \<lparr>mc_enabled = True, mc_max_in_flight = 1, mc_workers = 1\<rparr>"

definition two_submitted :: "nat mp" where
  "two_submitted =
     (let s = mp_submit 4 (mp_init two_config two_stages) in mp_push 0 (0, 4) (s\<lparr>mp_putters := []\<rparr>))"

definition two_done :: "nat mp" where
  "two_done = mp_run two_config two_stages (replicate 5 0 @ replicate 5 1) two_submitted"

lemma two_native: "mp_mode two_config two_stages = ''native''" "mp_config_post_init two_config = Ok two_config"
  by (simp_all add: mp_mode_def two_config_def two_stages_def mp_config_post_init_def)

lemma two_submitted_reach: "mp_reach two_config two_stages two_submitted"
proof -
  have "mp_reach two_config two_stages (mp_submit 4 (mp_init two_config two_stages))"
    by (rule mp_client [OF mp_start_state p_submit])
  moreover have "mp_client_step two_config (mp_submit 4 (mp_init two_config two_stages)) two_submitted"
    unfolding two_submitted_def Let_def
    by (rule p_put [of _ "[]" _ "[]", simplified])
      (simp_all add: mp_submit_def mp_init_def mp_room_def two_config_def)
  ultimately show ?thesis by (rule mp_client)
qed

lemma two_done_future: "mp_futures two_done 0 = FResult 10"
  by code_simp

section \<open>Properties\<close>

text \<open>
  C36: Overlapping the stages changes no answer.  In every interleaving of any
  number of clients and workers, a future of the pipeline that is resolved holds
  exactly what running all the stages one after the other on its own payload
  gives, a value or an exception; and no queue exceeds \<open>max_in_flight\<close>.
\<close>

theorem micro_pipeline_equivalent:
  assumes "mp_mode c stages = ''native''" and "mp_reach c stages s" and "mp_config_post_init c = Ok c"
  shows "(case mp_futures s f of
        FResult v \<Rightarrow> \<exists>p. mp_payloads s f = Some p \<and> run_stages stages p = Ok v
      | FExc e \<Rightarrow> \<exists>p. mp_payloads s f = Some p \<and> run_stages stages p = Err e
      | _ \<Rightarrow> True) \<and> int (length (mp_queues s i)) \<le> mc_max_in_flight c"
proof -
  have "stages \<noteq> []" using assms(1) by (auto simp: mp_mode_def split: if_splits)
  from mp_reach_inv [OF assms(2) this] have "fut_ok stages s f" and "queues_bounded c s"
    by (auto simp: mp_inv_def)
  moreover have "0 < mc_max_in_flight c"
    using assms(3) by (auto simp: mp_config_post_init_def split: if_splits)
  ultimately show ?thesis
    by (auto simp: fut_ok_def resolves_def queues_bounded_def max_def split: fut.splits)
qed

theorem micro_pipeline_equivalent_witness:
  "\<exists>p. mp_payloads two_done 0 = Some p \<and> run_stages two_stages p = Ok 10"
  using micro_pipeline_equivalent [OF two_native(1) _ two_native(2), of two_done 0] two_done_future
    mp_run_reach [OF two_submitted_reach]
  by (simp add: two_done_def)



end
