(* ===== verification/Vision_Batch.thy ===== *)
theory Vision_Batch
  imports Images Scheduler
begin

text \<open>
  Continuous batching of the vision stage (\<open>models/pi05/vision_batch.py\<close>) and the
  plugin around it (\<open>plugins/vision_batch.py\<close>).  Clients put requests into a
  bounded queue; one worker thread coalesces them, drops cancelled and expired
  ones, stacks the images of the rest and calls the encoder once.

  The worker's loop is a program counter (\<open>vpc\<close>); one rule of \<open>vb_worker_step\<close> is
  one atomic action of the thread, one rule of \<open>vb_client_step\<close> one of a client, so
  that every interleaving is a run.  The encoder is a parameter; what it returns
  is an array or sequence of rows, a zero-dimensional array, or an object with
  its own indexing.  Futures are numbered in the order of their requests, and
  the ghost field \<open>vb_images\<close> remembers the images of each.
\<close>

section \<open>Configuration\<close>

record vb_config =
  vbc_enabled :: bool
  vbc_max_batch_size :: int
  vbc_batch_wait_ms :: pyfloat
  vbc_max_queue_size :: int

abbreviation default_vb_config :: "bool \<Rightarrow> vb_config" where
  "default_vb_config b \<equiv>
     \<lparr>vbc_enabled = b, vbc_max_batch_size = 4, vbc_batch_wait_ms = Fin 2, vbc_max_queue_size = 32\<rparr>"

fun vb_config_from_mapping :: "pyval \<Rightarrow> vb_config res" where
  "vb_config_from_mapping (PBool b) = Ok (default_vb_config b)"
| "vb_config_from_mapping PNone = Ok (default_vb_config False)"
| "vb_config_from_mapping (PDict d) =
     res_bind (py_int (dget_or d ''max_batch_size'' (PInt 4))) (\<lambda>b.
     res_bind (py_float (dget_or d ''batch_wait_ms'' (PFloat (Fin 2)))) (\<lambda>w.
     res_bind (py_int (dget_or d ''max_queue_size'' (PInt 32))) (\<lambda>q.
       Ok \<lparr>vbc_enabled = py_bool (dget_or d ''enabled'' (PBool True)), vbc_max_batch_size = b,
           vbc_batch_wait_ms = w, vbc_max_queue_size = q\<rparr>)))"
| "vb_config_from_mapping _ = Err (TypeError ''vision_batching must be a boolean or JSON object'')"

section \<open>Canonical images\<close>

text \<open>\<open>np.moveaxis(value, -1, 1)\<close> on shape \<open>[v, h, w, 3]\<close>: the pixels of each view are transposed.\<close>

definition views_first :: "nat list \<Rightarrow> f32 list \<Rightarrow> nat list \<times> f32 list" where
  "views_first sh xs =
     (case sh of
        [v, h, w, c] \<Rightarrow>
          ([v, c, h, w], concat (map (transpose_flat (h * w) c) (chunks v (h * w * c) xs)))
      | _ \<Rightarrow> (sh, xs))"

definition vit_canonical ::
    "(dtype \<Rightarrow> ndarray \<Rightarrow> ndarray res) \<Rightarrow> (f32 \<Rightarrow> f32) \<Rightarrow> ndarray \<Rightarrow> ndarray res" where
  "vit_canonical cast div255 images =
     res_bind (as_dtype cast DF32 images) (\<lambda>value.
       let sh = nd_shape value
       in if \<not> (nd_ndim value = 4 \<and> (sh ! 1 = 3 \<or> last sh = 3))
          then Err (ValueError ''ViT request must be [views,3,H,W] or [views,H,W,3]'')
          else let (sh1, xs) = (if sh ! 1 = 3 then (sh, nd_f32s value) else views_first sh (nd_f32s value))
               in if sh1 ! 0 < 1 \<or> sh1 ! 2 < 1 \<or> sh1 ! 3 < 1
                  then Err (ValueError ''ViT request contains an empty view or image'')
                  else if \<not> list_all f32_finite xs
                  then Err (ValueError ''ViT request contains NaN or infinity'')
                  else Ok (nd_of_f32s sh1
                         (map (\<lambda>y. np_clip y f32_zero f32_one)
                            (if exceeds_unit xs then map div255 xs else xs))))"

section \<open>State\<close>

record vision_request =
  vr_images :: ndarray
  vr_future :: nat
  vr_deadline :: "pyfloat option"

datatype 'o vout = OutRows "'o list" | OutScalar | OutOther "nat \<Rightarrow> 'o res"

datatype 'o vpc =
    VIdle
  | VGet
  | VCollect "vision_request list" real
  | VFilter "vision_request list" "vision_request list"
  | VExpire vision_request "vision_request list" "vision_request list"
  | VEncode "vision_request list"
  | VResolve "vision_request list" nat "'o vout"
  | VFail "vision_request list" pyerr
  | VExited
  | VCrashed

record 'o vb =
  vb_config :: vb_config
  vb_now :: real
  vb_queue :: "vision_request option list"
  vb_stop :: bool
  vb_worker :: "'o vpc"
  vb_futures :: "nat \<Rightarrow> 'o fut"
  vb_images :: "nat \<Rightarrow> ndarray option"
  vb_next :: nat
  vb_checking :: nat
  vb_closing :: nat

text \<open>The constructor checks the sizes and starts the thread.\<close>

definition vb_init :: "vb_config \<Rightarrow> real \<Rightarrow> 'o vb res" where
  "vb_init c now =
     (if vbc_max_batch_size c < 1 \<or> vbc_max_queue_size c < 1 \<or> pf_lt (vbc_batch_wait_ms c) (Fin 0)
      then Err (ValueError ''batch sizes must be positive and batch_wait_ms non-negative'')
      else Ok \<lparr>vb_config = c, vb_now = now, vb_queue = [], vb_stop = False, vb_worker = VIdle,
               vb_futures = (\<lambda>_. FPending), vb_images = (\<lambda>_. None), vb_next = 0, vb_checking = 0,
               vb_closing = 0\<rparr>)"

section \<open>Operations\<close>

abbreviation vb_full :: "'o vb \<Rightarrow> bool" where
  "vb_full s \<equiv> vbc_max_queue_size (vb_config s) \<le> int (length (vb_queue s))"

text \<open>
  \<open>submit\<close>: the number of the new future, or the exception.  The future of a
  request that a full queue rejects is never seen by anyone.
\<close>

definition vb_submit ::
    "(dtype \<Rightarrow> ndarray \<Rightarrow> ndarray res) \<Rightarrow> (f32 \<Rightarrow> f32) \<Rightarrow> ndarray \<Rightarrow> pyfloat option \<Rightarrow> 'o vb \<Rightarrow>
     'o vb \<times> nat res" where
  "vb_submit cast div255 images deadline s =
     (case vit_canonical cast div255 images of
        Err e \<Rightarrow> (s, Err e)
      | Ok v \<Rightarrow>
          if vb_full s then (s, Err (OverflowError ''Pi05 ViT continuous-batching queue is full''))
          else (s\<lparr>vb_queue := vb_queue s @ [Some \<lparr>vr_images = v, vr_future = vb_next s, vr_deadline = deadline\<rparr>],
                  vb_futures := (vb_futures s)(vb_next s := FPending),
                  vb_images := (vb_images s)(vb_next s := Some v),
                  vb_next := Suc (vb_next s)\<rparr>, Ok (vb_next s)))"

text \<open>\<open>close\<close>: after the test of the stop flag, the flag is set, then a sentinel is put if there is room.\<close>

definition vb_close_stop :: "'o vb \<Rightarrow> 'o vb" where
  "vb_close_stop s = s\<lparr>vb_checking := vb_checking s - 1, vb_stop := True, vb_closing := Suc (vb_closing s)\<rparr>"

definition vb_close_put :: "'o vb \<Rightarrow> 'o vb" where
  "vb_close_put s = s\<lparr>vb_closing := vb_closing s - 1,
     vb_queue := (if vb_full s then vb_queue s else vb_queue s @ [None])\<rparr>"

definition vb_remaining :: "'o vb \<Rightarrow> real \<Rightarrow> pyfloat" where
  "vb_remaining s started =
     (case vbc_batch_wait_ms (vb_config s) of Fin w \<Rightarrow> Fin (w / 1000 - (vb_now s - started)) | w \<Rightarrow> w)"

definition vb_collecting :: "'o vb \<Rightarrow> vision_request list \<Rightarrow> real \<Rightarrow> bool" where
  "vb_collecting s batch started =
     (int (length batch) < vbc_max_batch_size (vb_config s) \<and> \<not> pf_le (vb_remaining s started) (Fin 0))"

definition vr_expired :: "real \<Rightarrow> vision_request \<Rightarrow> bool" where
  "vr_expired now r = (case vr_deadline r of None \<Rightarrow> False | Some d \<Rightarrow> pf_le d (Fin now))"

text \<open>\<open>np.stack(images, axis=0)\<close> of arrays of one shape.\<close>

definition np_stack :: "ndarray list \<Rightarrow> ndarray" where
  "np_stack xs =
     \<lparr>nd_dtype = nd_dtype (hd xs), nd_shape = length xs # nd_shape (hd xs), nd_data = concat (map nd_data xs)\<rparr>"

definition same_shapes :: "ndarray list \<Rightarrow> bool" where
  "same_shapes xs = (card (nd_shape ` set xs) = 1)"

fun out_check :: "nat \<Rightarrow> 'o vout \<Rightarrow> unit res" where
  "out_check n (OutRows rows) =
     (if length rows \<noteq> n then Err (ValueError ''ViT encoder returned the wrong batch'') else Ok ())"
| "out_check n OutScalar = Err (IndexError ''tuple index out of range'')"
| "out_check n (OutOther f) = Ok ()"

fun out_at :: "'o vout \<Rightarrow> nat \<Rightarrow> 'o res" where
  "out_at (OutRows rows) i = (if i < length rows then Ok (rows ! i) else Err (IndexError ''index out of range''))"
| "out_at OutScalar i = Err (IndexError ''too many indices for array'')"
| "out_at (OutOther f) i = f i"

text \<open>The shape test, the stacking, the encoder and the checks of its output.\<close>

definition vb_encode :: "(ndarray \<Rightarrow> 'o vout res) \<Rightarrow> vision_request list \<Rightarrow> 'o vpc" where
  "vb_encode enc valid =
     (case (if \<not> same_shapes (map vr_images valid)
            then Err (ValueError ''continuous batching requires equal view/image shapes'')
            else res_bind (enc (np_stack (map vr_images valid))) (\<lambda>out.
                 res_bind (out_check (length valid) out) (\<lambda>_. Ok out))) of
        Err e \<Rightarrow> VFail valid e
      | Ok out \<Rightarrow> VResolve valid 0 out)"

abbreviation vb_set :: "nat \<Rightarrow> 'o fut \<Rightarrow> 'o vb \<Rightarrow> 'o vb" where
  "vb_set f v s \<equiv> s\<lparr>vb_futures := (vb_futures s)(f := v)\<rparr>"

abbreviation vb_at :: "'o vpc \<Rightarrow> 'o vb \<Rightarrow> 'o vb" where
  "vb_at pc s \<equiv> s\<lparr>vb_worker := pc\<rparr>"

text \<open>\<open>item.future.set_result(outputs[index])\<close>; an exception goes to the handler, which fails the batch.\<close>

definition vb_resolve :: "vision_request list \<Rightarrow> nat \<Rightarrow> 'o vout \<Rightarrow> 'o vb \<Rightarrow> 'o vb" where
  "vb_resolve valid k out s =
     (case out_at out k of
        Err e \<Rightarrow> vb_at (VFail valid e) s
      | Ok v \<Rightarrow>
          if vb_futures s (vr_future (valid ! k)) = FPending
          then vb_at (VResolve valid (Suc k) out) (vb_set (vr_future (valid ! k)) (FResult v) s)
          else vb_at (VFail valid (InvalidStateError ''invalid future state'')) s)"

text \<open>\<open>set_exception\<close> outside every handler: a future that is not pending ends the thread.\<close>

definition vb_set_exception :: "vision_request \<Rightarrow> pyerr \<Rightarrow> 'o vpc \<Rightarrow> 'o vb \<Rightarrow> 'o vb" where
  "vb_set_exception r e pc s =
     (if vb_futures s (vr_future r) = FPending then vb_at pc (vb_set (vr_future r) (FExc e) s)
      else vb_at VCrashed s)"

section \<open>Steps\<close>

text \<open>
  One action of the worker; \<open>None\<close> when the thread has ended.  With a window that
  is not a finite number of seconds, \<open>get(timeout=...)\<close> on an empty queue raises.
\<close>

fun vb_next_pc :: "(ndarray \<Rightarrow> 'o vout res) \<Rightarrow> 'o vpc \<Rightarrow> 'o vb \<Rightarrow> 'o vb option" where
  "vb_next_pc enc VIdle s = Some (vb_at (if vb_stop s then VExited else VGet) s)"
| "vb_next_pc enc VGet s =
     Some (case vb_queue s of
             [] \<Rightarrow> vb_at VIdle s
           | None # q \<Rightarrow> vb_at VExited (s\<lparr>vb_queue := q\<rparr>)
           | Some r # q \<Rightarrow> vb_at (VCollect [r] (vb_now s)) (s\<lparr>vb_queue := q\<rparr>))"
| "vb_next_pc enc (VCollect batch started) s =
     Some (if \<not> vb_collecting s batch started then vb_at (VFilter batch []) s
           else case vb_queue s of
               [] \<Rightarrow> vb_at (if pf_finite (vb_remaining s started) then VFilter batch [] else VCrashed) s
             | None # q \<Rightarrow> vb_at (VFilter batch []) (s\<lparr>vb_queue := q, vb_stop := True\<rparr>)
             | Some r # q \<Rightarrow> vb_at (VCollect (batch @ [r]) started) (s\<lparr>vb_queue := q\<rparr>))"
| "vb_next_pc enc (VFilter (r # todo) valid) s =
     Some (if vb_futures s (vr_future r) = FCancelled then vb_at (VFilter todo valid) s
           else if vr_expired (vb_now s) r then vb_at (VExpire r todo valid) s
           else vb_at (VFilter todo (valid @ [r])) s)"
| "vb_next_pc enc (VFilter [] valid) s = Some (vb_at (if valid = [] then VIdle else VEncode valid) s)"
| "vb_next_pc enc (VExpire r todo valid) s =
     Some (vb_set_exception r (TimeoutError ''Pi05 ViT request deadline expired before batch execution'')
             (VFilter todo valid) s)"
| "vb_next_pc enc (VEncode valid) s = Some (vb_at (vb_encode enc valid) s)"
| "vb_next_pc enc (VResolve valid k out) s =
     Some (if length valid \<le> k then vb_at VIdle s else vb_resolve valid k out s)"
| "vb_next_pc enc (VFail [] e) s = Some (vb_at VIdle s)"
| "vb_next_pc enc (VFail (r # rest) e) s = Some (vb_set_exception r e (VFail rest e) s)"
| "vb_next_pc enc VExited s = None"
| "vb_next_pc enc VCrashed s = None"

definition vb_worker_next :: "(ndarray \<Rightarrow> 'o vout res) \<Rightarrow> 'o vb \<Rightarrow> 'o vb option" where
  "vb_worker_next enc s = vb_next_pc enc (vb_worker s) s"

text \<open>
  A blocking \<open>get\<close> may return at any time within its timeout, so a client's step
  may come between two actions of the worker; time passes in the same way.
\<close>

inductive vb_client_step ::
    "(dtype \<Rightarrow> ndarray \<Rightarrow> ndarray res) \<Rightarrow> (f32 \<Rightarrow> f32) \<Rightarrow> 'o vb \<Rightarrow> 'o vb \<Rightarrow> bool" for cast div255 where
  v_submit: "nd_wf images \<Longrightarrow> vb_client_step cast div255 s (fst (vb_submit cast div255 images deadline s))"
| v_cancel: "f < vb_next s \<Longrightarrow> vb_futures s f = FPending \<Longrightarrow> vb_client_step cast div255 s (vb_set f FCancelled s)"
| v_close: "\<not> vb_stop s \<Longrightarrow> vb_client_step cast div255 s (s\<lparr>vb_checking := Suc (vb_checking s)\<rparr>)"
| v_stop: "0 < vb_checking s \<Longrightarrow> vb_client_step cast div255 s (vb_close_stop s)"
| v_sentinel: "0 < vb_closing s \<Longrightarrow> vb_client_step cast div255 s (vb_close_put s)"
| v_tick: "vb_now s \<le> now' \<Longrightarrow> vb_client_step cast div255 s (s\<lparr>vb_now := now'\<rparr>)"

inductive vb_reach ::
    "(dtype \<Rightarrow> ndarray \<Rightarrow> ndarray res) \<Rightarrow> (f32 \<Rightarrow> f32) \<Rightarrow> (ndarray \<Rightarrow> 'o vout res) \<Rightarrow> 'o vb \<Rightarrow> 'o vb \<Rightarrow> bool"
  for cast div255 enc s0 where
  vb_reach_refl: "vb_reach cast div255 enc s0 s0"
| vb_reach_worker: "vb_reach cast div255 enc s0 s \<Longrightarrow> vb_worker_next enc s = Some t \<Longrightarrow> vb_reach cast div255 enc s0 t"
| vb_reach_client: "vb_reach cast div255 enc s0 s \<Longrightarrow> vb_client_step cast div255 s t \<Longrightarrow> vb_reach cast div255 enc s0 t"

section \<open>The plugin\<close>

record 'o vb_plugin =
  vp_config :: vb_config
  vp_encoder :: "(ndarray \<Rightarrow> 'o vout res) option"
  vp_batcher :: "'o vb option"

definition vp_init :: "(ndarray \<Rightarrow> 'o vout res) option \<Rightarrow> vb_config \<Rightarrow> real \<Rightarrow> 'o vb_plugin res" where
  "vp_init encoder c now =
     (case (if vbc_enabled c then encoder else None) of
        None \<Rightarrow> Ok \<lparr>vp_config = c, vp_encoder = None, vp_batcher = None\<rparr>
      | Some enc \<Rightarrow> res_bind (vb_init c now) (\<lambda>b.
          Ok \<lparr>vp_config = c, vp_encoder = Some enc, vp_batcher = Some b\<rparr>))"

definition vp_mode :: "'o vb_plugin \<Rightarrow> string" where
  "vp_mode p = (if vp_encoder p \<noteq> None then ''native'' else if vbc_enabled (vp_config p) then ''fallback'' else ''disabled'')"

text \<open>
  \<open>submit\<close> gives the future of the batcher, or one that is already resolved with
  the canonical images (an array, where the encoder's outputs are of type \<open>'o\<close>).
\<close>

datatype vp_future = BatcherFuture nat | DoneFuture "ndarray res"

definition vp_submit ::
    "(dtype \<Rightarrow> ndarray \<Rightarrow> ndarray res) \<Rightarrow> (f32 \<Rightarrow> f32) \<Rightarrow> ndarray \<Rightarrow> pyfloat option \<Rightarrow> 'o vb_plugin \<Rightarrow>
     'o vb_plugin \<times> vp_future res" where
  "vp_submit cast div255 images deadline p =
     (case vp_batcher p of
        None \<Rightarrow> (p, Ok (DoneFuture (vit_canonical cast div255 images)))
      | Some b \<Rightarrow>
          (case vb_submit cast div255 images deadline b of
             (b', r) \<Rightarrow> (p\<lparr>vp_batcher := Some b'\<rparr>, res_bind r (\<lambda>f. Ok (BatcherFuture f)))))"

definition vp_metadata :: "'o vb_plugin \<Rightarrow> (string \<times> pyval) list" where
  "vp_metadata p =
     [(''enabled'', PBool (vbc_enabled (vp_config p))), (''mode'', PStr (vp_mode p)),
      (''max_batch_size'', PInt (vbc_max_batch_size (vp_config p))),
      (''batch_wait_ms'', PFloat (vbc_batch_wait_ms (vp_config p))),
      (''max_queue_size'', PInt (vbc_max_queue_size (vp_config p)))]"

section \<open>Canonical images are normalised\<close>

lemma f32_unit_reals: "f32_real f32_one = 1" "f32_real f32_zero = 0"
proof -
  have "f32_exponent f32_one = 127" "f32_mantissa f32_one = 0" "\<not> bit f32_one 31"
    by (simp_all add: f32_exponent_def f32_mantissa_def f32_one_def drop_bit_eq_div take_bit_eq_mod bit_iff_odd)
  then show "f32_real f32_one = 1" by (simp add: f32_real_def)
  have "f32_exponent f32_zero = 0" "f32_mantissa f32_zero = 0"
    by (simp_all add: f32_exponent_def f32_mantissa_def f32_zero_def)
  then show "f32_real f32_zero = 0" by (simp add: f32_real_def)
qed

lemma np_clip_unit:
  assumes "\<not> f32_nan y"
  shows "0 \<le> f32_real (np_clip y f32_zero f32_one)" "f32_real (np_clip y f32_zero f32_one) \<le> 1"
    "\<not> f32_nan (np_clip y f32_zero f32_one)"
  using assms np_clip_between [of y f32_zero f32_one]
  by (simp_all add: f32_unit_reals f32_finite_not_nan np_clip_def f32_max_def f32_min_def)

lemma length_concat_same:
  "(\<And>x. x \<in> set xs \<Longrightarrow> length (f x) = n) \<Longrightarrow> length (concat (map f xs)) = length xs * n"
  by (induction xs) auto

lemma views_first_length:
  "views_first [v, h, w, c] xs = (sh', ys) \<Longrightarrow> sh' = [v, c, h, w] \<and> length ys = v * (c * (h * w))"
  using length_concat_same [of "chunks v (h * w * c) xs" "transpose_flat (h * w) c" "c * (h * w)"]
  by (auto simp: views_first_def)

text \<open>What every request in the queue carries: a batch of RGB views with values in the unit interval.\<close>

definition vit_image :: "ndarray \<Rightarrow> bool" where
  "vit_image a =
     (nd_wf a \<and> nd_dtype a = DF32 \<and> nd_ndim a = 4 \<and> nd_shape a ! 1 = 3 \<and> (\<forall>n \<in> set (nd_shape a). 0 < n) \<and>
      (\<forall>x \<in> set (nd_f32s a). \<not> f32_nan x \<and> 0 \<le> f32_real x \<and> f32_real x \<le> 1))"

definition cast_sound :: "(dtype \<Rightarrow> ndarray \<Rightarrow> ndarray res) \<Rightarrow> bool" where
  "cast_sound cast = (\<forall>d a b. cast d a = Ok b \<longrightarrow> nd_wf b \<and> nd_dtype b = d)"

definition div_sound :: "(f32 \<Rightarrow> f32) \<Rightarrow> bool" where
  "div_sound div255 = (\<forall>x. f32_finite x \<longrightarrow> f32_finite (div255 x))"

lemma rank4: "length sh = 4 \<Longrightarrow> \<exists>a b c d. sh = [a, b, c, d]"
  by (auto simp: eval_nat_numeral length_Suc_conv)

lemma vit_canonical_shape:
  assumes "vit_canonical cast div255 a = Ok v" and "nd_wf a" and "cast_sound cast"
  obtains n h w xs where "v = nd_of_f32s [n, 3, h, w] (map (\<lambda>y. np_clip y f32_zero f32_one)
        (if exceeds_unit xs then map div255 xs else xs))"
    "length xs = n * (3 * (h * w))" "0 < n" "0 < h" "0 < w" "list_all f32_finite xs"
proof -
  from assms obtain b where b: "as_dtype cast DF32 a = Ok b" by (auto simp: vit_canonical_def)
  with assms(2,3) have wf: "nd_wf b" "nd_dtype b = DF32"
    by (auto simp: as_dtype_def cast_sound_def split: if_splits)
  from assms(1) b have r: "nd_ndim b = 4" by (auto simp: vit_canonical_def Let_def split: if_splits)
  then obtain p q r t where sh: "nd_shape b = [p, q, r, t]" using rank4 by blast
  have len: "length (nd_f32s b) = p * (q * (r * t))"
    using nd_wf_length_f32s [OF wf] sh by (simp add: mult.assoc)
  show thesis
  proof (cases "q = 3")
    case True
    with assms(1) b sh len that [of p r t "nd_f32s b"] show ?thesis
      by (auto simp: vit_canonical_def Let_def split: if_splits)
  next
    case False
    obtain sh' ys where vf: "views_first [p, q, r, t] (nd_f32s b) = (sh', ys)" by force
    from views_first_length [OF vf] have "sh' = [p, t, q, r]" "length ys = p * (t * (q * r))" by auto
    with False assms(1) b sh vf that [of p q r ys] show ?thesis
      by (auto simp: vit_canonical_def Let_def split: if_splits)
  qed
qed

lemma vit_canonical_image:
  assumes "vit_canonical cast div255 a = Ok v" and "nd_wf a" and "cast_sound cast" and "div_sound div255"
  shows "vit_image v"
proof -
  obtain n h w xs where v: "v = nd_of_f32s [n, 3, h, w] (map (\<lambda>y. np_clip y f32_zero f32_one)
        (if exceeds_unit xs then map div255 xs else xs))"
    and xs: "length xs = n * (3 * (h * w))" "0 < n" "0 < h" "0 < w" "list_all f32_finite xs"
    using vit_canonical_shape [OF assms(1-3)] by blast
  let ?ys = "if exceeds_unit xs then map div255 xs else xs"
  have "list_all f32_finite ?ys" using xs(5) assms(4) by (auto simp: list_all_iff div_sound_def)
  then have "\<not> f32_nan y" if "y \<in> set ?ys" for y
    using that f32_finite_not_nan unfolding list_all_iff by blast
  then have "\<not> f32_nan x \<and> 0 \<le> f32_real x \<and> f32_real x \<le> 1" if "x \<in> set (nd_f32s v)" for x
    using that np_clip_unit unfolding v nd_f32s_of_f32s by force
  moreover have "nd_wf v" unfolding v using xs(1) by (auto simp: nd_wf_of_f32s mult.assoc)
  ultimately show ?thesis using xs by (auto simp: vit_image_def v)
qed

section \<open>Invariants\<close>

text \<open>The output \<open>v\<close> is the row of images \<open>img\<close> in one call of the encoder on a proper batch.\<close>

definition encoded_from :: "(ndarray \<Rightarrow> 'o vout res) \<Rightarrow> vb_config \<Rightarrow> ndarray \<Rightarrow> 'o \<Rightarrow> bool" where
  "encoded_from enc c img v =
     (\<exists>xs i out. i < length xs \<and> xs ! i = img \<and> int (length xs) \<le> vbc_max_batch_size c \<and>
        same_shapes xs \<and> (\<forall>x \<in> set xs. vit_image x) \<and> enc (np_stack xs) = Ok out \<and> out_at out i = Ok v)"

definition vr_tracked :: "'o vb \<Rightarrow> vision_request \<Rightarrow> bool" where
  "vr_tracked s r =
     (vb_images s (vr_future r) = Some (vr_images r) \<and> vr_future r < vb_next s \<and> vit_image (vr_images r))"

fun vpc_items :: "'o vpc \<Rightarrow> vision_request list" where
  "vpc_items (VCollect batch _) = batch"
| "vpc_items (VFilter todo valid) = valid @ todo"
| "vpc_items (VExpire r todo valid) = valid @ r # todo"
| "vpc_items (VEncode valid) = valid"
| "vpc_items (VResolve valid _ _) = valid"
| "vpc_items (VFail rest _) = rest"
| "vpc_items _ = []"

fun vpc_ok :: "(ndarray \<Rightarrow> 'o vout res) \<Rightarrow> 'o vpc \<Rightarrow> bool" where
  "vpc_ok enc (VResolve valid _ out) =
     (same_shapes (map vr_images valid) \<and> enc (np_stack (map vr_images valid)) = Ok out)"
| "vpc_ok enc _ = True"

definition futures_ok :: "(ndarray \<Rightarrow> 'o vout res) \<Rightarrow> 'o vb \<Rightarrow> bool" where
  "futures_ok enc s =
     (\<forall>f v. vb_futures s f = FResult v \<longrightarrow>
        f < vb_next s \<and> (\<exists>img. vb_images s f = Some img \<and> encoded_from enc (vb_config s) img v))"

definition vb_inv :: "(ndarray \<Rightarrow> 'o vout res) \<Rightarrow> 'o vb \<Rightarrow> bool" where
  "vb_inv enc s =
     (1 \<le> vbc_max_batch_size (vb_config s) \<and> int (length (vb_queue s)) \<le> vbc_max_queue_size (vb_config s) \<and>
      (\<forall>r. Some r \<in> set (vb_queue s) \<longrightarrow> vr_tracked s r) \<and>
      (\<forall>r \<in> set (vpc_items (vb_worker s)). vr_tracked s r) \<and>
      int (length (vpc_items (vb_worker s))) \<le> vbc_max_batch_size (vb_config s) \<and>
      vpc_ok enc (vb_worker s) \<and> futures_ok enc s)"

lemma vr_tracked_cong:
  "vb_images s = vb_images t \<Longrightarrow> vb_next s = vb_next t \<Longrightarrow> vr_tracked s r = vr_tracked t r"
  by (simp add: vr_tracked_def)

lemma futures_ok_cong:
  "vb_images s = vb_images t \<Longrightarrow> vb_next s = vb_next t \<Longrightarrow> vb_config s = vb_config t \<Longrightarrow>
   vb_futures s = vb_futures t \<Longrightarrow> futures_ok enc s = futures_ok enc t"
  by (simp add: futures_ok_def)

text \<open>A worker action that only moves requests on, perhaps taking one from the queue.\<close>

lemma vb_inv_move:
  assumes "vb_inv enc s"
    and "vb_config t = vb_config s" "vb_images t = vb_images s" "vb_next t = vb_next s"
    and "\<And>f v. vb_futures t f = FResult v \<Longrightarrow> vb_futures s f = FResult v"
    and "set (vb_queue t) \<subseteq> set (vb_queue s) \<union> {None}"
    and "int (length (vb_queue t)) \<le> vbc_max_queue_size (vb_config s)"
    and "\<And>r. r \<in> set (vpc_items (vb_worker t)) \<Longrightarrow>
          r \<in> set (vpc_items (vb_worker s)) \<or> Some r \<in> set (vb_queue s)"
    and "int (length (vpc_items (vb_worker t))) \<le> vbc_max_batch_size (vb_config s)"
    and "vpc_ok enc (vb_worker t)"
  shows "vb_inv enc t"
proof -
  have tr: "vr_tracked t r = vr_tracked s r" for r using assms(3,4) by (intro vr_tracked_cong)
  have "Some r \<in> set (vb_queue s)" if "Some r \<in> set (vb_queue t)" for r
    using that assms(6) by auto
  moreover have "futures_ok enc t"
    using assms(1-5) by (auto simp: vb_inv_def futures_ok_def)
  ultimately show ?thesis
    using assms(1,2,7-10) unfolding vb_inv_def tr by auto
qed

lemma vb_set_exception_inv:
  assumes "vb_inv enc s" and "set (vpc_items pc) \<subseteq> set (vpc_items (vb_worker s))"
    and "length (vpc_items pc) \<le> length (vpc_items (vb_worker s))" and "vpc_ok enc pc"
  shows "vb_inv enc (vb_set_exception r e pc s)"
  by (rule vb_inv_move [OF assms(1)])
    (use assms in \<open>auto simp: vb_set_exception_def vb_inv_def split: if_splits\<close>)

lemma vb_resolve_inv:
  assumes inv: "vb_inv enc s" and pc: "vb_worker s = VResolve valid k out" and k: "k < length valid"
  shows "vb_inv enc (vb_resolve valid k out s)"
proof (cases "out_at out k")
  case (Err e)
  show ?thesis by (rule vb_inv_move [OF inv]) (use inv pc Err in \<open>auto simp: vb_resolve_def vb_inv_def\<close>)
next
  case (Ok v)
  let ?r = "valid ! k"
  have ok: "vr_tracked s r \<and> vit_image (vr_images r)" if "r \<in> set valid" for r
    using that inv pc by (auto simp: vb_inv_def vr_tracked_def)
  have "encoded_from enc (vb_config s) (vr_images ?r) v"
    unfolding encoded_from_def
    by (rule exI [of _ "map vr_images valid"], rule exI [of _ k], rule exI [of _ out])
      (use inv pc k Ok ok in \<open>auto simp: vb_inv_def\<close>)
  with ok [of ?r] k inv have "futures_ok enc (vb_set (vr_future ?r) (FResult v) s)"
    by (auto simp: futures_ok_def vb_inv_def vr_tracked_def)
  then have "vb_inv enc (vb_at (VResolve valid (Suc k) out) (vb_set (vr_future ?r) (FResult v) s))"
    using inv pc by (auto simp: vb_inv_def vr_tracked_def futures_ok_def)
  moreover have "vb_inv enc (vb_at (VFail valid (InvalidStateError ''invalid future state'')) s)"
    by (rule vb_inv_move [OF inv]) (use inv pc in \<open>auto simp: vb_inv_def\<close>)
  ultimately show ?thesis using Ok by (simp add: vb_resolve_def)
qed

lemma vb_encode_ok: "vpc_ok enc (vb_encode enc valid)" "vpc_items (vb_encode enc valid) = valid"
  by (auto simp: vb_encode_def split: res.splits if_splits)

lemma vb_worker_inv:
  assumes "vb_inv enc s" and "vb_worker_next enc s = Some t"
  shows "vb_inv enc t"
proof -
  obtain pc where pc: "vb_worker s = pc" by simp
  with assms(2) have t: "vb_next_pc enc pc s = Some t" by (simp add: vb_worker_next_def)
  show ?thesis
  proof (cases "(enc, pc, s)" rule: vb_next_pc.cases)
    case (3 enc' batch started s')
    then show ?thesis using t pc assms(1)
      by (intro vb_inv_move [OF assms(1)])
        (auto simp: vb_inv_def vb_collecting_def split: if_splits list.splits option.splits)
  next
    case (6 enc' r todo valid s')
    with t pc assms(1) show ?thesis by (auto intro!: vb_set_exception_inv)
  next
    case (7 enc' valid s')
    with t pc show ?thesis
      by (intro vb_inv_move [OF assms(1)]) (use assms(1) in \<open>auto simp: vb_inv_def vb_encode_ok\<close>)
  next
    case (8 enc' valid k out s')
    then show ?thesis
    proof (cases "length valid \<le> k")
      case True
      with 8 t pc show ?thesis
        by (intro vb_inv_move [OF assms(1)]) (use assms(1) in \<open>auto simp: vb_inv_def\<close>)
    qed (use 8 t pc assms(1) in \<open>auto intro!: vb_resolve_inv\<close>)
  next
    case (10 enc' r rest e s')
    with t pc assms(1) show ?thesis by (auto intro!: vb_set_exception_inv)
  next
    case (1 enc' s')
    then show ?thesis using t pc assms(1)
      by (intro vb_inv_move [OF assms(1)]) (auto simp: vb_inv_def split: if_splits)
  next
    case (2 enc' s')
    then show ?thesis using t pc assms(1)
      by (intro vb_inv_move [OF assms(1)]) (auto simp: vb_inv_def split: list.splits option.splits)
  next
    case (4 enc' r todo valid s')
    then show ?thesis using t pc assms(1)
      by (intro vb_inv_move [OF assms(1)]) (auto simp: vb_inv_def split: if_splits)
  next
    case (5 enc' valid s')
    then show ?thesis using t pc assms(1)
      by (intro vb_inv_move [OF assms(1)]) (auto simp: vb_inv_def split: if_splits)
  next
    case (9 enc' e s')
    then show ?thesis using t pc assms(1)
      by (intro vb_inv_move [OF assms(1)]) (auto simp: vb_inv_def)
  qed (use t in simp_all)
qed

lemma vb_submit_inv:
  assumes inv: "vb_inv enc s" and "nd_wf images" "cast_sound cast" "div_sound div255"
  shows "vb_inv enc (fst (vb_submit cast div255 images deadline s))"
proof (cases "vit_canonical cast div255 images")
  case (Ok v)
  from vit_canonical_image [OF this assms(2-4)] have "vit_image v" .
  with Ok inv show ?thesis
    by (auto simp: vb_submit_def vb_inv_def vr_tracked_def futures_ok_def intro: less_SucI)
qed (use inv in \<open>simp add: vb_submit_def\<close>)

lemma vb_client_inv:
  assumes "vb_client_step cast div255 s t" and "vb_inv enc s" and "cast_sound cast" "div_sound div255"
  shows "vb_inv enc t"
  using assms(1)
proof cases
  case (v_submit images deadline)
  then show ?thesis using assms by (auto intro!: vb_submit_inv)
next
  case (v_cancel f)
  show ?thesis by (rule vb_inv_move [OF assms(2)]) (use v_cancel assms(2) in \<open>auto simp: vb_inv_def split: if_splits\<close>)
next
  case v_close
  show ?thesis by (rule vb_inv_move [OF assms(2)]) (use v_close assms(2) in \<open>auto simp: vb_inv_def\<close>)
next
  case v_stop
  show ?thesis by (rule vb_inv_move [OF assms(2)]) (use v_stop assms(2) in \<open>auto simp: vb_inv_def vb_close_stop_def\<close>)
next
  case v_sentinel
  show ?thesis by (rule vb_inv_move [OF assms(2)]) (use v_sentinel assms(2) in \<open>auto simp: vb_inv_def vb_close_put_def split: if_splits\<close>)
next
  case (v_tick now')
  show ?thesis by (rule vb_inv_move [OF assms(2)]) (use v_tick assms(2) in \<open>auto simp: vb_inv_def\<close>)
qed

lemma vb_init_inv: "vb_init c now = Ok s \<Longrightarrow> vb_inv enc s \<and> vb_config s = c"
  by (auto simp: vb_init_def vb_inv_def futures_ok_def split: if_splits)

lemma vb_client_config: "vb_client_step cast div255 s t \<Longrightarrow> vb_config t = vb_config s"
  by (induction rule: vb_client_step.induct)
    (simp_all add: vb_submit_def vb_close_stop_def vb_close_put_def split: res.splits)

lemma vb_worker_config: "vb_worker_next enc s = Some t \<Longrightarrow> vb_config t = vb_config s"
  unfolding vb_worker_next_def
  by (cases "(enc, vb_worker s, s)" rule: vb_next_pc.cases)
    (auto simp: vb_resolve_def vb_set_exception_def split: if_splits list.splits option.splits res.splits)

lemma vb_reach_inv:
  assumes "vb_reach cast div255 enc s0 s" and "vb_init c now = Ok s0" and "cast_sound cast" "div_sound div255"
  shows "vb_inv enc s \<and> vb_config s = c"
  using assms(1)
proof induction
  case vb_reach_refl
  then show ?case using vb_init_inv [OF assms(2)] .
next
  case (vb_reach_worker s t)
  then show ?case using vb_worker_inv vb_worker_config by metis
next
  case (vb_reach_client s t)
  then show ?case using vb_client_inv [OF _ _ assms(3,4)] vb_client_config by metis
qed

section \<open>Properties\<close>

fun vb_iter :: "(ndarray \<Rightarrow> 'o vout res) \<Rightarrow> nat \<Rightarrow> 'o vb \<Rightarrow> 'o vb" where
  "vb_iter enc 0 s = s"
| "vb_iter enc (Suc n) s = (case vb_worker_next enc s of None \<Rightarrow> s | Some t \<Rightarrow> vb_iter enc n t)"

lemma vb_iter_reach: "vb_reach cast div255 enc s0 s \<Longrightarrow> vb_reach cast div255 enc s0 (vb_iter enc n s)"
  by (induction n arbitrary: s) (auto split: option.splits intro: vb_reach_worker)

text \<open>
  C38: Batching routes every answer to its request.  In every interleaving of
  clients, cancellations, \<open>close\<close> and the worker, a future with a result holds the
  encoder's output at the row where the images of that very request stood, in one
  call on at most \<open>max_batch_size\<close> requests of one shape; every image in that call
  is a well-formed batch of RGB views with values between 0 and 1; and the queue
  never exceeds its bound.
\<close>

theorem vit_batch_routing:
  assumes "vb_init c now = Ok s0" and "vb_reach cast div255 enc s0 s"
    and "cast_sound cast" and "div_sound div255"
  shows "(case vb_futures s f of
        FResult v \<Rightarrow> \<exists>img. vb_images s f = Some img \<and> encoded_from enc c img v
      | _ \<Rightarrow> True) \<and> int (length (vb_queue s)) \<le> vbc_max_queue_size c"
proof -
  from vb_reach_inv [OF assms(2,1,3,4)] have "vb_inv enc s" "vb_config s = c" by auto
  then show ?thesis by (auto simp: vb_inv_def futures_ok_def split: fut.splits)
qed

definition unit_view :: ndarray where
  "unit_view = nd_of_f32s [1, 3, 1, 1] [f32_zero, f32_zero, f32_zero]"

definition row_encoder :: "ndarray \<Rightarrow> nat vout res" where
  "row_encoder a = Ok (OutRows [0 ..< hd (nd_shape a)])"

definition idle_batcher :: "nat vb" where
  "idle_batcher = \<lparr>vb_config = default_vb_config True, vb_now = 0, vb_queue = [], vb_stop = False,
     vb_worker = VIdle, vb_futures = (\<lambda>_. FPending), vb_images = (\<lambda>_. None), vb_next = 0, vb_checking = 0,
     vb_closing = 0\<rparr>"

definition two_requests :: "nat vb" where
  "two_requests = fst (vb_submit (\<lambda>d a. Err (TypeError [])) (\<lambda>x. x) unit_view None
     (fst (vb_submit (\<lambda>d a. Err (TypeError [])) (\<lambda>x. x) unit_view None idle_batcher)))"

lemma unit_view_canonical: "vit_canonical cast div255 unit_view = Ok unit_view" "nd_wf unit_view"
proof -
  have "np_clip f32_zero f32_zero f32_one = f32_zero" "\<not> exceeds_unit [f32_zero, f32_zero, f32_zero]"
    by (simp_all add: np_clip_def f32_max_def f32_min_def f32_lt_def f32_unit_reals exceeds_unit_def
        f32_finite_not_nan)
  then show "vit_canonical cast div255 unit_view = Ok unit_view"
    by (simp add: vit_canonical_def unit_view_def Let_def)
  show "nd_wf unit_view" by (simp add: unit_view_def nd_wf_of_f32s)
qed

definition unit_request :: "nat \<Rightarrow> vision_request" where
  "unit_request f = \<lparr>vr_images = unit_view, vr_future = f, vr_deadline = None\<rparr>"

lemma two_requests_eq:
  "two_requests = idle_batcher\<lparr>vb_queue := [Some (unit_request 0), Some (unit_request 1)],
     vb_images := (\<lambda>_. None)(0 := Some unit_view, 1 := Some unit_view), vb_next := 2\<rparr>"
  by (simp add: two_requests_def vb_submit_def unit_view_canonical idle_batcher_def unit_request_def fun_eq_iff)

definition served_batcher :: "nat vb" where
  "served_batcher = vb_iter row_encoder 12 two_requests"

lemma served_future: "vb_futures served_batcher 1 = FResult 1"
proof -
  have "vb_encode row_encoder [unit_request 0, unit_request 1] =
      VResolve [unit_request 0, unit_request 1] 0 (OutRows [0, 1])"
    by (simp add: vb_encode_def same_shapes_def row_encoder_def np_stack_def unit_request_def upt_rec)
  then show ?thesis
    unfolding served_batcher_def two_requests_eq
    by (simp add: idle_batcher_def eval_nat_numeral vb_worker_next_def vb_collecting_def vb_remaining_def
        unit_request_def vr_expired_def vb_resolve_def)
qed

lemma served_reach: "vb_reach (\<lambda>d a. Err (TypeError [])) (\<lambda>x. x) row_encoder idle_batcher served_batcher"
  unfolding served_batcher_def two_requests_def
  by (rule vb_iter_reach, rule vb_reach_client [OF vb_reach_client [OF vb_reach_refl]])
    (rule v_submit, rule unit_view_canonical)+

theorem vit_batch_routing_witness:
  "\<exists>img. vb_images served_batcher 1 = Some img \<and> encoded_from row_encoder (default_vb_config True) img 1"
proof -
  have i: "vb_init (default_vb_config True) 0 = Ok idle_batcher"
    by (simp add: vb_init_def idle_batcher_def)
  have p: "cast_sound (\<lambda>d a. Err (TypeError []))" "div_sound (\<lambda>x. x)"
    by (simp_all add: cast_sound_def div_sound_def)
  from vit_batch_routing [OF i served_reach p, where f = 1] served_future show ?thesis by simp
qed

text \<open>
  Cancelling a request while its batch is being encoded ends the worker: setting its
  result raises, the handler then meets a future that is no longer pending, and
  the second exception leaves the loop.  The other futures keep their state for ever.
\<close>

lemma vit_cancel_ends_worker:
  assumes "vb_worker s = VResolve (r # rest) k out" and "k < length (r # rest)" and "out_at out k = Ok v"
    and "vb_futures s (vr_future ((r # rest) ! k)) = FCancelled" and "vb_futures s (vr_future r) \<noteq> FPending"
  shows "vb_worker (vb_iter enc 2 s) = VCrashed \<and> vb_futures (vb_iter enc (2 + n) s) = vb_futures s"
  using assms
  by (cases n) (auto simp: numeral_2_eq_2 vb_worker_next_def vb_resolve_def vb_set_exception_def)

text \<open>One request of a different shape fails every request of its batch.\<close>

lemma vit_mixed_shapes_fail:
  "a \<in> set valid \<Longrightarrow> b \<in> set valid \<Longrightarrow> nd_shape (vr_images a) \<noteq> nd_shape (vr_images b) \<Longrightarrow>
   vb_encode enc valid = VFail valid (ValueError ''continuous batching requires equal view/image shapes'')"
  by (auto simp: vb_encode_def same_shapes_def card_1_singleton_iff dest!: equalityD1)

end
