(* ===== verification/Real_Tensors.thy ===== *)
theory Real_Tensors
  imports Tensors
begin

text \<open>
  Tensors of real numbers, for the components whose arithmetic is stated exactly
  (a finite \<open>float32\<close> value is the real number it denotes; rounding, NaN and
  infinities are left out).  A tensor is its shape and its elements in C order.
  The theory holds NumPy's broadcasting and the view of a tensor as rows along
  its last axis.
\<close>

section \<open>Tensors\<close>

record rtensor =
  rt_shape :: "nat list"
  rt_data :: "real list"

definition rt_wf :: "rtensor \<Rightarrow> bool" where
  "rt_wf t = (length (rt_data t) = prod_list (rt_shape t))"

section \<open>Broadcasting\<close>

text \<open>Shapes are aligned at their last axis, so both functions read them backwards.\<close>

fun bcast_dims :: "nat list \<Rightarrow> nat list \<Rightarrow> nat list option" where
  "bcast_dims [] ys = Some ys"
| "bcast_dims xs [] = Some xs"
| "bcast_dims (x # xs) (y # ys) =
     (if x = y \<or> y = 1 then map_option ((#) x) (bcast_dims xs ys)
      else if x = 1 then map_option ((#) y) (bcast_dims xs ys) else None)"

text \<open>The element of the operand that meets element \<open>k\<close> of the result.\<close>

fun bcast_index :: "nat list \<Rightarrow> nat list \<Rightarrow> nat \<Rightarrow> nat" where
  "bcast_index (d # ds) (x # xs) k = (if x = 1 then 0 else k mod d) + x * bcast_index ds xs (k div d)"
| "bcast_index _ _ k = 0"

definition np_broadcast :: "(real \<Rightarrow> real \<Rightarrow> real) \<Rightarrow> rtensor \<Rightarrow> rtensor \<Rightarrow> rtensor res" where
  "np_broadcast f x y =
     (case bcast_dims (rev (rt_shape x)) (rev (rt_shape y)) of
        None \<Rightarrow> Err (ValueError ''operands could not be broadcast together'')
      | Some ds \<Rightarrow>
          Ok \<lparr>rt_shape = rev ds,
              rt_data = map (\<lambda>k. f (rt_data x ! bcast_index ds (rev (rt_shape x)) k)
                                   (rt_data y ! bcast_index ds (rev (rt_shape y)) k)) [0 ..< prod_list ds]\<rparr>)"

section \<open>Rows\<close>

definition rt_last :: "rtensor \<Rightarrow> nat" where
  "rt_last t = last (rt_shape t)"

text \<open>\<open>reshape(-1, shape[-1])\<close>\<close>

definition rt_rows :: "rtensor \<Rightarrow> real list list" where
  "rt_rows t = chunks (prod_list (butlast (rt_shape t))) (rt_last t) (rt_data t)"

definition of_rows :: "nat list \<Rightarrow> nat \<Rightarrow> real list list \<Rightarrow> rtensor" where
  "of_rows lead d rows = \<lparr>rt_shape = lead @ [d], rt_data = concat rows\<rparr>"

definition rows_wide :: "nat \<Rightarrow> real list list \<Rightarrow> bool" where
  "rows_wide d rows = list_all (\<lambda>r. length r = d) rows"

section \<open>Lemmas\<close>

lemma rt_eqI: "rt_shape x = rt_shape y \<Longrightarrow> rt_data x = rt_data y \<Longrightarrow> (x :: rtensor) = y"
  by (cases x; cases y) simp

lemma rows_wide_simps [simp]:
  "rows_wide d []" "rows_wide d (r # rows) = (length r = d \<and> rows_wide d rows)"
  by (simp_all add: rows_wide_def)

lemma rows_wide_map: "(\<And>r. r \<in> set rows \<Longrightarrow> length (f r) = d) \<Longrightarrow> rows_wide d (map f rows)"
  by (simp add: rows_wide_def list_all_iff)

lemma rows_wide_in: "rows_wide d rows \<Longrightarrow> r \<in> set rows \<Longrightarrow> length r = d"
  by (simp add: rows_wide_def list_all_iff)

lemma length_concat_wide: "rows_wide d rows \<Longrightarrow> length (concat rows) = length rows * d"
  by (induction rows) auto

lemma of_rows_shape [simp]: "rt_shape (of_rows lead d rows) = lead @ [d]" "rt_last (of_rows lead d rows) = d"
  by (simp_all add: of_rows_def rt_last_def)

lemma of_rows_wf: "rows_wide d rows \<Longrightarrow> length rows = prod_list lead \<Longrightarrow> rt_wf (of_rows lead d rows)"
  by (simp add: rt_wf_def of_rows_def length_concat_wide)

lemma rt_rows_of_rows [simp]:
  "rows_wide d rows \<Longrightarrow> length rows = prod_list lead \<Longrightarrow> rt_rows (of_rows lead d rows) = rows"
  using chunks_concat [of rows d] by (simp add: rt_rows_def of_rows_def rt_last_def rows_wide_def list_all_iff)

lemma rt_rows_wide:
  assumes "rt_wf x" and "rt_shape x \<noteq> []"
  shows "rows_wide (rt_last x) (rt_rows x)" "length (rt_rows x) = prod_list (butlast (rt_shape x))"
    "concat (rt_rows x) = rt_data x"
proof -
  have "prod_list (rt_shape x) = prod_list (butlast (rt_shape x)) * rt_last x"
    using assms(2) by (metis append_butlast_last_id prod_list.append prod_list.Cons prod_list.Nil mult.right_neutral rt_last_def)
  then have n: "length (rt_data x) = prod_list (butlast (rt_shape x)) * rt_last x" using assms(1) by (simp add: rt_wf_def)
  from chunks_width [OF n] show "rows_wide (rt_last x) (rt_rows x)" by (simp add: rows_wide_def list_all_iff rt_rows_def)
  from concat_chunks [OF n] show "concat (rt_rows x) = rt_data x" by (simp add: rt_rows_def)
  show "length (rt_rows x) = prod_list (butlast (rt_shape x))" by (simp add: rt_rows_def)
qed

lemma prod_list_rev [simp]: "prod_list (rev xs) = prod_list (xs :: nat list)"
  by (induction xs) (simp_all add: mult.commute)

lemma bcast_dims_same [simp]: "bcast_dims xs xs = Some xs"
  by (induction xs) simp_all

lemma bcast_dims_Nil [simp]: "bcast_dims xs [] = Some xs"
  by (cases xs) simp_all

lemma bcast_index_same: "k < prod_list ds \<Longrightarrow> bcast_index ds ds k = k"
proof (induction ds arbitrary: k)
  case (Cons d ds)
  then have "k div d < prod_list ds" by (metis less_mult_imp_div_less mult.commute prod_list.Cons)
  with Cons show ?case by (auto simp: mult.commute)
qed simp

lemma bcast_index_vector: "0 < d \<Longrightarrow> bcast_index (d # ds) [d] k = k mod d"
  by (cases ds) auto

lemma concat_rows_index:
  assumes "rows_wide d rows" and "length ys = d"
  shows "map (\<lambda>k. f (concat rows ! k) (ys ! (k mod d))) [0 ..< length rows * d] =
    concat (map (\<lambda>r. map2 f r ys) rows)"
  using assms(1)
proof (induction rows)
  case (Cons r rows)
  have "map (\<lambda>k. f (concat (r # rows) ! k) (ys ! (k mod d))) [0 ..< length (r # rows) * d] =
      map (\<lambda>k. f (concat (r # rows) ! k) (ys ! (k mod d))) [0 ..< d] @
      map (\<lambda>k. f (concat (r # rows) ! k) (ys ! (k mod d))) [d ..< d + length rows * d]"
    by (simp add: upt_add_eq_append [of 0])
  moreover have "map (\<lambda>k. f (concat (r # rows) ! k) (ys ! (k mod d))) [0 ..< d] = map2 f r ys"
    using Cons.prems assms(2) by (auto intro!: nth_equalityI simp: nth_append)
  moreover have "map (\<lambda>k. f (concat (r # rows) ! k) (ys ! (k mod d))) [d ..< d + length rows * d] =
      map (\<lambda>k. f (concat rows ! k) (ys ! (k mod d))) [0 ..< length rows * d]"
    using Cons.prems by (auto intro!: nth_equalityI simp: nth_append)
  ultimately show ?case using Cons by simp
qed simp

text \<open>A vector along the last axis meets every row.\<close>

lemma np_broadcast_vector:
  assumes "rows_wide d rows" and "length rows = prod_list lead" and "length ys = d"
  shows "np_broadcast f (of_rows lead d rows) \<lparr>rt_shape = [d], rt_data = ys\<rparr> =
    Ok (of_rows lead d (map (\<lambda>r. map2 f r ys) rows))"
proof (cases "d = 0")
  case True
  with assms show ?thesis by (auto simp: np_broadcast_def of_rows_def rows_wide_def list_all_iff concat_eq_Nil_conv)
next
  case False
  let ?n = "prod_list (d # rev lead)"
  have n: "?n = length rows * d" using assms(2) by (simp add: mult.commute)
  have "map (\<lambda>k. f (concat rows ! bcast_index (d # rev lead) (d # rev lead) k) (ys ! bcast_index (d # rev lead) [d] k)) [0 ..< ?n] =
      map (\<lambda>k. f (concat rows ! k) (ys ! (k mod d))) [0 ..< ?n]"
    using False bcast_index_vector [of d "rev lead"] by (intro map_cong refl) (simp add: bcast_index_same del: bcast_index.simps)
  also have "\<dots> = concat (map (\<lambda>r. map2 f r ys) rows)"
    unfolding n by (rule concat_rows_index [OF assms(1,3)])
  finally show ?thesis by (simp add: np_broadcast_def of_rows_def del: bcast_index.simps map_eq_conv)
qed

lemma np_broadcast_same:
  assumes "rt_wf x" and "rt_wf y" and "rt_shape x = rt_shape y"
  shows "np_broadcast f x y = Ok \<lparr>rt_shape = rt_shape x, rt_data = map2 f (rt_data x) (rt_data y)\<rparr>"
proof -
  have n: "prod_list (rev (rt_shape x)) = length (rt_data x)" "length (rt_data y) = length (rt_data x)"
    using assms by (simp_all add: rt_wf_def)
  have "map (\<lambda>k. f (rt_data x ! bcast_index (rev (rt_shape x)) (rev (rt_shape x)) k)
      (rt_data y ! bcast_index (rev (rt_shape x)) (rev (rt_shape x)) k)) [0 ..< prod_list (rev (rt_shape x))] =
      map (\<lambda>k. f (rt_data x ! k) (rt_data y ! k)) [0 ..< length (rt_data x)]"
    unfolding n(1) [symmetric] by (intro map_cong refl) (simp add: bcast_index_same)
  also have "\<dots> = map2 f (rt_data x) (rt_data y)" using n(2) by (auto intro!: nth_equalityI)
  finally show ?thesis using assms(3) by (simp add: np_broadcast_def)
qed

end
