(* ===== verification/Action_Quant.thy ===== *)
theory Action_Quant
  imports Real_Tensors
begin

text \<open>
  Channel-wise mixed-precision quantisation (\<open>plugins/action_quant.py\<close>), over
  tensors of real numbers.  \<open>np.argsort\<close>, whose order of equal
  keys NumPy leaves open, is a parameter.
\<close>

section \<open>Configuration\<close>

record aq_config =
  aqc_enabled :: bool
  aqc_sensitive_bits :: int
  aqc_default_bits :: int
  aqc_sensitive_ratio :: pyfloat
  aqc_axis :: int

definition aq_config_post_init :: "aq_config \<Rightarrow> aq_config res" where
  "aq_config_post_init c =
     (if \<not> list_all (\<lambda>b. b \<in> {4, 8, 16}) [aqc_sensitive_bits c, aqc_default_bits c]
      then Err (ValueError ''action_quant bit-widths must be 4, 8, or 16'')
      else if \<not> (pf_le (Fin 0) (aqc_sensitive_ratio c) \<and> pf_le (aqc_sensitive_ratio c) (Fin 1))
      then Err (ValueError ''action_quant.sensitive_ratio must be in [0, 1]'')
      else if aqc_sensitive_bits c < aqc_default_bits c
      then Err (ValueError ''sensitive_bits must be >= default_bits'')
      else Ok c)"

abbreviation default_aq_config :: "bool \<Rightarrow> aq_config" where
  "default_aq_config b \<equiv>
     \<lparr>aqc_enabled = b, aqc_sensitive_bits = 16, aqc_default_bits = 8, aqc_sensitive_ratio = Fin (1 / 4), aqc_axis = 0\<rparr>"

fun aq_config_from_mapping :: "pyval \<Rightarrow> aq_config res" where
  "aq_config_from_mapping (PBool b) = aq_config_post_init (default_aq_config b)"
| "aq_config_from_mapping PNone = aq_config_post_init (default_aq_config False)"
| "aq_config_from_mapping (PDict d) =
     res_bind (py_int (dget_or d ''sensitive_bits'' (PInt 16))) (\<lambda>sb.
     res_bind (py_int (dget_or d ''default_bits'' (PInt 8))) (\<lambda>db.
     res_bind (py_float (dget_or d ''sensitive_ratio'' (PFloat (Fin (1 / 4))))) (\<lambda>r.
     res_bind (py_int (dget_or d ''axis'' (PInt 0))) (\<lambda>ax.
       aq_config_post_init
         \<lparr>aqc_enabled = py_bool (dget_or d ''enabled'' (PBool True)), aqc_sensitive_bits = sb,
          aqc_default_bits = db, aqc_sensitive_ratio = r, aqc_axis = ax\<rparr>))))"
| "aq_config_from_mapping _ = Err (TypeError ''action_quant must be a boolean or JSON object'')"

section \<open>Tensors\<close>

definition channel_axis :: "int \<Rightarrow> nat \<Rightarrow> nat res" where
  "channel_axis axis ndim =
     (if ndim = 0 then Err (ValueError ''action_quant requires a tensor with a channel axis'')
      else let a = (if axis < 0 then axis + int ndim else axis)
           in if 0 \<le> a \<and> a < int ndim then Ok (nat a)
              else Err (ValueError ''action_quant axis out of range''))"

text \<open>
  \<open>np.moveaxis(arr, axis, 0).reshape(channels, -1)\<close>: with \<open>p\<close> elements before the
  channel axis and \<open>q\<close> behind it, row \<open>ch\<close> lists the elements of that channel.
  Without channels the size \<open>-1\<close> is ambiguous and \<open>reshape\<close> raises.
\<close>

definition channel_row :: "nat \<Rightarrow> nat \<Rightarrow> nat \<Rightarrow> real list \<Rightarrow> nat \<Rightarrow> real list" where
  "channel_row p c q xs ch = concat (map (\<lambda>i. map (\<lambda>j. xs ! ((i * c + ch) * q + j)) [0 ..< q]) [0 ..< p])"

definition channel_matrix :: "rtensor \<Rightarrow> int \<Rightarrow> real list list res" where
  "channel_matrix t axis =
     res_bind (channel_axis axis (length (rt_shape t))) (\<lambda>a.
       let c = rt_shape t ! a;
           p = prod_list (take a (rt_shape t));
           q = prod_list (drop (Suc a) (rt_shape t))
       in if c = 0 then Err (ValueError ''cannot reshape array of size 0 into shape (0,newaxis)'')
          else Ok (map (channel_row p c q (rt_data t)) [0 ..< c]))"

text \<open>\<open>np.moveaxis(output, 0, axis)\<close> on the matrix, whatever the rank of the original tensor was.\<close>

definition move_channels :: "real list list \<Rightarrow> int \<Rightarrow> rtensor res" where
  "move_channels rows axis =
     (let c = length rows; n = length (hd rows)
      in if axis = 0 \<or> axis = - 2 then Ok \<lparr>rt_shape = [c, n], rt_data = concat rows\<rparr>
         else if axis = 1 \<or> axis = - 1
         then Ok \<lparr>rt_shape = [n, c], rt_data = concat (map (\<lambda>j. map (\<lambda>row. row ! j) rows) [0 ..< n])\<rparr>
         else Err (ValueError ''destination axis out of bounds for array of dimension 2''))"

section \<open>State and operations\<close>

record aq_state =
  aqs_scales :: "real list"
  aqs_zeros :: "real list"
  aqs_bits :: "int list"
  aqs_axis :: int

record aq =
  aq_config :: aq_config
  aq_state :: "aq_state option"

definition aq_init :: "aq_config \<Rightarrow> aq" where
  "aq_init c = \<lparr>aq_config = c, aq_state = None\<rparr>"

definition aq_mode :: "aq \<Rightarrow> string" where
  "aq_mode p = (if aqc_enabled (aq_config p) then ''native'' else ''disabled'')"

definition clip_real :: "real \<Rightarrow> real \<Rightarrow> real \<Rightarrow> real" where
  "clip_real lo hi x = min hi (max lo x)"

text \<open>\<open>float((1 << bits) - 1)\<close>\<close>

definition qmax :: "int \<Rightarrow> real" where
  "qmax bits = 2 ^ nat bits - 1"

definition sensitive_count :: "aq_config \<Rightarrow> nat \<Rightarrow> nat" where
  "sensitive_count c channels = nat (max 1 (round_half_even (real channels * pf_real (aqc_sensitive_ratio c))))"

definition channel_bits :: "(real list \<Rightarrow> nat list) \<Rightarrow> aq_config \<Rightarrow> real list \<Rightarrow> int list" where
  "channel_bits argsort c importance =
     (let channels = length importance;
          top = drop (channels - sensitive_count c channels) (argsort importance)
      in map (\<lambda>ch. if ch \<in> set top then aqc_sensitive_bits c else aqc_default_bits c) [0 ..< channels])"

definition channel_scale :: "int \<Rightarrow> real list \<Rightarrow> real" where
  "channel_scale bits row =
     (let span = Max (set row) - Min (set row) in if 1 / 10 ^ 12 < span then span / qmax bits else 1)"

definition channel_zero :: "int \<Rightarrow> real list \<Rightarrow> real" where
  "channel_zero bits row =
     clip_real 0 (qmax bits) (of_int (round_half_even (- Min (set row) / channel_scale bits row)))"

definition aq_fit :: "(real list \<Rightarrow> nat list) \<Rightarrow> rtensor \<Rightarrow> rtensor \<Rightarrow> aq \<Rightarrow> aq \<times> aq_state res" where
  "aq_fit argsort weights importance p =
     (let c = aq_config p
      in case channel_matrix weights (aqc_axis c) of
           Err e \<Rightarrow> (p, Err e)
         | Ok matrix \<Rightarrow>
             if rt_shape importance \<noteq> [length matrix]
             then (p, Err (ValueError ''importance must have one entry per channel''))
             else if list_ex (\<lambda>row. row = []) matrix
             then (p, Err (ValueError ''zero-size array to reduction operation minimum which has no identity''))
             else let bits = channel_bits argsort c (rt_data importance);
                      st = \<lparr>aqs_scales = map2 channel_scale bits matrix, aqs_zeros = map2 channel_zero bits matrix,
                            aqs_bits = bits, aqs_axis = aqc_axis c\<rparr>
                  in (p\<lparr>aq_state := Some st\<rparr>, Ok st))"

definition require_state :: "aq \<Rightarrow> aq_state res" where
  "require_state p =
     (case aq_state p of None \<Rightarrow> Err (RuntimeError ''action_quant plugin has not been fit() yet'') | Some st \<Rightarrow> Ok st)"

definition given_state :: "aq_state option \<Rightarrow> aq \<Rightarrow> aq_state res" where
  "given_state st p = (case st of None \<Rightarrow> require_state p | Some s \<Rightarrow> Ok s)"

definition quantize_value :: "aq_state \<Rightarrow> nat \<Rightarrow> real \<Rightarrow> real" where
  "quantize_value st ch x =
     clip_real 0 (qmax (aqs_bits st ! ch))
       (of_int (round_half_even (x / aqs_scales st ! ch)) + aqs_zeros st ! ch)"

definition dequantize_value :: "aq_state \<Rightarrow> nat \<Rightarrow> real \<Rightarrow> real" where
  "dequantize_value st ch v = (v - aqs_zeros st ! ch) * aqs_scales st ! ch"

text \<open>The loop over the channels that \<open>quantize\<close> and \<open>dequantize\<close> share.\<close>

definition each_channel :: "(nat \<Rightarrow> real \<Rightarrow> real) \<Rightarrow> rtensor \<Rightarrow> aq_state \<Rightarrow> rtensor res" where
  "each_channel f t st =
     res_bind (channel_matrix t (aqs_axis st)) (\<lambda>matrix.
       if length matrix \<noteq> length (aqs_scales st) then Err (ValueError ''wrong number of channels'')
       else move_channels (map (\<lambda>ch. map (f ch) (matrix ! ch)) [0 ..< length matrix]) (aqs_axis st))"

definition aq_quantize :: "rtensor \<Rightarrow> aq_state option \<Rightarrow> aq \<Rightarrow> rtensor res" where
  "aq_quantize weights st p = res_bind (given_state st p) (\<lambda>s. each_channel (quantize_value s) weights s)"

definition aq_dequantize :: "rtensor \<Rightarrow> aq_state option \<Rightarrow> aq \<Rightarrow> rtensor res" where
  "aq_dequantize quantized st p = res_bind (given_state st p) (\<lambda>s. each_channel (dequantize_value s) quantized s)"

definition mean_square :: "real list \<Rightarrow> real list \<Rightarrow> pyfloat" where
  "mean_square xs ys =
     (if xs = [] then NaN else Fin (sum_list (map2 (\<lambda>x y. (x - y) ^ 2) xs ys) / real (length xs)))"

definition aq_error :: "rtensor \<Rightarrow> aq_state option \<Rightarrow> aq \<Rightarrow> pyfloat list res" where
  "aq_error weights st p =
     res_bind (given_state st p) (\<lambda>s.
     res_bind (channel_matrix weights (aqs_axis s)) (\<lambda>source.
     res_bind (aq_quantize weights (Some s) p) (\<lambda>q.
     res_bind (aq_dequantize q (Some s) p) (\<lambda>d.
     res_bind (channel_matrix d (aqs_axis s)) (\<lambda>target. Ok (map2 mean_square target source))))))"

definition aq_reset :: "aq \<Rightarrow> aq" where
  "aq_reset p = p\<lparr>aq_state := None\<rparr>"

definition aq_metadata :: "aq \<Rightarrow> (string \<times> pyval) list" where
  "aq_metadata p =
     (let c = aq_config p
      in [(''enabled'', PBool (aqc_enabled c)), (''mode'', PStr (aq_mode p)),
          (''sensitive_bits'', PInt (aqc_sensitive_bits c)), (''default_bits'', PInt (aqc_default_bits c)),
          (''sensitive_ratio'', PFloat (aqc_sensitive_ratio c)), (''axis'', PInt (aqc_axis c)),
          (''calibrated'', PBool (aq_state p \<noteq> None))])"

section \<open>Channels and tensors\<close>

lemma concat_rows_nth:
  "(\<And>r. r \<in> set rows \<Longrightarrow> length r = n) \<Longrightarrow> i < length rows \<Longrightarrow> j < n \<Longrightarrow> concat rows ! (i * n + j) = rows ! i ! j"
proof (induction rows arbitrary: i)
  case (Cons r rows)
  show ?case
  proof (cases i)
    case (Suc k)
    with Cons.prems have "concat (r # rows) ! (i * n + j) = concat rows ! (k * n + j)"
      by (simp add: nth_append)
    with Cons.IH [of k] Cons.prems Suc show ?thesis by simp
  qed (use Cons.prems in \<open>simp add: nth_append\<close>)
qed simp

lemma channel_row_first:
  assumes "\<And>r. r \<in> set rows \<Longrightarrow> length r = n" and "ch < length rows"
  shows "channel_row (Suc 0) c n (concat rows) ch = rows ! ch"
  using assms concat_rows_nth [of rows n ch]
  by (auto simp: channel_row_def intro!: nth_equalityI)

lemma concat_singletons: "concat (map (\<lambda>i. [f i]) xs) = map f xs"
  by (induction xs) simp_all

lemma channel_row_last:
  assumes "\<And>r. r \<in> set rows \<Longrightarrow> length r = n" and "ch < length rows"
  shows "channel_row n (length rows) (Suc 0) (concat (map (\<lambda>j. map (\<lambda>row. row ! j) rows) [0 ..< n])) ch = rows ! ch"
proof -
  have "concat (map (\<lambda>j. map (\<lambda>row. row ! j) rows) [0 ..< n]) ! (i * length rows + ch) = rows ! ch ! i" if "i < n" for i
    using that assms(2) by (subst concat_rows_nth) auto
  moreover have "length (rows ! ch) = n" using assms by simp
  ultimately show ?thesis
    by (simp add: channel_row_def concat_singletons) (rule nth_equalityI, auto)
qed

definition matrix_axis :: "int \<Rightarrow> bool" where
  "matrix_axis axis = (axis \<in> {- 2, - 1, 0, 1})"

text \<open>The matrix can be moved back and read again on the axes of a tensor of rank two.\<close>

lemma channel_matrix_moved:
  assumes "rows \<noteq> []" and "\<And>r. r \<in> set rows \<Longrightarrow> length r = n" and "matrix_axis axis"
  obtains t where "move_channels rows axis = Ok t" "channel_matrix t axis = Ok rows"
proof -
  have n: "length (hd rows) = n" using assms(1,2) by simp
  consider "axis = 0 \<or> axis = - 2" | "axis = 1 \<or> axis = - 1" using assms(3) by (auto simp: matrix_axis_def)
  then show thesis
  proof cases
    case 1
    have "map (channel_row (Suc 0) (length rows) n (concat rows)) [0 ..< length rows] = rows"
      using channel_row_first [OF assms(2)] by (auto intro!: nth_equalityI)
    with 1 n assms(1) that show ?thesis
      by (auto simp: move_channels_def channel_matrix_def channel_axis_def)
  next
    case 2
    have "map (channel_row n (length rows) (Suc 0) (concat (map (\<lambda>j. map (\<lambda>row. row ! j) rows) [0 ..< n])))
        [0 ..< length rows] = rows"
      using channel_row_last [OF assms(2)] by (auto intro!: nth_equalityI)
    with 2 n assms(1) that show ?thesis
      by (auto simp: move_channels_def channel_matrix_def channel_axis_def)
  qed
qed

lemma channel_matrix_rows:
  assumes "channel_matrix t axis = Ok rows"
  obtains n where "rows \<noteq> []" "\<And>r. r \<in> set rows \<Longrightarrow> length r = n"
proof -
  have "length (channel_row p c q xs ch) = p * q" for p c q xs ch
    unfolding channel_row_def by (induction p) simp_all
  with assms that show thesis
    by (fastforce simp: channel_matrix_def Let_def split: if_splits)
qed

lemma each_channel_spec:
  assumes "channel_matrix t (aqs_axis st) = Ok rows" and "length rows = length (aqs_scales st)"
    and "matrix_axis (aqs_axis st)"
  obtains u where "each_channel f t st = Ok u"
    "channel_matrix u (aqs_axis st) = Ok (map (\<lambda>ch. map (f ch) (rows ! ch)) [0 ..< length rows])"
proof -
  obtain n where n: "rows \<noteq> []" "\<And>r. r \<in> set rows \<Longrightarrow> length r = n"
    using channel_matrix_rows [OF assms(1)] by blast
  let ?out = "map (\<lambda>ch. map (f ch) (rows ! ch)) [0 ..< length rows]"
  have "?out \<noteq> []" "\<And>r. r \<in> set ?out \<Longrightarrow> length r = n" using n by auto
  from channel_matrix_moved [OF this assms(3)] obtain u
    where "move_channels ?out (aqs_axis st) = Ok u" "channel_matrix u (aqs_axis st) = Ok ?out" by blast
  with assms(1,2) that show thesis by (simp add: each_channel_def)
qed

section \<open>The error of one value\<close>

lemma qmax_pos: "b \<in> {4, 8, 16} \<Longrightarrow> 0 < qmax b"
  by (auto simp: qmax_def)

lemma qmax_int: "qmax b = of_int (2 ^ nat b - 1)"
  by (simp add: qmax_def)

lemma clip_real_bounds: "0 \<le> h \<Longrightarrow> 0 \<le> clip_real 0 h x \<and> clip_real 0 h x \<le> h"
  by (simp add: clip_real_def)

lemma clip_real_int: "\<exists>k. clip_real 0 (of_int h) (of_int n) = of_int k"
  unfolding clip_real_def by (metis (no_types) max_def min_def of_int_0)

text \<open>
  With a range around zero the zero point is not cut off, and the value returned
  for \<open>x\<close> is the multiple of the scale next to \<open>x\<close>.
\<close>

lemma straddling_error:
  fixes s mn mx x :: real
  assumes s: "0 < s" and q: "mx - mn = s * of_int q" and z: "mn \<le> 0" "0 \<le> mx" and x: "mn \<le> x" "x \<le> mx"
    and zd: "zd = clip_real 0 (of_int q) (of_int (round_half_even (- mn / s)))"
  shows "\<bar>(clip_real 0 (of_int q) (of_int (round_half_even (x / s)) + zd) - zd) * s - x\<bar> \<le> s / 2"
proof -
  define a where "a = x / s"
  define u where "u = - mn / s"
  have xa: "x = a * s" using s by (simp add: a_def)
  have u0: "0 \<le> u" using s z by (simp add: u_def divide_nonpos_pos)
  have mxs: "mx / s = of_int q - u" using s q by (simp add: u_def field_simps)
  have "mn / s \<le> a" "a \<le> mx / s" "0 \<le> mx / s"
    using s x z by (simp_all add: a_def divide_right_mono)
  then have au: "- u \<le> a" "a \<le> of_int q - u" "u \<le> of_int q"
    using mxs by (simp_all add: u_def)
  have ru: "0 \<le> round_half_even u" "round_half_even u \<le> q"
    using round_half_even_mono [OF u0] round_half_even_mono [OF au(3)] round_half_even_int [of 0] by simp_all
  then have zdu: "zd = of_int (round_half_even u)" unfolding zd u_def [symmetric] by (simp add: clip_real_def)
  have low: "0 \<le> round_half_even a + round_half_even u"
    using round_half_even_mono [OF au(1)] by (simp add: round_half_even_minus)
  have ea: "\<bar>of_int (round_half_even a) - a\<bar> \<le> 1 / 2" and eu: "\<bar>of_int (round_half_even u) - u\<bar> \<le> 1 / 2"
    by (rule round_half_even_error)+
  let ?v = "clip_real 0 (of_int q) (of_int (round_half_even a) + zd) - zd"
  have "\<bar>?v - a\<bar> \<le> 1 / 2"
  proof (cases "round_half_even a + round_half_even u \<le> q")
    case True
    then have "?v = of_int (round_half_even a)"
      using low by (simp add: zdu clip_real_def flip: of_int_add)
    with ea show ?thesis by simp
  next
    case False
    then have gt: "real_of_int q + 1 \<le> of_int (round_half_even a) + of_int (round_half_even u)"
      by linarith
    then have "?v = of_int q - of_int (round_half_even u)"
      using ru by (simp add: zdu clip_real_def)
    with gt ea eu au(2) show ?thesis by (simp add: abs_le_iff)
  qed
  then have "\<bar>?v - a\<bar> * s \<le> 1 / 2 * s" using s by (intro mult_right_mono) simp_all
  moreover have "\<bar>?v * s - x\<bar> = \<bar>?v - a\<bar> * s"
    using s by (simp add: xa abs_mult_pos left_diff_distrib [symmetric])
  ultimately show ?thesis by (simp add: a_def)
qed

section \<open>Calibration\<close>

lemma channel_scale_pos: "b \<in> {4, 8, 16} \<Longrightarrow> 0 < channel_scale b row"
  using qmax_pos [of b] by (simp add: channel_scale_def Let_def)

lemma channel_bits_widths:
  "aq_config_post_init c = Ok c \<Longrightarrow> b \<in> set (channel_bits argsort c imp) \<Longrightarrow> b \<in> {4, 8, 16}"
  by (auto simp: channel_bits_def Let_def aq_config_post_init_def split: if_splits)

lemma length_channel_bits [simp]: "length (channel_bits argsort c imp) = length imp"
  by (simp add: channel_bits_def Let_def)

lemma aq_fit_Ok:
  assumes "aq_fit argsort w imp p = (p', Ok st)" and "rt_wf imp"
  obtains rows where "channel_matrix w (aqc_axis (aq_config p)) = Ok rows" "length (rt_data imp) = length rows"
    "[] \<notin> set rows" "p' = p\<lparr>aq_state := Some st\<rparr>"
    "aqs_bits st = channel_bits argsort (aq_config p) (rt_data imp)" "aqs_axis st = aqc_axis (aq_config p)"
    "aqs_scales st = map2 channel_scale (aqs_bits st) rows" "aqs_zeros st = map2 channel_zero (aqs_bits st) rows"
  using assms that by (auto simp: aq_fit_def Let_def rt_wf_def list_ex_iff split: res.splits if_splits)

text \<open>A calibrated channel: its width, its row, its scale and its zero point.\<close>

definition calibrated :: "aq_state \<Rightarrow> nat \<Rightarrow> real list \<Rightarrow> bool" where
  "calibrated st ch row =
     (aqs_bits st ! ch \<in> {4, 8, 16} \<and> aqs_scales st ! ch = channel_scale (aqs_bits st ! ch) row \<and>
      aqs_zeros st ! ch = channel_zero (aqs_bits st ! ch) row \<and> row \<noteq> [])"

lemma quantize_value_range:
  assumes "calibrated st ch row"
  shows "\<exists>k. quantize_value st ch x = real k \<and> k < 2 ^ nat (aqs_bits st ! ch)"
proof -
  let ?b = "aqs_bits st ! ch"
  obtain z where z: "channel_zero ?b row = of_int z"
    unfolding channel_zero_def qmax_int using clip_real_int by blast
  have "quantize_value st ch x =
      clip_real 0 (of_int (2 ^ nat ?b - 1)) (of_int (round_half_even (x / aqs_scales st ! ch) + z))"
    using assms z by (simp add: quantize_value_def calibrated_def qmax_int)
  then obtain k where k: "quantize_value st ch x = of_int k" using clip_real_int by metis
  have "0 \<le> quantize_value st ch x" "quantize_value st ch x \<le> qmax ?b"
    using clip_real_bounds [of "qmax ?b"] qmax_pos [of ?b] assms
    by (simp_all add: quantize_value_def calibrated_def)
  then have "0 \<le> k" "k \<le> 2 ^ nat ?b - 1" unfolding k qmax_int by (simp_all only: of_int_le_iff of_int_0_le_iff)
  then show ?thesis using k by (intro exI [of _ "nat k"]) (auto simp: nat_less_iff)
qed

lemma calibrated_roundtrip:
  assumes "calibrated st ch row" and "x \<in> set row"
    and "Min (set row) \<le> 0" "0 \<le> Max (set row)" "1 / 10 ^ 12 < Max (set row) - Min (set row)"
  shows "\<bar>dequantize_value st ch (quantize_value st ch x) - x\<bar> \<le> aqs_scales st ! ch / 2"
proof -
  let ?b = "aqs_bits st ! ch"
  have b: "?b \<in> {4, 8, 16}" using assms(1) by (simp add: calibrated_def)
  have sc: "channel_scale ?b row = (Max (set row) - Min (set row)) / qmax ?b"
    using assms(5) by (simp add: channel_scale_def Let_def)
  have x: "Min (set row) \<le> x" "x \<le> Max (set row)" using assms(2) by simp_all
  have "Max (set row) - Min (set row) = channel_scale ?b row * of_int (2 ^ nat ?b - 1)"
    unfolding sc qmax_int [symmetric] using qmax_pos [OF b] by simp
  from straddling_error [OF channel_scale_pos [OF b] this assms(3,4) x refl] assms(1) show ?thesis
    by (simp only: dequantize_value_def quantize_value_def calibrated_def channel_zero_def qmax_int)
qed

text \<open>A channel whose values are all positive has the zero point 0, so nothing above its span survives.\<close>

lemma offset_channel_cut:
  assumes "calibrated st ch row" and "0 < Min (set row)" and "1 / 10 ^ 12 < Max (set row) - Min (set row)"
  shows "dequantize_value st ch (quantize_value st ch x) \<le> Max (set row) - Min (set row)"
proof -
  let ?b = "aqs_bits st ! ch" and ?s = "aqs_scales st ! ch"
  have b: "?b \<in> {4, 8, 16}" and s: "?s = channel_scale ?b row" using assms(1) by (simp_all add: calibrated_def)
  have pos: "0 < ?s" "0 < qmax ?b" using channel_scale_pos [OF b] qmax_pos [OF b] by (simp_all add: s)
  have span: "qmax ?b * ?s = Max (set row) - Min (set row)"
    using assms(3) pos by (simp add: s channel_scale_def Let_def)
  have "- Min (set row) / ?s \<le> 0" using assms(2) pos(1) by simp
  then have "round_half_even (- Min (set row) / ?s) \<le> 0"
    using round_half_even_mono [of _ 0] round_half_even_int [of 0] by simp
  then have "aqs_zeros st ! ch = 0"
    using assms(1) pos by (simp add: calibrated_def channel_zero_def clip_real_def)
  moreover have "quantize_value st ch x \<le> qmax ?b"
    using clip_real_bounds [of "qmax ?b"] pos by (simp add: quantize_value_def)
  ultimately show ?thesis using pos(1) by (simp add: dequantize_value_def span [symmetric])
qed

lemma fit_calibrated:
  assumes "aq_fit argsort w imp p = (p', Ok st)" and "rt_wf imp" and "aq_config_post_init (aq_config p) = Ok (aq_config p)"
    and "channel_matrix w (aqc_axis (aq_config p)) = Ok rows" and "ch < length rows"
  shows "calibrated st ch (rows ! ch)"
proof -
  obtain rows' where r: "channel_matrix w (aqc_axis (aq_config p)) = Ok rows'" and
    len: "length (rt_data imp) = length rows'" and ne: "[] \<notin> set rows'"
    and bits: "aqs_bits st = channel_bits argsort (aq_config p) (rt_data imp)"
    and sc: "aqs_scales st = map2 channel_scale (aqs_bits st) rows'" "aqs_zeros st = map2 channel_zero (aqs_bits st) rows'"
    by (rule aq_fit_Ok [OF assms(1,2)])
  from r assms(4) have eq: "rows' = rows" by simp
  have l: "length (aqs_bits st) = length rows" using bits len eq by simp
  have "aqs_bits st ! ch \<in> {4, 8, 16}"
    using channel_bits_widths [OF assms(3), of "aqs_bits st ! ch" argsort "rt_data imp"] bits l assms(5)
    by (metis nth_mem)
  moreover have "rows ! ch \<noteq> []" using ne eq assms(5) by (metis nth_mem)
  ultimately show ?thesis using assms(5) sc l by (simp add: calibrated_def eq)
qed

text \<open>Calibration, quantisation and dequantisation in a row, value by value.\<close>

lemma roundtrip_values:
  assumes "aq_config_post_init (aq_config p) = Ok (aq_config p)" and "rt_wf importance"
    and "aq_fit argsort weights importance p = (p', Ok st)" and "matrix_axis (aqc_axis (aq_config p))"
  obtains rows q qrows d drows where
    "channel_matrix weights (aqs_axis st) = Ok rows" "aq_quantize weights None p' = Ok q"
    "channel_matrix q (aqs_axis st) = Ok qrows" "aq_dequantize q None p' = Ok d"
    "channel_matrix d (aqs_axis st) = Ok drows" "length qrows = length rows" "length drows = length rows"
    "\<And>ch. ch < length rows \<Longrightarrow> calibrated st ch (rows ! ch)"
    "\<And>ch j. ch < length rows \<Longrightarrow> j < length (rows ! ch) \<Longrightarrow>
       qrows ! ch ! j = quantize_value st ch (rows ! ch ! j) \<and>
       drows ! ch ! j = dequantize_value st ch (quantize_value st ch (rows ! ch ! j))"
proof -
  obtain rows where rows0: "channel_matrix weights (aqc_axis (aq_config p)) = Ok rows"
    and l: "length (rt_data importance) = length rows" and p0: "p' = p\<lparr>aq_state := Some st\<rparr>"
    and b: "aqs_bits st = channel_bits argsort (aq_config p) (rt_data importance)"
    and ax: "aqs_axis st = aqc_axis (aq_config p)" and sc: "aqs_scales st = map2 channel_scale (aqs_bits st) rows"
    using aq_fit_Ok [OF assms(3,2)] by blast
  have rows: "channel_matrix weights (aqs_axis st) = Ok rows" and p': "aq_state p' = Some st"
    and len: "length rows = length (aqs_scales st)"
    using rows0 ax p0 l by (simp_all add: sc b)
  have cal: "calibrated st ch (rows ! ch)" if "ch < length rows" for ch
    using fit_calibrated [OF assms(3,2,1) _ that] rows ax by simp
  have mx: "matrix_axis (aqs_axis st)" using assms(4) ax by simp
  let ?qr = "map (\<lambda>ch. map (quantize_value st ch) (rows ! ch)) [0 ..< length rows]"
  let ?dr = "map (\<lambda>ch. map (dequantize_value st ch) (?qr ! ch)) [0 ..< length ?qr]"
  obtain q where q: "each_channel (quantize_value st) weights st = Ok q" "channel_matrix q (aqs_axis st) = Ok ?qr"
    using each_channel_spec [OF rows len mx] by blast
  have "length ?qr = length (aqs_scales st)" using len by simp
  then obtain d where d: "each_channel (dequantize_value st) q st = Ok d" "channel_matrix d (aqs_axis st) = Ok ?dr"
    using each_channel_spec [OF q(2) _ mx] by blast
  have "aq_quantize weights None p' = Ok q" "aq_dequantize q None p' = Ok d"
    using q(1) d(1) p' by (simp_all add: aq_quantize_def aq_dequantize_def given_state_def require_state_def)
  from that [OF rows this(1) q(2) this(2) d(2)] cal show thesis by simp
qed

section \<open>Properties\<close>

definition straddles :: "real list \<Rightarrow> bool" where
  "straddles row = (Min (set row) \<le> 0 \<and> 0 \<le> Max (set row) \<and> 1 / 10 ^ 12 < Max (set row) - Min (set row))"

text \<open>
  C39: Quantisation loses at most half a step.  After a successful calibration on
  an axis of a matrix, quantising the calibrated tensor and reading it back both
  succeed; every quantised value is an integer that fits into the width of its
  channel; and on every channel whose values lie on both sides of zero, each
  value comes back with an error of at most half the channel's scale.
\<close>

theorem action_quant_roundtrip:
  assumes "aq_config_post_init (aq_config p) = Ok (aq_config p)" and "rt_wf importance"
    and "aq_fit argsort weights importance p = (p', Ok st)" and "matrix_axis (aqc_axis (aq_config p))"
  shows "\<exists>rows q qrows d drows.
      channel_matrix weights (aqs_axis st) = Ok rows \<and>
      aq_quantize weights None p' = Ok q \<and> channel_matrix q (aqs_axis st) = Ok qrows \<and>
      aq_dequantize q None p' = Ok d \<and> channel_matrix d (aqs_axis st) = Ok drows \<and>
      length qrows = length rows \<and> length drows = length rows \<and>
      (\<forall>ch < length rows. \<forall>j < length (rows ! ch).
         (\<exists>k. qrows ! ch ! j = real k \<and> k < 2 ^ nat (aqs_bits st ! ch)) \<and>
         (straddles (rows ! ch) \<longrightarrow> \<bar>drows ! ch ! j - rows ! ch ! j\<bar> \<le> aqs_scales st ! ch / 2))"
proof -
  obtain rows q qrows d drows where
    ops: "channel_matrix weights (aqs_axis st) = Ok rows" "aq_quantize weights None p' = Ok q"
      "channel_matrix q (aqs_axis st) = Ok qrows" "aq_dequantize q None p' = Ok d"
      "channel_matrix d (aqs_axis st) = Ok drows" "length qrows = length rows" "length drows = length rows"
    and cal: "\<And>ch. ch < length rows \<Longrightarrow> calibrated st ch (rows ! ch)"
    and val: "\<And>ch j. ch < length rows \<Longrightarrow> j < length (rows ! ch) \<Longrightarrow>
       qrows ! ch ! j = quantize_value st ch (rows ! ch ! j) \<and>
       drows ! ch ! j = dequantize_value st ch (quantize_value st ch (rows ! ch ! j))"
    using roundtrip_values [OF assms] by blast
  have "\<forall>ch < length rows. \<forall>j < length (rows ! ch).
      (\<exists>k. qrows ! ch ! j = real k \<and> k < 2 ^ nat (aqs_bits st ! ch)) \<and>
      (straddles (rows ! ch) \<longrightarrow> \<bar>drows ! ch ! j - rows ! ch ! j\<bar> \<le> aqs_scales st ! ch / 2)"
    using val quantize_value_range [OF cal] calibrated_roundtrip [OF cal] by (simp add: straddles_def)
  with ops show ?thesis by blast
qed

definition aq_sample :: aq where
  "aq_sample = aq_init \<lparr>aqc_enabled = True, aqc_sensitive_bits = 8, aqc_default_bits = 4,
     aqc_sensitive_ratio = Fin (1 / 2), aqc_axis = 0\<rparr>"

definition ones :: rtensor where
  "ones = \<lparr>rt_shape = [1], rt_data = [1]\<rparr>"

lemma aq_sample_ok: "aq_config_post_init (aq_config aq_sample) = Ok (aq_config aq_sample)" "rt_wf ones"
    "matrix_axis (aqc_axis (aq_config aq_sample))"
  by (simp_all add: aq_sample_def aq_init_def aq_config_post_init_def ones_def rt_wf_def matrix_axis_def)

lemma aq_sample_fit: "\<exists>p' st. aq_fit (\<lambda>xs. [0]) \<lparr>rt_shape = [1, 2], rt_data = [x, y]\<rparr> ones aq_sample = (p', Ok st) \<and>
    aqs_axis st = 0"
  by (simp add: aq_fit_def aq_sample_def aq_init_def ones_def channel_matrix_def channel_axis_def channel_row_def
      Let_def eval_nat_numeral)

theorem action_quant_roundtrip_witness:
  "\<exists>p' st q d. aq_fit (\<lambda>xs. [0]) \<lparr>rt_shape = [1, 2], rt_data = [-1, 1]\<rparr> ones aq_sample = (p', Ok st) \<and>
     aq_quantize \<lparr>rt_shape = [1, 2], rt_data = [-1, 1]\<rparr> None p' = Ok q \<and> aq_dequantize q None p' = Ok d"
  using aq_sample_fit [of "- 1" 1] action_quant_roundtrip [OF aq_sample_ok(1,2) _ aq_sample_ok(3)] by metis

text \<open>
  Channels away from zero are destroyed.  When every value of a channel is
  positive, the zero point is cut off at 0, and what comes back for any of its
  values is at most the channel's span: a channel with values between 10 and 11
  comes back with values of at most 1.
\<close>

theorem offset_channel_lost:
  assumes "aq_config_post_init (aq_config p) = Ok (aq_config p)" and "rt_wf importance"
    and "aq_fit argsort weights importance p = (p', Ok st)" and "matrix_axis (aqc_axis (aq_config p))"
    and "channel_matrix weights (aqs_axis st) = Ok rows" and "ch < length rows" and "j < length (rows ! ch)"
    and "0 < Min (set (rows ! ch))" and "1 / 10 ^ 12 < Max (set (rows ! ch)) - Min (set (rows ! ch))"
  shows "\<exists>q d drows. aq_quantize weights None p' = Ok q \<and> aq_dequantize q None p' = Ok d \<and>
           channel_matrix d (aqs_axis st) = Ok drows \<and>
           drows ! ch ! j \<le> Max (set (rows ! ch)) - Min (set (rows ! ch))"
proof -
  obtain q d drows where ops: "aq_quantize weights None p' = Ok q" "aq_dequantize q None p' = Ok d"
      "channel_matrix d (aqs_axis st) = Ok drows"
    and val: "calibrated st ch (rows ! ch)"
      "drows ! ch ! j = dequantize_value st ch (quantize_value st ch (rows ! ch ! j))"
    using roundtrip_values [OF assms(1-4)] assms(5-7) by (metis res.inject(2))
  from offset_channel_cut [OF val(1) assms(8,9)] val(2) ops show ?thesis by auto
qed

theorem offset_channel_lost_witness:
  "\<exists>p' st q d drows. aq_fit (\<lambda>xs. [0]) \<lparr>rt_shape = [1, 2], rt_data = [10, 11]\<rparr> ones aq_sample = (p', Ok st) \<and>
     aq_dequantize q None p' = Ok d \<and> channel_matrix d 0 = Ok drows \<and> drows ! 0 ! 1 \<le> 1"
proof -
  let ?w = "\<lparr>rt_shape = [1, 2], rt_data = [10, 11]\<rparr>"
  obtain p' st where f: "aq_fit (\<lambda>xs. [0]) ?w ones aq_sample = (p', Ok st)" and ax: "aqs_axis st = 0"
    using aq_sample_fit by blast
  have m: "channel_matrix ?w (aqs_axis st) = Ok [[10, 11]]"
    by (simp add: ax channel_matrix_def channel_axis_def channel_row_def eval_nat_numeral)
  have "Max (set ([[10, 11]] ! 0)) - Min (set ([[10, 11]] ! 0)) = (1 :: real)" by simp
  with offset_channel_lost [OF aq_sample_ok(1,2) f aq_sample_ok(3) m, of 0 1] f show ?thesis
    by (fastforce simp: ax)
qed

section \<open>Sensitive channels\<close>

definition argsort_ok :: "(real list \<Rightarrow> nat list) \<Rightarrow> bool" where
  "argsort_ok argsort =
     (\<forall>xs. distinct (argsort xs) \<and> set (argsort xs) = {0 ..< length xs} \<and> sorted (map (\<lambda>i. xs ! i) (argsort xs)))"

lemma sorted_split_le:
  "sorted (map f xs) \<Longrightarrow> x \<in> set (take n xs) \<Longrightarrow> y \<in> set (drop n xs) \<Longrightarrow> (f x :: real) \<le> f y"
proof -
  assume s: "sorted (map f xs)" and x: "x \<in> set (take n xs)" and y: "y \<in> set (drop n xs)"
  have "sorted (map f (take n xs) @ map f (drop n xs))" using s by (simp flip: map_append)
  with x y show ?thesis by (auto simp: sorted_append)
qed

text \<open>
  Precision goes to the channels that matter.  Exactly \<open>sensitive_count\<close>
  channels (all of them, when there are fewer) receive \<open>sensitive_bits\<close>, every other
  one \<open>default_bits\<close>, and no channel with fewer bits is more important than one
  with more.
\<close>

theorem sensitive_channels:
  assumes "argsort_ok argsort" and "aqc_default_bits c < aqc_sensitive_bits c"
  shows "length (filter (\<lambda>b. b = aqc_sensitive_bits c) (channel_bits argsort c imp)) =
           min (length imp) (sensitive_count c (length imp)) \<and>
         set (channel_bits argsort c imp) \<subseteq> {aqc_sensitive_bits c, aqc_default_bits c} \<and>
         (\<forall>i < length imp. \<forall>j < length imp.
            channel_bits argsort c imp ! i < channel_bits argsort c imp ! j \<longrightarrow> imp ! i \<le> imp ! j)"
proof -
  let ?n = "length imp" and ?o = "argsort imp"
  let ?k = "?n - sensitive_count c ?n"
  have o: "distinct ?o" "set ?o = {0 ..< ?n}" "sorted (map (\<lambda>i. imp ! i) ?o)"
    using assms(1) by (simp_all add: argsort_ok_def)
  then have len: "length ?o = ?n" using distinct_card [of ?o] by simp
  have bit: "channel_bits argsort c imp ! i =
      (if i \<in> set (drop ?k ?o) then aqc_sensitive_bits c else aqc_default_bits c)" if "i < ?n" for i
    using that by (simp add: channel_bits_def Let_def)
  have "filter (\<lambda>b. b = aqc_sensitive_bits c) (channel_bits argsort c imp) =
      map (\<lambda>i. aqc_sensitive_bits c) (filter (\<lambda>i. i \<in> set (drop ?k ?o)) [0 ..< ?n])"
    using assms(2) by (auto simp: channel_bits_def Let_def filter_map comp_def intro!: map_cong filter_cong)
  then have "length (filter (\<lambda>b. b = aqc_sensitive_bits c) (channel_bits argsort c imp)) =
      length (filter (\<lambda>i. i \<in> set (drop ?k ?o)) [0 ..< ?n])" by simp
  also have "\<dots> = card (set (filter (\<lambda>i. i \<in> set (drop ?k ?o)) [0 ..< ?n]))"
    by (rule distinct_card [symmetric]) simp
  also have "set (filter (\<lambda>i. i \<in> set (drop ?k ?o)) [0 ..< ?n]) = set (drop ?k ?o)"
    using o(2) set_drop_subset [of ?k ?o] by auto
  also have "card (set (drop ?k ?o)) = min ?n (sensitive_count c ?n)"
    using o(1) len by (simp add: distinct_card)
  finally have count: "length (filter (\<lambda>b. b = aqc_sensitive_bits c) (channel_bits argsort c imp)) =
      min ?n (sensitive_count c ?n)" .
  have "imp ! i \<le> imp ! j"
    if "i < ?n" "j < ?n" "channel_bits argsort c imp ! i < channel_bits argsort c imp ! j" for i j
  proof -
    from that assms(2) have "j \<in> set (drop ?k ?o)" "i \<notin> set (drop ?k ?o)" by (auto simp: bit split: if_splits)
    moreover from this that(1) o(2) have "i \<in> set (take ?k ?o)"
      by (metis Un_iff append_take_drop_id atLeastLessThan_iff set_append zero_le)
    ultimately show ?thesis using sorted_split_le [OF o(3)] by blast
  qed
  with count show ?thesis by (auto simp: channel_bits_def Let_def)
qed

theorem sensitive_channels_witness:
  "length (filter (\<lambda>b. b = 8) (channel_bits (\<lambda>xs. sort_key (\<lambda>i. xs ! i) [0 ..< length xs]) (aq_config aq_sample)
     [1, 3, 2, 0])) = 2"
proof -
  have "argsort_ok (\<lambda>xs. sort_key (\<lambda>i. xs ! i) [0 ..< length xs])" by (simp add: argsort_ok_def)
  from sensitive_channels [OF this, of "aq_config aq_sample" "[1, 3, 2, 0]"] show ?thesis
    by (simp add: aq_sample_def aq_init_def sensitive_count_def round_half_even_def)
qed

end
