(* ===== verification/Framing.thy ===== *)
theory Framing
  imports Protocol
begin

text \<open>
  Length-prefixed frames over a stream socket (\<open>send_frame\<close> and \<open>recv_frame\<close> of
  \<open>protocol.py\<close>): a magic, the size of a JSON object as a big-endian 32-bit number,
  the object, and the blobs whose sizes it announces.  The JSON codec is a
  parameter; the socket is that of \<open>recv_exact\<close>.
\<close>

section \<open>Frames\<close>

text \<open>\<open>struct.pack("!I", n)\<close> and \<open>struct.unpack("!I", bytes)\<close>\<close>

definition be32 :: "nat \<Rightarrow> byte list" where
  "be32 n = map (\<lambda>k. of_nat (n div 256 ^ k)) [3, 2, 1, 0]"

definition of_be32 :: "byte list \<Rightarrow> nat" where
  "of_be32 bs = fold (\<lambda>b n. n * 256 + unat b) bs 0"

definition frame_metadata :: "pydict \<Rightarrow> byte list list \<Rightarrow> pydict" where
  "frame_metadata metadata blobs =
     ddisplay metadata [(''blob_sizes'', PList (map (\<lambda>b. PInt (int (length b))) blobs))]"

text \<open>The bytes \<open>send_frame\<close> hands to \<open>sendall\<close>.\<close>

definition send_frame ::
    "(pydict \<Rightarrow> byte list res) \<Rightarrow> byte list \<Rightarrow> pydict \<Rightarrow> byte list list \<Rightarrow> byte list res" where
  "send_frame dumps magic metadata blobs =
     res_bind (dumps (frame_metadata metadata blobs)) (\<lambda>payload.
       if 2 ^ 32 \<le> length payload then Err (OtherError ''struct.error'')
       else Ok (magic @ be32 (length payload) @ payload @ concat blobs))"

fun recv_blobs :: "pyval list \<Rightarrow> sock \<Rightarrow> (byte list list \<times> sock) res" where
  "recv_blobs [] s = Ok ([], s)"
| "recv_blobs (n # ns) s =
     res_bind (py_int n) (\<lambda>k.
     res_bind (recv_exact s (nat k) []) (\<lambda>(blob, s1).
     res_bind (recv_blobs ns s1) (\<lambda>(blobs, s2). Ok (blob # blobs, s2))))"

definition max_metadata_bytes :: nat where
  "max_metadata_bytes = 1000000"

definition recv_frame ::
    "(byte list \<Rightarrow> pyval res) \<Rightarrow> byte list \<Rightarrow> sock \<Rightarrow> ((pydict \<times> byte list list) \<times> sock) res" where
  "recv_frame loads magic s0 =
     res_bind (recv_exact s0 (length magic) []) (\<lambda>(got, s1).
       if got \<noteq> magic then Err (ProtocolError ''invalid frame magic'')
       else res_bind (recv_exact s1 4 []) (\<lambda>(header, s2).
         let n = of_be32 header
         in if n = 0 \<or> max_metadata_bytes < n then Err (ProtocolError ''invalid frame metadata size'')
            else res_bind (recv_exact s2 n []) (\<lambda>(payload, s3).
              res_bind (loads payload) (\<lambda>v.
                case v of
                  PDict metadata \<Rightarrow>
                    res_bind (py_iter (dget_or metadata ''blob_sizes'' (PList []))) (\<lambda>sizes.
                    res_bind (recv_blobs sizes s3) (\<lambda>(blobs, s4). Ok ((metadata, blobs), s4)))
                | _ \<Rightarrow> Err (ProtocolError ''frame metadata must be a JSON object'')))))"

section \<open>Lemmas\<close>

lemma length_be32 [simp]: "length (be32 n) = 4"
  by (simp add: be32_def)

lemma unat_byte: "unat (of_nat n :: byte) = n mod 256"
  by (simp add: unat_of_nat)

lemma of_be32_be32:
  assumes "n < 2 ^ 32"
  shows "of_be32 (be32 n) = n"
proof -
  have "n div 256 ^ 3 < 256" using assms by (simp add: less_mult_imp_div_less)
  then have top: "n div 256 ^ 3 mod 256 = n div 256 ^ 3" by simp
  moreover have "n div 256 ^ 3 = n div 256 ^ 2 div 256" "n div 256 ^ 2 = n div 256 div 256"
    by (simp_all flip: div_mult2_eq)
  ultimately have "((n div 256 ^ 3 mod 256 * 256 + n div 256 ^ 2 mod 256) * 256 + n div 256 mod 256) * 256 + n mod 256 = n"
    by simp
  with top show ?thesis by (simp add: be32_def of_be32_def unat_byte)
qed

text \<open>A socket that still has \<open>bs\<close> to deliver, then \<open>rest\<close>.\<close>

lemma recv_exact_prefix:
  assumes "[] \<notin> set s" and "concat s = bs @ rest"
  obtains s' where "recv_exact s (length bs) [] = Ok (bs, s')" "concat s' = rest" "[] \<notin> set s'"
  using recv_exact_spec [of s "[]" "length bs"] assms by auto

lemma recv_blobs_prefix:
  assumes "[] \<notin> set s" and "concat s = concat blobs @ rest"
  obtains s' where "recv_blobs (map (\<lambda>b. PInt (int (length b))) blobs) s = Ok (blobs, s')" "concat s' = rest" "[] \<notin> set s'"
  using assms
proof (induction blobs arbitrary: s thesis)
  case (Cons b blobs)
  from Cons.prems(3) have "concat s = b @ (concat blobs @ rest)" by simp
  from recv_exact_prefix [OF Cons.prems(2) this] obtain s1 where
    s1: "recv_exact s (length b) [] = Ok (b, s1)" "concat s1 = concat blobs @ rest" "[] \<notin> set s1" .
  from Cons.IH [OF _ s1(3,2)] obtain s2 where
    "recv_blobs (map (\<lambda>b. PInt (int (length b))) blobs) s1 = Ok (blobs, s2)" "concat s2 = rest" "[] \<notin> set s2" by blast
  with s1 Cons.prems(1) show ?case by simp
qed simp

definition inverse_codec :: "(pydict \<Rightarrow> byte list res) \<Rightarrow> (byte list \<Rightarrow> pyval res) \<Rightarrow> bool" where
  "inverse_codec dumps loads = (\<forall>d p. dumps d = Ok p \<longrightarrow> p \<noteq> [] \<and> loads p = Ok (PDict d))"

lemma recv_frame_prefix:
  assumes c: "inverse_codec dumps loads" and "[] \<notin> set s" and p: "dumps (frame_metadata m blobs) = Ok payload"
    and len: "length payload \<le> max_metadata_bytes"
    and "concat s = (magic @ be32 (length payload) @ payload @ concat blobs) @ rest"
  obtains s' where "recv_frame loads magic s = Ok ((frame_metadata m blobs, blobs), s')" "concat s' = rest" "[] \<notin> set s'"
proof -
  from assms(5) have "concat s = magic @ (be32 (length payload) @ payload @ concat blobs @ rest)" by simp
  from recv_exact_prefix [OF assms(2) this] obtain s1 where
    s1: "recv_exact s (length magic) [] = Ok (magic, s1)"
      "concat s1 = be32 (length payload) @ payload @ concat blobs @ rest" "[] \<notin> set s1" .
  from recv_exact_prefix [OF s1(3,2)] obtain s2 where
    s2: "recv_exact s1 4 [] = Ok (be32 (length payload), s2)" "concat s2 = payload @ concat blobs @ rest" "[] \<notin> set s2"
    by auto
  from recv_exact_prefix [OF s2(3,2)] obtain s3 where
    s3: "recv_exact s2 (length payload) [] = Ok (payload, s3)" "concat s3 = concat blobs @ rest" "[] \<notin> set s3" .
  from recv_blobs_prefix [OF s3(3,2)] obtain s4 where
    s4: "recv_blobs (map (\<lambda>b. PInt (int (length b))) blobs) s3 = Ok (blobs, s4)" "concat s4 = rest" "[] \<notin> set s4" .
  have n: "of_be32 (be32 (length payload)) = length payload"
    using len by (intro of_be32_be32) (simp add: max_metadata_bytes_def)
  have l: "payload \<noteq> []" "loads payload = Ok (PDict (frame_metadata m blobs))"
    using c p by (auto simp: inverse_codec_def)
  have "dget (frame_metadata m blobs) ''blob_sizes'' = Some (PList (map (\<lambda>b. PInt (int (length b))) blobs))"
    by (simp add: frame_metadata_def dget_dput)
  then show thesis using that s1(1) s2(1) s3(1) s4 n l len by (simp add: recv_frame_def dget_or_def)
qed

section \<open>Properties\<close>

text \<open>The peer's bytes for a list of messages, one frame after the other, and reading that many frames.\<close>

fun send_frames ::
    "(pydict \<Rightarrow> byte list res) \<Rightarrow> byte list \<Rightarrow> (pydict \<times> byte list list) list \<Rightarrow> byte list res" where
  "send_frames dumps magic [] = Ok []"
| "send_frames dumps magic ((m, blobs) # ms) =
     res_bind (send_frame dumps magic m blobs) (\<lambda>b. res_bind (send_frames dumps magic ms) (\<lambda>bs. Ok (b @ bs)))"

fun recv_frames ::
    "(byte list \<Rightarrow> pyval res) \<Rightarrow> byte list \<Rightarrow> nat \<Rightarrow> sock \<Rightarrow> ((pydict \<times> byte list list) list \<times> sock) res" where
  "recv_frames loads magic 0 s = Ok ([], s)"
| "recv_frames loads magic (Suc n) s =
     res_bind (recv_frame loads magic s) (\<lambda>(f, s1).
     res_bind (recv_frames loads magic n s1) (\<lambda>(fs, s2). Ok (f # fs, s2)))"

definition small_metadata :: "(pydict \<Rightarrow> byte list res) \<Rightarrow> pydict \<times> byte list list \<Rightarrow> bool" where
  "small_metadata dumps f =
     (\<exists>p. dumps (frame_metadata (fst f) (snd f)) = Ok p \<and> length p \<le> max_metadata_bytes)"

text \<open>
  C28: Frames never lose synchronisation.  Whatever messages and blobs a peer sends
  one after the other, each with metadata of at most a million bytes, and however
  the network cuts the stream, the receiver reads exactly these messages with
  exactly these blobs, in order, and leaves the bytes behind the last one unread.
\<close>

theorem frame_stream_roundtrip:
  assumes "inverse_codec dumps loads" and "send_frames dumps magic ms = Ok bytes"
    and "list_all (small_metadata dumps) ms" and "[] \<notin> set s" and "concat s = bytes @ rest"
  shows "\<exists>s'. recv_frames loads magic (length ms) s =
           Ok (map (\<lambda>(m, blobs). (frame_metadata m blobs, blobs)) ms, s') \<and> concat s' = rest"
  using assms(2-5)
proof (induction ms arbitrary: s bytes)
  case (Cons f ms)
  obtain m blobs where f: "f = (m, blobs)" by (cases f)
  from Cons.prems(2) f obtain payload where p: "dumps (frame_metadata m blobs) = Ok payload"
    "length payload \<le> max_metadata_bytes" by (auto simp: small_metadata_def)
  from Cons.prems(1) f p obtain bs where bs: "send_frames dumps magic ms = Ok bs"
    "bytes = (magic @ be32 (length payload) @ payload @ concat blobs) @ bs"
    by (auto simp: send_frame_def split: if_splits)
  from Cons.prems(4) bs(2) have "concat s = (magic @ be32 (length payload) @ payload @ concat blobs) @ (bs @ rest)"
    by simp
  from recv_frame_prefix [OF assms(1) Cons.prems(3) p this] obtain s1 where
    s1: "recv_frame loads magic s = Ok ((frame_metadata m blobs, blobs), s1)" "concat s1 = bs @ rest" "[] \<notin> set s1" .
  from Cons.IH [OF bs(1) _ s1(3,2)] Cons.prems(2) obtain s2 where
    "recv_frames loads magic (length ms) s1 = Ok (map (\<lambda>(m, blobs). (frame_metadata m blobs, blobs)) ms, s2)"
    "concat s2 = rest" by auto
  with s1 f show ?case by simp
qed simp

text \<open>A codec that knows one message is enough for an example.\<close>

definition ping :: pydict where
  "ping = frame_metadata [(PStr ''type'', PStr ''ping'')] [[7, 8], []]"

theorem frame_stream_roundtrip_witness:
  "\<exists>s'. recv_frames (\<lambda>p. if p = [42] then Ok (PDict ping) else Err (ValueError ''bad JSON'')) [80] 1
     [[80, 0, 0], [0, 1], [42, 7], [8, 9]] = Ok ([(ping, [[7, 8], []])], s') \<and> concat s' = [9]"
proof -
  let ?dumps = "\<lambda>d. if d = ping then Ok [42] else Err (TypeError ''unknown'')"
  let ?loads = "\<lambda>p. if p = [42] then Ok (PDict ping) else Err (ValueError ''bad JSON'')"
  let ?ms = "[([(PStr ''type'', PStr ''ping'')], [[7, 8], []])]"
  have c: "inverse_codec ?dumps ?loads" by (auto simp: inverse_codec_def split: if_splits)
  have "send_frames ?dumps [80] ?ms = Ok [80, 0, 0, 0, 1, 42, 7, 8]"
    by (simp add: send_frame_def ping_def be32_def)
  moreover have "list_all (small_metadata ?dumps) ?ms"
    by (simp add: small_metadata_def ping_def max_metadata_bytes_def)
  ultimately show ?thesis
    using frame_stream_roundtrip [OF c, of "[80]" ?ms _ "[[80, 0, 0], [0, 1], [42, 7], [8, 9]]" "[9]"]
    by (simp add: ping_def)
qed

end
