(* ===== verification/Pi05_Tcp.thy ===== *)
theory Pi05_Tcp
  imports Framing Client Images Robots Vision_Batch
begin

text \<open>
  The Pi0.5 backends' common contract (\<open>models/pi05/common.py\<close>) and the TCP gateway
  to the float server (\<open>models/pi05/tcp.py\<close>).  The network is a parameter: a
  connection gives the segments that will arrive on it (before the peer closes
  or the timeout strikes), in the manner of \<open>recv_exact\<close>.  The robot registry
  is a lookup, JSON and JPEG are codecs, and the lock makes each exchange one
  sequential run.
\<close>

section \<open>Specification of the model\<close>

definition DEFAULT_ROBOT :: string where
  "DEFAULT_ROBOT = ''dazz-s600''"

definition pi05_spec ::
    "(pyval \<Rightarrow> string) \<Rightarrow> (string \<Rightarrow> robot_contract res) \<Rightarrow> string \<Rightarrow> pydict \<Rightarrow> string \<Rightarrow> (string \<times> pyval) list \<Rightarrow>
     int \<Rightarrow> model_spec res" where
  "pi05_spec show_val robot_of backend config default_model_name extras default_period_ns =
     res_bind (robot_of (py_str show_val (dget_or config ''robot'' (PStr DEFAULT_ROBOT)))) (\<lambda>robot.
     res_bind (py_int (dget_or config ''raw_state_dim'' (PInt (rc_raw_state_dim robot)))) (\<lambda>rs.
     res_bind (py_int (dget_or config ''model_state_dim'' (PInt 14))) (\<lambda>sd.
     res_bind (py_int (dget_or config ''raw_action_dim'' (PInt (rc_raw_action_dim robot)))) (\<lambda>ra.
     res_bind (py_int (dget_or config ''model_action_dim'' (PInt 14))) (\<lambda>ad.
     res_bind (py_int (dget_or config ''action_horizon'' (PInt 16))) (\<lambda>hz.
     res_bind (camera_names (dget_or config ''camera_order''
                 (PList [PStr ''head'', PStr ''left_wrist'', PStr ''right_wrist'']))) (\<lambda>cams.
     res_bind (py_int (dget_or config ''control_period_ns'' (PInt default_period_ns))) (\<lambda>per.
       model_spec_post_init
         \<lparr>ms_name = py_str show_val (dget_or config ''model_name'' (PStr default_model_name)), ms_backend = backend,
          ms_raw_state_dim = rs, ms_model_state_dim = sd, ms_raw_action_dim = ra, ms_model_action_dim = ad,
          ms_action_horizon = hz, ms_camera_order = cams, ms_action_representation = ''absolute'',
          ms_control_period_ns = per,
          ms_extras = ddisplay [(PStr ''robot_command_dim'', PInt (command_action_dim robot))] extras\<rparr>))))))))"

section \<open>Arrays from the peer\<close>

text \<open>\<open>reshape(shape)\<close> of an array with \<open>n\<close> elements; one extent may be \<open>-1\<close>.\<close>

definition reshape_dims :: "nat \<Rightarrow> int list \<Rightarrow> nat list res" where
  "reshape_dims n sh =
     (let k = prod_list (map nat (filter (\<lambda>d. d \<noteq> - 1) sh))
      in if list_ex (\<lambda>d. d < - 1) sh \<or> 1 < length (filter (\<lambda>d. d = - 1) sh)
         then Err (ValueError ''cannot reshape array'')
         else if List.member sh (- 1)
         then (if k = 0 \<or> n mod k \<noteq> 0 then Err (ValueError ''cannot reshape array'')
               else Ok (map (\<lambda>d. if d = - 1 then n div k else nat d) sh))
         else if k = n then Ok (map nat sh) else Err (ValueError ''cannot reshape array''))"

text \<open>\<open>np.frombuffer(blob, dtype=np.float32).reshape(shape)\<close>\<close>

definition frombuffer_reshape :: "byte list \<Rightarrow> int list \<Rightarrow> ndarray res" where
  "frombuffer_reshape blob shape =
     (if length blob mod 4 \<noteq> 0 then Err (ValueError ''buffer size must be a multiple of element size'')
      else res_bind (reshape_dims (length blob div 4) shape) (\<lambda>dims.
        Ok \<lparr>nd_dtype = DF32, nd_shape = dims, nd_data = blob\<rparr>))"

text \<open>
  \<open>actions[:h, :d]\<close> on an array of rank two.  An array of a higher rank keeps its
  rank, so that the check of the shape that follows raises.
\<close>

definition crop_actions :: "nat \<Rightarrow> nat \<Rightarrow> ndarray \<Rightarrow> ndarray res" where
  "crop_actions h d v =
     (case nd_shape v of
        [r, c] \<Rightarrow> Ok (nd_of_f32s [min h r, min d c] (concat (map (take d) (take h (chunks r c (nd_f32s v))))))
      | [] \<Rightarrow> Err (IndexError ''too many indices for array'')
      | [_] \<Rightarrow> Err (IndexError ''too many indices for array'')
      | _ \<Rightarrow> Err (ValueError ''model actions must have shape''))"

section \<open>State\<close>

record ('c, 'w) stream_net =
  sn_connect :: "string \<Rightarrow> int \<Rightarrow> pyfloat \<Rightarrow> ('w, 'c) io"
  sn_sendall :: "'c \<Rightarrow> byte list \<Rightarrow> ('w, unit) io"
  sn_incoming :: "'c \<Rightarrow> 'w \<Rightarrow> sock"
  sn_consumed :: "'c \<Rightarrow> sock \<Rightarrow> 'w \<Rightarrow> 'w"
  sn_close :: "'c \<Rightarrow> 'w \<Rightarrow> 'w"

record ('c, 'w) tcp_env =
  te_net :: "('c, 'w) stream_net"
  te_dumps :: "pydict \<Rightarrow> byte list res"
  te_loads :: "byte list \<Rightarrow> pyval res"
  te_jpeg :: "ndarray \<Rightarrow> byte list res"
  te_cast :: "dtype \<Rightarrow> ndarray \<Rightarrow> ndarray res"
  te_show :: "pyval \<Rightarrow> string"

record 'c tcp =
  tb_host :: string
  tb_port :: int
  tb_spec :: model_spec
  tb_timeout :: pyfloat
  tb_persistent :: bool
  tb_sock :: "'c option"
  tb_seq :: int
  tb_vision :: vb_config

definition TCP_MAGIC :: "byte list" where
  "TCP_MAGIC = [0x50, 0x30, 0x35, 0x52]"

definition tcp_init ::
    "(pyval \<Rightarrow> string) \<Rightarrow> (string \<Rightarrow> robot_contract res) \<Rightarrow> pydict \<Rightarrow> 'c tcp res" where
  "tcp_init show_val robot_of config =
     (let host = py_str show_val (dget_or config ''host'' (PStr ''192.168.10.142''));
          persistent = py_bool (dget_or config ''persistent_connection'' (PBool True))
      in res_bind (py_int (dget_or config ''port'' (PInt 8012))) (\<lambda>port.
         res_bind (py_float (dget_or config ''timeout'' (PFloat (Fin 120)))) (\<lambda>timeout.
         res_bind (vb_config_from_mapping (dget_none config ''vision_batching'')) (\<lambda>vision.
         res_bind (pi05_spec show_val robot_of ''pi05-tcp'' config ''Pi05-4090''
                     [(''protocol'', PStr ''pi05-float-tcp''), (''remote_model'', PStr ''pi05''),
                      (''execution_host'', PStr host), (''persistent_connection'', PBool persistent)]
                     100000000) (\<lambda>spec.
           Ok \<lparr>tb_host = host, tb_port = port, tb_spec = spec, tb_timeout = timeout, tb_persistent = persistent,
               tb_sock = None, tb_seq = 0, tb_vision = vision\<rparr>)))))"

text \<open>
  The metadata of a Pi0.5 backend.  Its vision plugin has no encoder, so it never runs
  a batcher and is given by its configuration.
\<close>

definition vision_entry :: "vb_config \<Rightarrow> pyval" where
  "vision_entry c = PDict (map (\<lambda>(k, v). (PStr k, v)) (vp_metadata (\<lparr>vp_config = c, vp_encoder = None, vp_batcher = None\<rparr> :: ndarray vb_plugin)))"

definition tcp_describe :: "'c tcp \<Rightarrow> pydict" where
  "tcp_describe b = dput (spec_metadata (tb_spec b)) ''vision_batching'' (vision_entry (tb_vision b))"

section \<open>Operations\<close>

definition with_world :: "('w, 'a) io \<Rightarrow> ('b \<times> 'w, 'a) io" where
  "with_world m x = (case m (snd x) of (w, r) \<Rightarrow> ((fst x, w), r))"

text \<open>\<open>try: m finally: h\<close>\<close>

definition io_finally :: "('x, 'a) io \<Rightarrow> ('x \<Rightarrow> 'x) \<Rightarrow> ('x, 'a) io" where
  "io_finally m h x = (case m x of (x', r) \<Rightarrow> (h x', r))"

definition tcp_connect :: "('c, 'w) tcp_env \<Rightarrow> ('c tcp \<times> 'w, 'c) io" where
  "tcp_connect env x =
     (case tb_sock (fst x) of
        Some c \<Rightarrow> (x, Ok c)
      | None \<Rightarrow>
          (case sn_connect (te_net env) (tb_host (fst x)) (tb_port (fst x)) (tb_timeout (fst x)) (snd x) of
             (w, Err e) \<Rightarrow> ((fst x, w), Err e)
           | (w, Ok c) \<Rightarrow> (((fst x)\<lparr>tb_sock := Some c\<rparr>, w), Ok c)))"

definition tcp_close_socket :: "('c, 'w) tcp_env \<Rightarrow> 'c tcp \<times> 'w \<Rightarrow> 'c tcp \<times> 'w" where
  "tcp_close_socket env x =
     (case tb_sock (fst x) of
        None \<Rightarrow> x
      | Some c \<Rightarrow> ((fst x)\<lparr>tb_sock := None\<rparr>, sn_close (te_net env) c (snd x)))"

text \<open>\<open>recv_frame(sock, MAGIC)\<close> on the connection.\<close>

definition tcp_recv :: "('c, 'w) tcp_env \<Rightarrow> 'c \<Rightarrow> ('w, pydict \<times> byte list list) io" where
  "tcp_recv env c w =
     (case recv_frame (te_loads env) TCP_MAGIC (sn_incoming (te_net env) c w) of
        Err e \<Rightarrow> (sn_consumed (te_net env) c [] w, Err e)
      | Ok (f, s') \<Rightarrow> (sn_consumed (te_net env) c s' w, Ok f))"

text \<open>The body of the \<open>try\<close>.\<close>

definition tcp_exchange ::
    "('c, 'w) tcp_env \<Rightarrow> 'c \<Rightarrow> pydict \<Rightarrow> byte list list \<Rightarrow> ('c tcp \<times> 'w, pydict \<times> byte list list) io" where
  "tcp_exchange env c metadata blobs =
     io_bind (io_lift (send_frame (te_dumps env) TCP_MAGIC metadata blobs)) (\<lambda>bytes.
     io_bind (with_world (sn_sendall (te_net env) c bytes)) (\<lambda>_. with_world (tcp_recv env c)))"

definition tcp_request ::
    "('c, 'w) tcp_env \<Rightarrow> pydict \<Rightarrow> byte list list \<Rightarrow> ('c tcp \<times> 'w, pydict \<times> byte list list) io" where
  "tcp_request env metadata blobs =
     io_bind (tcp_connect env) (\<lambda>c.
       io_finally
         (io_on_error (tcp_exchange env c metadata blobs) (tcp_close_socket env))
         (\<lambda>x. if tb_persistent (fst x) then x else tcp_close_socket env x))"

definition f32_float :: "f32 \<Rightarrow> pyfloat" where
  "f32_float x =
     (if f32_finite x then Fin (f32_real x) else if f32_nan x then NaN else if bit x 31 then NInf else PInf)"

text \<open>
  \<open>state = np.zeros(raw_state_dim); state[:model_state_dim] = request["state"]\<close>; the
  slice is as long as the smaller of the two dimensions.
\<close>

definition padded_state :: "(dtype \<Rightarrow> ndarray \<Rightarrow> ndarray res) \<Rightarrow> nat \<Rightarrow> nat \<Rightarrow> ndarray \<Rightarrow> f32 list res" where
  "padded_state cast raw model state =
     res_bind (as_dtype cast DF32 state) (\<lambda>v.
       let xs = nd_f32s v; n = min model raw
       in if length xs = n then Ok (xs @ replicate (raw - n) f32_zero)
          else if length xs = 1 then Ok (replicate n (hd xs) @ replicate (raw - n) f32_zero)
          else Err (ValueError ''could not broadcast input array''))"

definition tcp_metadata :: "int \<Rightarrow> f32 list \<Rightarrow> infer_req \<Rightarrow> pydict" where
  "tcp_metadata seq state request =
     [(PStr ''type'', PStr ''infer''), (PStr ''seq'', PInt seq),
      (PStr ''state'', PList (map (\<lambda>x. PFloat (f32_float x)) state)),
      (PStr ''prompt'', PStr (rq_instruction request)), (PStr ''seed'', PInt (rq_control_step request))]"

text \<open>What \<open>infer\<close> makes of the peer's answer.\<close>

definition tcp_result ::
    "('c, 'w) tcp_env \<Rightarrow> model_spec \<Rightarrow> pyfloat \<Rightarrow> pydict \<times> byte list list \<Rightarrow> backend_result res" where
  "tcp_result env spec elapsed answer =
     (case answer of (response, outputs) \<Rightarrow>
        if dget_none response ''type'' = PStr ''error''
        then Err (RuntimeError (py_str (te_show env) (dget_or response ''error'' (PStr ''Pi05 TCP inference failed''))))
        else if length outputs \<noteq> 1 then Err (RuntimeError ''Pi05 TCP response expected one action blob'')
        else res_bind (py_iter (dget_or response ''shape'' (PList [PInt 50, PInt 18]))) (\<lambda>extents.
          res_bind (mapM py_int extents) (\<lambda>shape.
          res_bind (frombuffer_reshape (hd outputs) shape) (\<lambda>v.
          res_bind (crop_actions (nat (ms_action_horizon spec)) (nat (ms_model_action_dim spec)) v) (\<lambda>cut.
          res_bind (validate_actions (te_cast env) spec cut) (\<lambda>actions.
          res_bind (py_float (dget_or response ''elapsed_ms'' (PFloat (Fin 0)))) (\<lambda>remote.
            Ok \<lparr>br_actions = actions, br_representation = ''absolute'',
                br_control_period_ns = ms_control_period_ns spec,
                br_timing = [(''client_infer_ms'', elapsed), (''remote_elapsed_ms'', remote)]\<rparr>)))))))"

definition tcp_infer ::
    "('c, 'w) tcp_env \<Rightarrow> pyfloat \<Rightarrow> infer_req \<Rightarrow> ('c tcp \<times> 'w, backend_result) io" where
  "tcp_infer env elapsed request x =
     (let b = fst x; spec = tb_spec b
      in io_bind (io_lift (validate_request spec request)) (\<lambda>_.
         io_bind (io_lift (padded_state (te_cast env) (nat (ms_raw_state_dim spec)) (nat (ms_model_state_dim spec))
                             (rq_state request))) (\<lambda>state.
         io_bind (io_lift (res_bind (spec_images spec request) (mapM (te_jpeg env)))) (\<lambda>blobs.
         io_bind (\<lambda>y. ((((fst y)\<lparr>tb_seq := tb_seq (fst y) + 1\<rparr>), snd y), Ok (tb_seq (fst y)))) (\<lambda>seq.
         io_bind (tcp_request env (tcp_metadata seq state request) blobs) (\<lambda>answer.
           io_lift (tcp_result env spec elapsed answer)))))) x)"

definition tcp_reset :: "'c tcp \<Rightarrow> 'c tcp" where
  "tcp_reset b = b\<lparr>tb_seq := 0\<rparr>"

section \<open>Lemmas\<close>

lemma tcp_close_socket_sock [simp]: "tb_sock (fst (tcp_close_socket env x)) = None"
  by (simp add: tcp_close_socket_def split: option.splits)

lemma tcp_close_socket_frame [simp]:
  "tb_spec (fst (tcp_close_socket env x)) = tb_spec (fst x)" "tb_seq (fst (tcp_close_socket env x)) = tb_seq (fst x)"
  "tb_persistent (fst (tcp_close_socket env x)) = tb_persistent (fst x)"
  by (simp_all add: tcp_close_socket_def split: option.splits)

lemma tcp_connect_frame:
  assumes "tcp_connect env x = (x', r)"
  shows "fst x' = (fst x)\<lparr>tb_sock := tb_sock (fst x')\<rparr>"
    "(case r of Err e \<Rightarrow> tb_sock (fst x') = None | Ok c \<Rightarrow> tb_sock (fst x') = Some c)"
  using assms by (auto simp: tcp_connect_def split: option.splits prod.splits res.splits)

text \<open>The exchange itself does not touch the backend's own fields.\<close>

lemma tcp_exchange_fst: "fst (fst (tcp_exchange env c metadata blobs x)) = fst x"
  by (auto simp: tcp_exchange_def io_bind_def io_run with_world_def split: prod.splits res.splits)

lemma tcp_request_frame:
  assumes "tcp_request env metadata blobs x = (x', r)"
  shows "fst x' = (fst x)\<lparr>tb_sock := tb_sock (fst x')\<rparr> \<and>
    ((\<exists>e. r = Err e) \<or> \<not> tb_persistent (fst x) \<longrightarrow> tb_sock (fst x') = None)"
proof -
  obtain x1 rc where c: "tcp_connect env x = (x1, rc)" by (cases "tcp_connect env x")
  note cf = tcp_connect_frame [OF c]
  show ?thesis
  proof (cases rc)
    case (Err e)
    with assms c cf show ?thesis by (auto simp: tcp_request_def io_bind_def)
  next
    case (Ok conn)
    obtain x2 r2 where m: "tcp_exchange env conn metadata blobs x1 = (x2, r2)" by (cases "tcp_exchange env conn metadata blobs x1")
    have f: "fst x2 = fst x1" using tcp_exchange_fst [of env conn metadata blobs x1] m by simp
    have "x' = (let y = (case r2 of Err e \<Rightarrow> tcp_close_socket env x2 | Ok _ \<Rightarrow> x2)
        in if tb_persistent (fst y) then y else tcp_close_socket env y)" "r = r2"
      using assms c Ok m by (auto simp: tcp_request_def io_bind_def io_finally_def io_on_error_def Let_def split: res.splits)
    with cf f show ?thesis
      by (cases r2) (auto simp: Let_def tcp_close_socket_def split: option.splits if_splits)
  qed
qed

lemma tcp_result_chunk: "tcp_result env spec elapsed answer = Ok res \<Longrightarrow>
    chunk_ok spec (br_actions res) \<and> br_representation res = ''absolute'' \<and>
    br_control_period_ns res = ms_control_period_ns spec"
  by (auto simp: tcp_result_def split: prod.splits if_splits dest: validate_actions_Ok)

section \<open>Properties\<close>

text \<open>
  C30: The gateway is safe against any peer.  Whatever the network and the peer do,
  \<open>infer\<close> returns a finite chunk of the announced shape or raises; the backend keeps
  its specification and moves its sequence number by at most one; and when an
  exchange fails, or connections are not persistent, no socket is kept, so that a
  late answer is never taken for the answer to a later request.
\<close>

theorem tcp_gateway_safe:
  "case tcp_infer env elapsed request (b, w) of
     ((b', w'), r) \<Rightarrow>
       tb_spec b' = tb_spec b \<and> tb_seq b' \<in> {tb_seq b, tb_seq b + 1} \<and>
       (tb_seq b' = tb_seq b \<or> tb_persistent b \<or> tb_sock b' = None) \<and>
       (case r of
          Ok res \<Rightarrow> chunk_ok (tb_spec b) (br_actions res) \<and> br_representation res = ''absolute'' \<and>
            tb_seq b' = tb_seq b + 1
        | Err e \<Rightarrow> b' = b \<or> tb_sock b' = None \<or>
            (\<exists>answer. tcp_result env (tb_spec b) elapsed answer = Err e))"
proof -
  let ?spec = "tb_spec b"
  consider (early) e where "tcp_infer env elapsed request (b, w) = ((b, w), Err e)"
    | (sent) state blobs where "tcp_infer env elapsed request (b, w) =
        io_bind (tcp_request env (tcp_metadata (tb_seq b) state request) blobs)
          (\<lambda>answer. io_lift (tcp_result env ?spec elapsed answer)) (b\<lparr>tb_seq := tb_seq b + 1\<rparr>, w)"
    by (cases "validate_request ?spec request";
        cases "padded_state (te_cast env) (nat (ms_raw_state_dim ?spec)) (nat (ms_model_state_dim ?spec)) (rq_state request)";
        cases "res_bind (spec_images ?spec request) (mapM (te_jpeg env))")
      (auto simp: tcp_infer_def io_simps io_bind_def)
  then show ?thesis
  proof cases
    case early
    then show ?thesis by simp
  next
    case sent
    let ?req = "tcp_request env (tcp_metadata (tb_seq b) state request) blobs (b\<lparr>tb_seq := tb_seq b + 1\<rparr>, w)"
    obtain b' w' r where r: "?req = ((b', w'), r)" by (metis surj_pair)
    from tcp_request_frame [OF r] have
      f: "b' = b\<lparr>tb_seq := tb_seq b + 1, tb_sock := tb_sock b'\<rparr>" "(\<exists>e. r = Err e) \<or> \<not> tb_persistent b \<longrightarrow> tb_sock b' = None"
      by simp_all
    have eq: "tcp_infer env elapsed request (b, w) =
        ((b', w'), case r of Err e \<Rightarrow> Err e | Ok a \<Rightarrow> tcp_result env ?spec elapsed a)"
      using sent r by (cases r) (simp_all add: io_bind_def io_lift_def)
    have "tb_spec b' = ?spec" "tb_seq b' = tb_seq b + 1" by (subst f(1), simp)+
    with f(2) eq show ?thesis
      by (cases r) (auto split: res.splits dest: tcp_result_chunk)
  qed
qed

section \<open>An honest peer\<close>

text \<open>The peer takes the request and sends the message \<open>m\<close> with the blobs \<open>outputs\<close>, in any segmentation.\<close>

definition tcp_peer ::
    "('c, 'w) tcp_env \<Rightarrow> 'c tcp \<times> 'w \<Rightarrow> pydict \<Rightarrow> byte list list \<Rightarrow> pydict \<Rightarrow> byte list list \<Rightarrow> bool" where
  "tcp_peer env x metadata blobs m outputs =
     (\<exists>x1 c bytes w2 payload rest.
        tcp_connect env x = (x1, Ok c) \<and> send_frame (te_dumps env) TCP_MAGIC metadata blobs = Ok bytes \<and>
        sn_sendall (te_net env) c bytes (snd x1) = (w2, Ok ()) \<and>
        te_dumps env (frame_metadata m outputs) = Ok payload \<and> length payload \<le> max_metadata_bytes \<and>
        [] \<notin> set (sn_incoming (te_net env) c w2) \<and>
        concat (sn_incoming (te_net env) c w2) =
          (TCP_MAGIC @ be32 (length payload) @ payload @ concat outputs) @ rest)"

lemma tcp_request_answered:
  assumes "inverse_codec (te_dumps env) (te_loads env)" and "tcp_peer env x metadata blobs m outputs"
  shows "\<exists>x'. tcp_request env metadata blobs x = (x', Ok (frame_metadata m outputs, outputs))"
proof -
  from assms(2) obtain x1 c bytes w2 payload rest where
    c: "tcp_connect env x = (x1, Ok c)" and b: "send_frame (te_dumps env) TCP_MAGIC metadata blobs = Ok bytes"
    and s: "sn_sendall (te_net env) c bytes (snd x1) = (w2, Ok ())"
    and p: "te_dumps env (frame_metadata m outputs) = Ok payload" "length payload \<le> max_metadata_bytes"
    and i: "[] \<notin> set (sn_incoming (te_net env) c w2)"
      "concat (sn_incoming (te_net env) c w2) = (TCP_MAGIC @ be32 (length payload) @ payload @ concat outputs) @ rest"
    by (auto simp: tcp_peer_def)
  from recv_frame_prefix [OF assms(1) i(1) p i(2)] obtain s' where
    "recv_frame (te_loads env) TCP_MAGIC (sn_incoming (te_net env) c w2) = Ok ((frame_metadata m outputs, outputs), s')" .
  then have "tcp_exchange env c metadata blobs x1 =
      ((fst x1, sn_consumed (te_net env) c s' w2), Ok (frame_metadata m outputs, outputs))"
    using b s by (simp add: tcp_exchange_def io_simps io_bind_def with_world_def tcp_recv_def)
  with c show ?thesis by (simp add: tcp_request_def io_bind_def io_finally_def io_on_error_def)
qed

lemma frombuffer_rows:
  "length xs = r * c \<Longrightarrow> frombuffer_reshape (bytes_of_f32s xs) [int r, int c] = Ok (nd_of_f32s [r, c] xs)"
  by (simp add: frombuffer_reshape_def reshape_dims_def nd_of_f32s_def)

lemma length_concat_take:
  "(\<And>r. r \<in> set rows \<Longrightarrow> length r = c) \<Longrightarrow> d \<le> c \<Longrightarrow> length (concat (map (take d) rows)) = length rows * d"
  by (induction rows) auto

lemma crop_rows:
  assumes "\<And>r. r \<in> set rows \<Longrightarrow> length r = c" and "h \<le> length rows" and "d \<le> c"
  shows "crop_actions h d (nd_of_f32s [length rows, c] (concat rows)) =
    Ok (nd_of_f32s [h, d] (concat (map (take d) (take h rows))))"
  using assms chunks_concat [of rows c] by (simp add: crop_actions_def min_def)

text \<open>
  C29: The gateway hands on exactly what the model computed.  When the peer answers a
  request with an array of at least the announced size, \<open>infer\<close> returns the first
  \<open>action_horizon\<close> rows and in each the first \<open>model_action_dim\<close> values, to the bit,
  however the network cuts the answer into segments.
\<close>

theorem tcp_infer_exact:
  assumes codec: "inverse_codec (te_dumps env) (te_loads env)" and wf: "model_spec_wf (tb_spec b)"
    and valid: "validate_request (tb_spec b) request = Ok ()"
    and state: "padded_state (te_cast env) (nat (ms_raw_state_dim (tb_spec b)))
        (nat (ms_model_state_dim (tb_spec b))) (rq_state request) = Ok state"
    and images: "res_bind (spec_images (tb_spec b) request) (mapM (te_jpeg env)) = Ok blobs"
    and peer: "tcp_peer env (b\<lparr>tb_seq := tb_seq b + 1\<rparr>, w) (tcp_metadata (tb_seq b) state request) blobs
        [(PStr ''type'', PStr ''actions''), (PStr ''shape'', PList [PInt (int (length rows)), PInt (int c)])]
        [bytes_of_f32s (concat rows)]"
    and rows: "\<And>r. r \<in> set rows \<Longrightarrow> length r = c \<and> list_all f32_finite r"
    and enough: "nat (ms_action_horizon (tb_spec b)) \<le> length rows" "nat (ms_model_action_dim (tb_spec b)) \<le> c"
  shows "\<exists>x' res. tcp_infer env elapsed request (b, w) = (x', Ok res) \<and>
    br_actions res = nd_of_f32s [nat (ms_action_horizon (tb_spec b)), nat (ms_model_action_dim (tb_spec b))]
      (concat (map (take (nat (ms_model_action_dim (tb_spec b)))) (take (nat (ms_action_horizon (tb_spec b))) rows)))"
proof -
  let ?spec = "tb_spec b" and ?h = "nat (ms_action_horizon (tb_spec b))" and ?d = "nat (ms_model_action_dim (tb_spec b))"
  let ?m = "[(PStr ''type'', PStr ''actions''), (PStr ''shape'', PList [PInt (int (length rows)), PInt (int c)])]"
  let ?cut = "nd_of_f32s [?h, ?d] (concat (map (take ?d) (take ?h rows)))"
  from tcp_request_answered [OF codec peer] obtain x' where
    x': "tcp_request env (tcp_metadata (tb_seq b) state request) blobs (b\<lparr>tb_seq := tb_seq b + 1\<rparr>, w) =
      (x', Ok (frame_metadata ?m [bytes_of_f32s (concat rows)], [bytes_of_f32s (concat rows)]))" by blast
  have len: "length (concat rows) = length rows * c"
    using rows by (induction rows) auto
  have "list_all f32_finite (concat (map (take ?d) (take ?h rows)))"
    using rows by (auto simp: list_all_iff dest!: in_set_takeD) (meson in_set_takeD)?
  then have "chunk_ok ?spec ?cut" using wf by (simp add: chunk_ok_def nd_isfinite_def model_spec_wf_def)
  then have v: "validate_actions (te_cast env) ?spec ?cut = Ok ?cut" by (intro validate_actions_same) simp_all
  have "tcp_result env ?spec elapsed (frame_metadata ?m [bytes_of_f32s (concat rows)], [bytes_of_f32s (concat rows)]) =
      Ok \<lparr>br_actions = ?cut, br_representation = ''absolute'', br_control_period_ns = ms_control_period_ns ?spec,
        br_timing = [(''client_infer_ms'', elapsed), (''remote_elapsed_ms'', Fin 0)]\<rparr>"
    using frombuffer_rows [OF len] crop_rows [of rows c ?h ?d] rows enough v
    by (simp add: tcp_result_def frame_metadata_def dget_or_def dget_none_def)
  moreover define blobs_of where "blobs_of = res_bind (spec_images ?spec request) (mapM (te_jpeg env))"
  ultimately show ?thesis
    using x' valid state images [folded blobs_of_def]
    by (simp add: tcp_infer_def io_simps io_bind_def Let_def blobs_of_def [symmetric])
qed

text \<open>A peer that answers every request with a two by two array, sent in four segments.\<close>

definition gw_spec :: model_spec where
  "gw_spec =
     \<lparr>ms_name = ''tiny'', ms_backend = ''pi05-tcp'', ms_raw_state_dim = 2, ms_model_state_dim = 1,
      ms_raw_action_dim = 2, ms_model_action_dim = 1, ms_action_horizon = 1, ms_camera_order = [''head''],
      ms_action_representation = ''absolute'', ms_control_period_ns = 1, ms_extras = []\<rparr>"

definition gw_gateway :: "unit tcp" where
  "gw_gateway = \<lparr>tb_host = ''peer'', tb_port = 1, tb_spec = gw_spec, tb_timeout = Fin 1, tb_persistent = True,
     tb_sock = None, tb_seq = 7,
     tb_vision = \<lparr>vbc_enabled = False, vbc_max_batch_size = 1, vbc_batch_wait_ms = Fin 0, vbc_max_queue_size = 1\<rparr>\<rparr>"

definition gw_request :: infer_req where
  "gw_request = \<lparr>rq_request_id = 1, rq_control_step = 0, rq_timestamp_ns = 0, rq_timeout_ms = Fin 1,
     rq_instruction = ''go'', rq_images = [(''head'', nd_of_f32s [] [])], rq_image_timestamps = [],
     rq_state = nd_of_f32s [1] [0x3F800000]\<rparr>"

definition gw_rows :: "f32 list list" where
  "gw_rows = [[0x3F800000, 0], [0, 0x3F800000]]"

definition gw_answer :: pydict where
  "gw_answer = frame_metadata [(PStr ''type'', PStr ''actions''), (PStr ''shape'', PList [PInt 2, PInt 2])]
     [bytes_of_f32s (concat gw_rows)]"

definition gw_question :: pydict where
  "gw_question = frame_metadata (tcp_metadata 7 [0x3F800000, f32_zero] gw_request) [[5]]"

definition gw_dumps :: "pydict \<Rightarrow> byte list res" where
  "gw_dumps d = (if d = gw_answer then Ok [42] else if d = gw_question then Ok [43] else Err (TypeError ''unknown''))"

definition gw_loads :: "byte list \<Rightarrow> pyval res" where
  "gw_loads p = (if p = [42] then Ok (PDict gw_answer) else if p = [43] then Ok (PDict gw_question)
     else Err (ValueError ''bad JSON''))"

definition gw_env :: "(unit, sock) tcp_env" where
  "gw_env = \<lparr>te_net =
       \<lparr>sn_connect = (\<lambda>_ _ _ w. (w, Ok ())),
        sn_sendall = (\<lambda>_ _ _. ([[0x50, 0x30], [0x35, 0x52, 0, 0], [0, 1, 42], bytes_of_f32s (concat gw_rows)], Ok ())),
        sn_incoming = (\<lambda>_ w. w), sn_consumed = (\<lambda>_ s _. s), sn_close = (\<lambda>_ w. w)\<rparr>,
     te_dumps = gw_dumps, te_loads = gw_loads, te_jpeg = (\<lambda>_. Ok [5]),
     te_cast = (\<lambda>_ _. Err (TypeError ''no cast'')), te_show = (\<lambda>_. [])\<rparr>"

lemma gw_codec: "inverse_codec gw_dumps gw_loads"
  by (auto simp: inverse_codec_def gw_dumps_def gw_loads_def split: if_splits)

lemma gw_peer:
  "tcp_peer gw_env (gw_gateway\<lparr>tb_seq := 8\<rparr>, []) (tcp_metadata 7 [0x3F800000, f32_zero] gw_request) [[5]]
     [(PStr ''type'', PStr ''actions''), (PStr ''shape'', PList [PInt (int (length gw_rows)), PInt (int 2)])]
     [bytes_of_f32s (concat gw_rows)]"
proof -
  have ne: "gw_question \<noteq> gw_answer"
    by (simp add: gw_question_def gw_answer_def frame_metadata_def tcp_metadata_def)
  have "send_frame gw_dumps TCP_MAGIC (tcp_metadata 7 [0x3F800000, f32_zero] gw_request) [[5]] =
      Ok (TCP_MAGIC @ be32 1 @ [43, 5])"
    using ne by (simp add: send_frame_def gw_dumps_def gw_question_def [symmetric])
  moreover have "gw_dumps (frame_metadata [(PStr ''type'', PStr ''actions''),
      (PStr ''shape'', PList [PInt (int (length gw_rows)), PInt (int 2)])] [bytes_of_f32s (concat gw_rows)]) = Ok [42]"
    by (simp add: gw_dumps_def gw_answer_def gw_rows_def)
  moreover have "bytes_of_f32s (concat gw_rows) \<noteq> []"
    by (simp add: gw_rows_def bytes_of_f32s_def f32_bytes_def)
  ultimately show ?thesis
    by (simp add: tcp_peer_def tcp_connect_def gw_env_def gw_gateway_def max_metadata_bytes_def TCP_MAGIC_def be32_def)
qed

theorem tcp_infer_exact_witness:
  "\<exists>x' res. tcp_infer gw_env (Fin 1) gw_request (gw_gateway, []) = (x', Ok res) \<and>
     br_actions res = nd_of_f32s [1, 1] [0x3F800000]"
proof -
  have spec: "tb_spec gw_gateway = gw_spec" "tb_seq gw_gateway = 7" by (simp_all add: gw_gateway_def)
  have "model_spec_wf gw_spec" by (simp add: model_spec_wf_def gw_spec_def action_representations_def)
  moreover have "validate_request gw_spec gw_request = Ok ()"
    by (simp add: validate_request_def gw_spec_def gw_request_def missing_cameras_def)
  moreover have "padded_state (te_cast gw_env) (nat (ms_raw_state_dim gw_spec)) (nat (ms_model_state_dim gw_spec))
      (rq_state gw_request) = Ok [0x3F800000, f32_zero]"
    by (simp add: padded_state_def gw_spec_def gw_request_def as_dtype_def)
  moreover have "res_bind (spec_images gw_spec gw_request) (mapM (te_jpeg gw_env)) = Ok [[5]]"
    by (simp add: spec_images_def gw_spec_def gw_request_def gw_env_def)
  moreover have "inverse_codec (te_dumps gw_env) (te_loads gw_env)" using gw_codec by (simp add: gw_env_def)
  moreover have "\<And>r. r \<in> set gw_rows \<Longrightarrow> length r = 2 \<and> list_all f32_finite r"
    by (auto simp: gw_rows_def f32_finite_def f32_exponent_def)
  ultimately show ?thesis
    using tcp_infer_exact [of gw_env gw_gateway gw_request "[0x3F800000, f32_zero]" "[[5]]" "[]" gw_rows 2 "Fin 1"]
      gw_peer spec
    by (simp add: gw_spec_def) (simp add: gw_rows_def)?
qed

end
