(* ===== verification/Pi05_Remote.thy ===== *)
theory Pi05_Remote
  imports Pi05_Tcp
begin

text \<open>
  The client of an OpenPI server (\<open>models/pi05/remote.py\<close>): msgpack messages with
  embedded arrays over a WebSocket.  The WebSocket library and plain msgpack are
  parameters; the hooks that put arrays into messages and take them out are modelled,
  as is what an exception leaves behind in the backend.  Where bytes are malformed in
  several places, the model reports the codec's error before a hook's.
\<close>

section \<open>Values with arrays\<close>

datatype npval =
    NVal pyval
  | NArr ndarray
  | NGen dtype pyval
  | NList "npval list"
  | NDict "(pyval \<times> npval) list"

text \<open>
  What NumPy knows of element types and of values in odd places: the kind and the name
  of a type, the type of a name, the scalar of a value, the truth of an array, the
  buffer of a value that is not a byte string, and indices that are not integers.
\<close>

record np_env =
  np_kind :: "dtype \<Rightarrow> char"
  np_str :: "dtype \<Rightarrow> string"
  np_dtype :: "npval \<Rightarrow> dtype res"
  np_scalar :: "dtype \<Rightarrow> npval \<Rightarrow> pyval res"
  np_truth :: "ndarray \<Rightarrow> bool res"
  np_buffer :: "npval \<Rightarrow> byte list res"
  np_tuple :: "npval \<Rightarrow> npval list res"
  np_other_index :: "npval \<Rightarrow> int res"

definition py_bytes :: "string \<Rightarrow> pyval" where
  "py_bytes s = PBytes (map of_char s)"

section \<open>Packing\<close>

definition pack_array_map :: "np_env \<Rightarrow> ndarray \<Rightarrow> pyval res" where
  "pack_array_map ne a =
     (if List.member [CHR ''V'', CHR ''O'', CHR ''c''] (np_kind ne (nd_dtype a))
      then Err (TypeError ''unsupported Pi05 dtype'')
      else Ok (PDict
        [(py_bytes ''__ndarray__'', PBool True), (py_bytes ''data'', PBytes (nd_data (ascontiguous a))),
         (py_bytes ''dtype'', PStr (np_str ne (nd_dtype a))),
         (py_bytes ''shape'', PList (map (\<lambda>n. PInt (int n)) (nd_shape a)))]))"

definition pack_generic_map :: "np_env \<Rightarrow> dtype \<Rightarrow> pyval \<Rightarrow> pyval" where
  "pack_generic_map ne d v =
     PDict [(py_bytes ''__npgeneric__'', PBool True), (py_bytes ''data'', v), (py_bytes ''dtype'', PStr (np_str ne d))]"

lemma mapM_fundef_cong [fundef_cong]:
  "xs = ys \<Longrightarrow> (\<And>x. x \<in> set ys \<Longrightarrow> f x = g x) \<Longrightarrow> mapM f xs = mapM g ys"
  by (rule mapM_cong)

lemma res_bind_fundef_cong [fundef_cong]:
  "r = s \<Longrightarrow> (\<And>x. s = Ok x \<Longrightarrow> f x = g x) \<Longrightarrow> res_bind r f = res_bind s g"
  by (cases s) simp_all

text \<open>msgpack with \<open>_pack_default\<close>: the hook replaces arrays and scalars by maps.\<close>

fun np_pack :: "np_env \<Rightarrow> npval \<Rightarrow> pyval res" where
  "np_pack ne (NVal v) = Ok v"
| "np_pack ne (NArr a) = pack_array_map ne a"
| "np_pack ne (NGen d v) = Ok (pack_generic_map ne d v)"
| "np_pack ne (NList xs) = res_bind (mapM (np_pack ne) xs) (\<lambda>ys. Ok (PList ys))"
| "np_pack ne (NDict kvs) = res_bind (mapM (\<lambda>(k, v). res_bind (np_pack ne v) (\<lambda>w. Ok (k, w))) kvs) (\<lambda>d. Ok (PDict d))"

section \<open>Unpacking\<close>

fun np_bool :: "np_env \<Rightarrow> npval \<Rightarrow> bool res" where
  "np_bool ne (NVal v) = Ok (py_bool v)"
| "np_bool ne (NGen d v) = Ok (py_bool v)"
| "np_bool ne (NList xs) = Ok (xs \<noteq> [])"
| "np_bool ne (NDict d) = Ok (d \<noteq> [])"
| "np_bool ne (NArr a) = np_truth ne a"

text \<open>\<open>value.get(key)\<close> as a condition, and \<open>value[key]\<close>.\<close>

definition np_flag :: "np_env \<Rightarrow> (pyval \<times> npval) list \<Rightarrow> string \<Rightarrow> bool res" where
  "np_flag ne d k = (case map_of d (py_bytes k) of None \<Rightarrow> Ok False | Some v \<Rightarrow> np_bool ne v)"

definition np_item :: "(pyval \<times> npval) list \<Rightarrow> string \<Rightarrow> npval res" where
  "np_item d k = (case map_of d (py_bytes k) of None \<Rightarrow> Err (KeyError k) | Some v \<Rightarrow> Ok v)"

fun np_bytes :: "np_env \<Rightarrow> npval \<Rightarrow> byte list res" where
  "np_bytes ne (NVal (PBytes b)) = Ok b"
| "np_bytes ne v = np_buffer ne v"

fun shape_index :: "np_env \<Rightarrow> npval \<Rightarrow> int res" where
  "shape_index ne (NVal (PInt i)) = Ok i"
| "shape_index ne (NVal (PBool b)) = Ok (if b then 1 else 0)"
| "shape_index ne v = np_other_index ne v"

fun np_extents :: "np_env \<Rightarrow> npval \<Rightarrow> npval list res" where
  "np_extents ne (NList xs) = Ok xs"
| "np_extents ne v = np_tuple ne v"

text \<open>\<open>np.ndarray(buffer=data, dtype=d, shape=shape)\<close>: a view of the first bytes.\<close>

definition np_ndarray :: "np_env \<Rightarrow> npval \<Rightarrow> dtype \<Rightarrow> npval list \<Rightarrow> npval res" where
  "np_ndarray ne data d shape =
     res_bind (mapM (shape_index ne) shape) (\<lambda>dims.
     res_bind (np_bytes ne data) (\<lambda>buffer.
       if list_ex (\<lambda>n. n < 0) dims then Err (ValueError ''negative dimensions are not allowed'')
       else if np_kind ne d = CHR ''O'' then Err (ValueError ''cannot construct an object array from a buffer'')
       else let need = prod_list (map nat dims) * itemsize d
            in if length buffer < need then Err (TypeError ''buffer is too small for requested array'')
               else Ok (NArr \<lparr>nd_dtype = d, nd_shape = map nat dims, nd_data = take need buffer\<rparr>)))"

definition unpack_object :: "np_env \<Rightarrow> (pyval \<times> npval) list \<Rightarrow> npval res" where
  "unpack_object ne value =
     res_bind (np_flag ne value ''__ndarray__'') (\<lambda>is_array.
       if is_array
       then res_bind (np_item value ''data'') (\<lambda>data.
            res_bind (res_bind (np_item value ''dtype'') (np_dtype ne)) (\<lambda>d.
            res_bind (res_bind (np_item value ''shape'') (np_extents ne)) (\<lambda>shape.
              np_ndarray ne data d shape)))
       else res_bind (np_flag ne value ''__npgeneric__'') (\<lambda>is_generic.
            if is_generic
            then res_bind (res_bind (np_item value ''dtype'') (np_dtype ne)) (\<lambda>d.
                 res_bind (np_item value ''data'') (\<lambda>data.
                 res_bind (np_scalar ne d data) (\<lambda>v. Ok (NGen d v))))
            else Ok (NDict value)))"

text \<open>msgpack with \<open>object_hook=_unpack_object\<close>: the hook sees every map, the inner ones first.\<close>

fun np_unpack :: "np_env \<Rightarrow> pyval \<Rightarrow> npval res" where
  "np_unpack ne (PList xs) = res_bind (mapM (np_unpack ne) xs) (\<lambda>ys. Ok (NList ys))"
| "np_unpack ne (PDict d) =
     res_bind (mapM (\<lambda>(k, v). res_bind (np_unpack ne v) (\<lambda>w. Ok (k, w))) d) (unpack_object ne)"
| "np_unpack ne v = Ok (NVal v)"

section \<open>State\<close>

datatype wire = WText string | WBytes "byte list"

record ('c, 'w) ws =
  ws_connect :: "string \<Rightarrow> string option \<Rightarrow> pyfloat \<Rightarrow> pyfloat option \<Rightarrow> pyfloat option \<Rightarrow> ('w, 'c) io"
  ws_send :: "'c \<Rightarrow> byte list \<Rightarrow> ('w, unit) io"
  ws_recv :: "'c \<Rightarrow> pyfloat \<Rightarrow> ('w, wire) io"
  ws_close :: "'c \<Rightarrow> 'w \<Rightarrow> 'w"

record ('c, 'w) remote_env =
  re_net :: "('c, 'w) ws"
  re_packb :: "pyval \<Rightarrow> byte list res"
  re_unpackb :: "byte list \<Rightarrow> pyval res"
  re_np :: np_env
  re_cast :: "dtype \<Rightarrow> ndarray \<Rightarrow> ndarray res"
  re_images :: image_ops
  re_asarray :: "npval \<Rightarrow> ndarray res"
  re_float :: "ndarray \<Rightarrow> pyfloat res"
  re_show :: "pyval \<Rightarrow> string"

record 'c remote =
  rb_host :: string
  rb_port :: int
  rb_api_key :: pyval
  rb_open_timeout :: pyfloat
  rb_request_timeout :: pyfloat
  rb_ping_interval :: pyval
  rb_ping_timeout :: pyval
  rb_connection :: "'c option"
  rb_metadata :: "(pyval \<times> npval) list"
  rb_vision :: vb_config
  rb_spec :: model_spec

definition remote_init ::
    "(pyval \<Rightarrow> string) \<Rightarrow> (string \<Rightarrow> robot_contract res) \<Rightarrow> pydict \<Rightarrow> 'c remote res" where
  "remote_init show_val robot_of config =
     res_bind (py_int (dget_or config ''port'' (PInt 8000))) (\<lambda>port.
     res_bind (py_float (dget_or config ''open_timeout'' (PFloat (Fin 10)))) (\<lambda>open_timeout.
     res_bind (py_float (dget_or config ''request_timeout'' (PFloat (Fin 300)))) (\<lambda>request_timeout.
     res_bind (vb_config_from_mapping (dget_none config ''vision_batching'')) (\<lambda>vision.
     res_bind (pi05_spec show_val robot_of ''pi05-remote'' config ''Pi05''
                 [(''pi05_protocol'', PStr ''openpi-websocket'')] 100000000) (\<lambda>spec.
       Ok \<lparr>rb_host = py_str show_val (dget_or config ''host'' (PStr ''127.0.0.1'')), rb_port = port,
           rb_api_key = dget_none config ''api_key'', rb_open_timeout = open_timeout,
           rb_request_timeout = request_timeout, rb_ping_interval = dget_none config ''ping_interval'',
           rb_ping_timeout = dget_none config ''ping_timeout'', rb_connection = None, rb_metadata = [],
           rb_vision = vision, rb_spec = spec\<rparr>)))))"

text \<open>\<open>{**self.spec.metadata(), **self._metadata}\<close>, then the plugin's entry.\<close>

fun ndput :: "(pyval \<times> npval) list \<Rightarrow> pyval \<Rightarrow> npval \<Rightarrow> (pyval \<times> npval) list" where
  "ndput [] k v = [(k, v)]"
| "ndput ((k', v') # d) k v = (if k' = k then (k', v) # d else (k', v') # ndput d k v)"

definition plain_map :: "pydict \<Rightarrow> (pyval \<times> npval) list" where
  "plain_map d = map (\<lambda>(k, v). (k, NVal v)) d"

definition remote_metadata :: "'c remote \<Rightarrow> (pyval \<times> npval) list" where
  "remote_metadata b =
     ndput (foldl (\<lambda>d (k, v). ndput d k v) (plain_map (spec_metadata (rb_spec b))) (rb_metadata b)) (PStr ''vision_batching'')
       (NVal (vision_entry (rb_vision b)))"

section \<open>Operations\<close>

definition remote_pack :: "('c, 'w) remote_env \<Rightarrow> npval \<Rightarrow> byte list res" where
  "remote_pack env v = res_bind (np_pack (re_np env) v) (re_packb env)"

definition remote_unpack :: "('c, 'w) remote_env \<Rightarrow> wire \<Rightarrow> npval res" where
  "remote_unpack env m =
     (case m of
        WText _ \<Rightarrow> Err (TypeError ''a bytes-like object is required'')
      | WBytes raw \<Rightarrow> res_bind (re_unpackb env raw) (np_unpack (re_np env)))"

definition remote_close :: "('c, 'w) remote_env \<Rightarrow> 'c remote \<times> 'w \<Rightarrow> 'c remote \<times> 'w" where
  "remote_close env x =
     (case rb_connection (fst x) of
        None \<Rightarrow> x
      | Some c \<Rightarrow> ((fst x)\<lparr>rb_connection := None\<rparr>, ws_close (re_net env) c (snd x)))"

definition api_header :: "(pyval \<Rightarrow> string) \<Rightarrow> pyval \<Rightarrow> string option" where
  "api_header show_val key = (if py_bool key then Some (''Api-Key '' @ py_str show_val key) else None)"

definition optional_float :: "pyval \<Rightarrow> pyfloat option res" where
  "optional_float v = (if v = PNone then Ok None else res_bind (py_float v) (\<lambda>f. Ok (Some f)))"

text \<open>The connection is stored before the server's first message has been read.\<close>

definition remote_open :: "('c, 'w) remote_env \<Rightarrow> ('c remote \<times> 'w, 'c) io" where
  "remote_open env x =
     (let b = fst x
      in io_bind (io_lift (optional_float (rb_ping_interval b))) (\<lambda>interval.
         io_bind (io_lift (optional_float (rb_ping_timeout b))) (\<lambda>timeout y.
           case ws_connect (re_net env) (''ws://'' @ rb_host b @ '':'' @ re_show env (PInt (rb_port b)))
                  (api_header (re_show env) (rb_api_key b)) (rb_open_timeout b) interval timeout (snd y) of
             (w, Err e) \<Rightarrow> ((fst y, w), Err e)
           | (w, Ok c) \<Rightarrow> (((fst y)\<lparr>rb_connection := Some c\<rparr>, w), Ok c))) x)"

definition remote_hello :: "('c, 'w) remote_env \<Rightarrow> wire \<Rightarrow> ('c remote \<times> 'w, unit) io" where
  "remote_hello env m x =
     (case remote_unpack env m of
        Err e \<Rightarrow> (x, Err e)
      | Ok (NDict hello) \<Rightarrow> (((fst x)\<lparr>rb_metadata := hello\<rparr>, snd x), Ok ())
      | Ok _ \<Rightarrow> (x, Err (RuntimeError ''Pi05 server hello must be a map'')))"

definition remote_ensure_connected :: "('c, 'w) remote_env \<Rightarrow> ('c remote \<times> 'w, unit) io" where
  "remote_ensure_connected env x =
     (if rb_connection (fst x) \<noteq> None then (x, Ok ())
      else io_bind (remote_open env) (\<lambda>c.
           io_bind (with_world (ws_recv (re_net env) c (rb_open_timeout (fst x)))) (remote_hello env)) x)"

text \<open>The body of the \<open>try\<close>.\<close>

definition remote_exchange :: "('c, 'w) remote_env \<Rightarrow> npval \<Rightarrow> ('c remote \<times> 'w, wire) io" where
  "remote_exchange env observation x =
     (case rb_connection (fst x) of
        None \<Rightarrow> (x, Err (AttributeError ''no connection''))
      | Some c \<Rightarrow>
          io_bind (io_lift (remote_pack env observation)) (\<lambda>payload.
          io_bind (with_world (ws_send (re_net env) c payload)) (\<lambda>_.
            with_world (ws_recv (re_net env) c (rb_request_timeout (fst x))))) x)"

definition as_response :: "('c, 'w) remote_env \<Rightarrow> wire \<Rightarrow> (pyval \<times> npval) list res" where
  "as_response env m =
     (case m of
        WText t \<Rightarrow> Err (RuntimeError (''Pi05 server error: '' @ t))
      | WBytes _ \<Rightarrow>
          res_bind (remote_unpack env m) (\<lambda>v.
            case v of NDict d \<Rightarrow> Ok d | _ \<Rightarrow> Err (RuntimeError ''Pi05 response must be a map'')))"

definition remote_request ::
    "('c, 'w) remote_env \<Rightarrow> npval \<Rightarrow> ('c remote \<times> 'w, (pyval \<times> npval) list) io" where
  "remote_request env observation =
     io_bind (remote_ensure_connected env) (\<lambda>_.
     io_bind (io_on_error (remote_exchange env observation) (remote_close env)) (\<lambda>response.
       io_lift (as_response env response)))"

definition request_camera :: "infer_req \<Rightarrow> string \<Rightarrow> ndarray res" where
  "request_camera request name =
     (case map_of (rq_images request) name of None \<Rightarrow> Err (KeyError name) | Some a \<Rightarrow> Ok a)"

definition remote_observation :: "('c, 'w) remote_env \<Rightarrow> infer_req \<Rightarrow> npval res" where
  "remote_observation env request =
     res_bind (as_dtype (re_cast env) DF32 (rq_state request)) (\<lambda>state.
     res_bind (res_bind (request_camera request ''head'') (as_chw_uint8 (re_images env))) (\<lambda>high.
     res_bind (res_bind (request_camera request ''left_wrist'') (as_chw_uint8 (re_images env))) (\<lambda>left.
     res_bind (res_bind (request_camera request ''right_wrist'') (as_chw_uint8 (re_images env))) (\<lambda>right.
       Ok (NDict [(PStr ''state'', NArr state),
                  (PStr ''images'', NDict [(PStr ''cam_high'', NArr high), (PStr ''cam_left_wrist'', NArr left),
                                           (PStr ''cam_right_wrist'', NArr right)]),
                  (PStr ''prompt'', NVal (PStr (rq_instruction request)))])))))"

text \<open>A leading axis of length one is dropped, and a command of 16 columns cut to 14.\<close>

definition drop_batch_axis :: "ndarray \<Rightarrow> ndarray" where
  "drop_batch_axis a =
     (if nd_ndim a = 3 \<and> hd (nd_shape a) = 1 then a\<lparr>nd_shape := tl (nd_shape a)\<rparr> else a)"

definition truncate_command :: "model_spec \<Rightarrow> ndarray \<Rightarrow> ndarray res" where
  "truncate_command spec a =
     (if nd_ndim a = 2 \<and> nd_shape a ! 1 = 16 \<and> ms_model_action_dim spec = 14
      then crop_actions (hd (nd_shape a)) 14 a else Ok a)"

fun np_float :: "('c, 'w) remote_env \<Rightarrow> npval \<Rightarrow> pyfloat res" where
  "np_float env (NVal v) = py_float v"
| "np_float env (NGen d v) = py_float v"
| "np_float env (NArr a) = re_float env a"
| "np_float env _ = Err (TypeError ''float() argument must be a string or a real number'')"

definition remote_timing ::
    "('c, 'w) remote_env \<Rightarrow> pyfloat \<Rightarrow> (pyval \<times> npval) list \<Rightarrow> (string \<times> pyfloat) list res" where
  "remote_timing env elapsed response =
     (case map_of response (PStr ''server_timing'') of
        Some (NDict t) \<Rightarrow>
          res_bind (mapM (\<lambda>(k, v). res_bind (np_float env v) (\<lambda>f. Ok (py_str (re_show env) k, f))) t) (\<lambda>kvs.
            Ok (foldl (\<lambda>d (k, f). timing_put k f d) [(''client_infer_ms'', elapsed)] kvs))
      | _ \<Rightarrow> Ok [(''client_infer_ms'', elapsed)])"

definition response_array :: "('c, 'w) remote_env \<Rightarrow> (pyval \<times> npval) list \<Rightarrow> ndarray res" where
  "response_array env response =
     (case map_of response (PStr ''actions'') of
        Some (NArr a) \<Rightarrow> as_dtype (re_cast env) DF32 a
      | Some v \<Rightarrow> re_asarray env v
      | None \<Rightarrow> re_asarray env (NVal PNone))"

definition remote_result ::
    "('c, 'w) remote_env \<Rightarrow> model_spec \<Rightarrow> pyfloat \<Rightarrow> (pyval \<times> npval) list \<Rightarrow> backend_result res" where
  "remote_result env spec elapsed response =
     res_bind (response_array env response) (\<lambda>a.
     res_bind (truncate_command spec (drop_batch_axis a)) (\<lambda>cut.
     res_bind (validate_actions (re_cast env) spec cut) (\<lambda>actions.
     res_bind (remote_timing env elapsed response) (\<lambda>timing.
       Ok \<lparr>br_actions = actions, br_representation = ms_action_representation spec,
           br_control_period_ns = ms_control_period_ns spec, br_timing = timing\<rparr>))))"

definition remote_infer ::
    "('c, 'w) remote_env \<Rightarrow> pyfloat \<Rightarrow> infer_req \<Rightarrow> ('c remote \<times> 'w, backend_result) io" where
  "remote_infer env elapsed request x =
     (let spec = rb_spec (fst x)
      in io_bind (io_lift (validate_request spec request)) (\<lambda>_.
         io_bind (io_lift (remote_observation env request)) (\<lambda>observation.
         io_bind (remote_request env observation) (\<lambda>response.
           io_lift (remote_result env spec elapsed response)))) x)"

end
