(* ===== verification/Pi05_Remote_Props.thy ===== *)
theory Pi05_Remote_Props
  imports Pi05_Remote
begin

text \<open>
  The OpenPI client: messages with arrays survive the wire, a session with a prompt
  server is exact, and what a late greeting and the cut of a 16-column command do.
\<close>

section \<open>Arrays on the wire\<close>

fun scalar :: "pyval \<Rightarrow> bool" where
  "scalar (PList _) = False"
| "scalar (PDict _) = False"
| "scalar _ = True"

definition plain_kind :: "np_env \<Rightarrow> dtype \<Rightarrow> bool" where
  "plain_kind ne d = (np_kind ne d \<notin> {CHR ''V'', CHR ''O'', CHR ''c''})"

text \<open>\<open>np.dtype(d.str)\<close> is \<open>d\<close>, for types that are neither structured, nor objects, nor complex.\<close>

definition np_documented :: "np_env \<Rightarrow> bool" where
  "np_documented ne = (\<forall>d. plain_kind ne d \<longrightarrow> np_dtype ne (NVal (PStr (np_str ne d))) = Ok d)"

text \<open>Values that may be sent: arrays of plain element types, and maps without the hook's own keys.\<close>

fun portable :: "np_env \<Rightarrow> npval \<Rightarrow> bool" where
  "portable ne (NVal v) = scalar v"
| "portable ne (NArr a) = (nd_wf a \<and> plain_kind ne (nd_dtype a))"
| "portable ne (NGen d v) = (scalar v \<and> plain_kind ne d \<and> np_scalar ne d (NVal v) = Ok v)"
| "portable ne (NList xs) = list_all (portable ne) xs"
| "portable ne (NDict kvs) =
     (list_all (\<lambda>(k, v). portable ne v) kvs \<and>
      py_bytes ''__ndarray__'' \<notin> set (map fst kvs) \<and> py_bytes ''__npgeneric__'' \<notin> set (map fst kvs))"

lemma np_unpack_scalar: "scalar v \<Longrightarrow> np_unpack ne v = Ok (NVal v)"
  by (cases v) simp_all

lemma py_bytes_inj [simp]: "(py_bytes s = py_bytes t) = (map of_char s = (map of_char t :: byte list))"
  by (simp add: py_bytes_def)

lemma mapM_index: "mapM (shape_index ne) (map (\<lambda>n. NVal (PInt (int n))) ns) = Ok (map int ns)"
  by (induction ns) simp_all

lemma mapM_extents: "mapM (np_unpack ne) (map (\<lambda>n. PInt (int n)) ns) = Ok (map (\<lambda>n. NVal (PInt (int n))) ns)"
  by (induction ns) simp_all

lemma pack_array_map_roundtrip:
  assumes "np_documented ne" and "portable ne (NArr a)"
  shows "\<exists>p. pack_array_map ne a = Ok p \<and> np_unpack ne p = Ok (NArr a)"
proof -
  have nat: "map nat (map int (nd_shape a)) = nd_shape a" by (simp add: comp_def)
  have "nd_data (ascontiguous a) = nd_data a" by (simp add: ascontiguous_def)
  moreover have "length (nd_data a) = prod_list (nd_shape a) * itemsize (nd_dtype a)"
    using assms(2) by (simp add: nd_wf_def)
  ultimately show ?thesis
    using assms
    by (simp add: pack_array_map_def unpack_object_def np_flag_def np_item_def np_ndarray_def mapM_extents mapM_index
        np_documented_def plain_kind_def comp_def list_ex_iff)
qed

lemma unpack_object_plain:
  "portable ne (NDict kvs) \<Longrightarrow> unpack_object ne kvs = Ok (NDict kvs)"
  by (auto simp: unpack_object_def np_flag_def map_of_eq_None_iff [symmetric])

lemma np_pack_unpack:
  assumes "np_documented ne" and "portable ne v"
  shows "\<exists>p. np_pack ne v = Ok p \<and> np_unpack ne p = Ok v"
  using assms
proof (induction ne v rule: np_pack.induct)
  case (2 ne a)
  then show ?case using pack_array_map_roundtrip by simp
next
  case (3 ne d v)
  then show ?case
    by (simp add: pack_generic_map_def np_unpack_scalar unpack_object_def np_flag_def np_item_def np_documented_def)
next
  case (4 ne xs)
  then have "\<forall>x \<in> set xs. \<exists>p. np_pack ne x = Ok p \<and> np_unpack ne p = Ok x" by (auto simp: list_all_iff)
  then obtain f where f: "\<forall>x \<in> set xs. np_pack ne x = Ok (f x) \<and> np_unpack ne (f x) = Ok x" by metis
  then have "mapM (np_pack ne) xs = Ok (map f xs)" by (intro mapM_cong_Ok) simp
  moreover have "mapM (np_unpack ne) (map f xs) = Ok (map id xs)"
    unfolding mapM_map using f by (intro mapM_cong_Ok) simp
  ultimately show ?case by simp
next
  case (5 ne kvs)
  then have "\<forall>kv \<in> set kvs. \<exists>p. np_pack ne (snd kv) = Ok p \<and> np_unpack ne p = Ok (snd kv)"
    by (fastforce simp: list_all_iff)
  then obtain f where f: "\<forall>kv \<in> set kvs. np_pack ne (snd kv) = Ok (f kv) \<and> np_unpack ne (f kv) = Ok (snd kv)" by metis
  have "mapM (\<lambda>(k, v). res_bind (np_pack ne v) (\<lambda>w. Ok (k, w))) kvs = Ok (map (\<lambda>kv. (fst kv, f kv)) kvs)"
    using f by (intro mapM_cong_Ok) (auto simp: split_beta)
  moreover have "mapM (\<lambda>(k, v). res_bind (np_unpack ne v) (\<lambda>w. Ok (k, w))) (map (\<lambda>kv. (fst kv, f kv)) kvs) = Ok (map id kvs)"
    unfolding mapM_map using f by (intro mapM_cong_Ok) auto
  ultimately show ?case using unpack_object_plain 5 by simp
qed (simp add: np_unpack_scalar)


definition rm_np :: np_env where
  "rm_np =
     \<lparr>np_kind = (\<lambda>d. if List.member [DU8, DF32] d then CHR ''f'' else CHR ''V''),
      np_str = (\<lambda>d. if d = DU8 then ''|u1'' else ''<f4''),
      np_dtype = (\<lambda>v. if v = NVal (PStr ''|u1'') then Ok DU8
                   else if v = NVal (PStr ''<f4'') then Ok DF32 else Err (TypeError ''data type not understood'')),
      np_scalar = (\<lambda>d v. case v of NVal u \<Rightarrow> Ok u | _ \<Rightarrow> Err (TypeError ''scalar'')),
      np_truth = (\<lambda>_. Err (ValueError ''ambiguous'')), np_buffer = (\<lambda>_. Err (TypeError ''buffer'')),
      np_tuple = (\<lambda>_. Err (TypeError ''tuple'')), np_other_index = (\<lambda>_. Err (TypeError ''index''))\<rparr>"

definition rm_value :: npval where
  "rm_value =
     NDict [(PStr ''images'', NDict [(PStr ''cam_high'', NArr \<lparr>nd_dtype = DU8, nd_shape = [3, 1, 1], nd_data = [7, 8, 9]\<rparr>)]),
            (PStr ''state'', NList [NArr (nd_of_f32s [1] [0x3F800000]), NGen DF32 (PFloat (Fin 1))]),
            (PStr ''prompt'', NVal (PStr ''fold''))]"

lemma rm_np_documented: "np_documented rm_np"
  by (auto simp: np_documented_def plain_kind_def rm_np_def)


section \<open>Sessions\<close>

text \<open>
  A prompt link: the peer greets a new connection, answers each message with one
  message, and what it sent is received in order.
\<close>

locale prompt_link =
  fixes net :: "('c, 'w) ws" and greeting :: wire and answer :: "'w \<Rightarrow> byte list \<Rightarrow> wire"
    and pending :: "'c \<Rightarrow> 'w \<Rightarrow> wire list" and prompt :: "'w \<Rightarrow> bool"
  assumes connect_greets: "prompt w \<Longrightarrow>
      \<exists>c w'. ws_connect net u h t i k w = (w', Ok c) \<and> prompt w' \<and> pending c w' = [greeting] \<and> answer w' = answer w"
    and send_answers: "prompt w \<Longrightarrow>
      \<exists>w'. ws_send net c payload w = (w', Ok ()) \<and> prompt w' \<and> pending c w' = pending c w @ [answer w payload]"
    and recv_next: "prompt w \<Longrightarrow> pending c w = m # ms \<Longrightarrow>
      \<exists>w'. ws_recv net c t w = (w', Ok m) \<and> prompt w' \<and> pending c w' = ms \<and> answer w' = answer w"
begin

text \<open>What an exchange reads is the oldest message that was not read yet.\<close>

lemma exchange_oldest:
  assumes "re_net env = net" and "prompt w" and "rb_connection b = Some c" and "remote_pack env obs = Ok payload"
  shows "\<exists>w'. remote_exchange env obs (b, w) = ((b, w'), Ok (hd (pending c w @ [answer w payload]))) \<and>
    prompt w' \<and> pending c w' = tl (pending c w @ [answer w payload])"
proof -
  from send_answers [OF assms(2)] obtain w1 where
    s: "ws_send net c payload w = (w1, Ok ())" "prompt w1" "pending c w1 = pending c w @ [answer w payload]" by blast
  define m ms where "m = hd (pending c w @ [answer w payload])" and "ms = tl (pending c w @ [answer w payload])"
  with s(3) have p: "pending c w1 = m # ms" by simp
  from recv_next [OF s(2) p] obtain w2 where
    "ws_recv net c (rb_request_timeout b) w1 = (w2, Ok m)" "prompt w2" "pending c w2 = ms" by blast
  with s(1) assms m_def ms_def show ?thesis
    by (auto simp: remote_exchange_def io_bind_def io_run with_world_def)
qed

lemma connect_syncs:
  assumes "re_net env = net" and "prompt w" and "rb_connection b = None"
    and "remote_unpack env greeting = Ok (NDict hello)"
    and "optional_float (rb_ping_interval b) = Ok i" and "optional_float (rb_ping_timeout b) = Ok k"
  shows "\<exists>c w'. remote_ensure_connected env (b, w) =
      ((b\<lparr>rb_connection := Some c, rb_metadata := hello\<rparr>, w'), Ok ()) \<and>
    prompt w' \<and> pending c w' = [] \<and> answer w' = answer w"
proof -
  from connect_greets [OF assms(2), of "''ws://'' @ rb_host b @ '':'' @ re_show env (PInt (rb_port b))"
      "api_header (re_show env) (rb_api_key b)" "rb_open_timeout b" i k] obtain c w1 where
    c: "ws_connect net (''ws://'' @ rb_host b @ '':'' @ re_show env (PInt (rb_port b)))
        (api_header (re_show env) (rb_api_key b)) (rb_open_timeout b) i k w = (w1, Ok c)"
    "prompt w1" "pending c w1 = [greeting]" "answer w1 = answer w" by blast
  from recv_next [OF c(2,3)] obtain w2 where
    "ws_recv net c (rb_open_timeout b) w1 = (w2, Ok greeting)" "prompt w2" "pending c w2 = []" "answer w2 = answer w1" by blast
  with c assms show ?thesis
    by (auto simp: remote_ensure_connected_def remote_open_def remote_hello_def io_bind_def io_run with_world_def Let_def)
qed

end

text \<open>
  An OpenPI server behind a WebSocket: it greets with \<open>hello\<close>, answers each message by
  \<open>serve\<close>, and \<open>op_delays\<close> says which of the next reads time out.
\<close>

record 's openpi =
  op_state :: 's
  op_inbox :: "wire list"
  op_delays :: "bool list"

definition openpi_recv :: "('s openpi, wire) io" where
  "openpi_recv w =
     (if op_delays w \<noteq> [] \<and> hd (op_delays w) \<or> op_inbox w = []
      then (w\<lparr>op_delays := tl (op_delays w)\<rparr>, Err (TimeoutError ''timed out''))
      else (w\<lparr>op_delays := tl (op_delays w), op_inbox := tl (op_inbox w)\<rparr>, Ok (hd (op_inbox w))))"

definition openpi_send :: "('s \<Rightarrow> byte list \<Rightarrow> 's \<times> wire) \<Rightarrow> byte list \<Rightarrow> ('s openpi, unit) io" where
  "openpi_send serve payload w =
     (case serve (op_state w) payload of
        (s, m) \<Rightarrow> (w\<lparr>op_state := s, op_inbox := op_inbox w @ [m]\<rparr>, Ok ()))"

definition openpi_net :: "wire \<Rightarrow> ('s \<Rightarrow> byte list \<Rightarrow> 's \<times> wire) \<Rightarrow> (unit, 's openpi) ws" where
  "openpi_net hello serve =
     \<lparr>ws_connect = (\<lambda>_ _ _ _ _ w. (w\<lparr>op_inbox := [hello]\<rparr>, Ok ())),
      ws_send = (\<lambda>_. openpi_send serve), ws_recv = (\<lambda>_ _. openpi_recv),
      ws_close = (\<lambda>_ w. w\<lparr>op_inbox := []\<rparr>)\<rparr>"

definition openpi_answer :: "('s \<Rightarrow> byte list \<Rightarrow> 's \<times> wire) \<Rightarrow> 's openpi \<Rightarrow> byte list \<Rightarrow> wire" where
  "openpi_answer serve w payload = snd (serve (op_state w) payload)"

interpretation openpi: prompt_link "openpi_net hello serve" hello "openpi_answer serve" "\<lambda>_. op_inbox" "\<lambda>w. op_delays w = []"
  by unfold_locales
    (auto simp: openpi_net_def openpi_send_def openpi_recv_def openpi_answer_def fun_eq_iff split: prod.splits)

text \<open>What the server's model computes for the request, without any connection.\<close>

definition direct_result ::
    "('c, 'w) remote_env \<Rightarrow> (byte list \<Rightarrow> wire) \<Rightarrow> model_spec \<Rightarrow> pyfloat \<Rightarrow> infer_req \<Rightarrow> backend_result res" where
  "direct_result env reply spec elapsed request =
     res_bind (validate_request spec request) (\<lambda>_.
     res_bind (remote_observation env request) (\<lambda>obs.
     res_bind (remote_pack env obs) (\<lambda>payload.
     res_bind (as_response env (reply payload)) (remote_result env spec elapsed))))"

definition pings_ok :: "'c remote \<Rightarrow> bool" where
  "pings_ok b = (is_ok (optional_float (rb_ping_interval b)) \<and> is_ok (optional_float (rb_ping_timeout b)))"

definition in_sync :: "'c remote \<Rightarrow> 's openpi \<Rightarrow> bool" where
  "in_sync b w = (rb_connection b \<noteq> None \<longrightarrow> op_inbox w = [])"

lemma ensure_connected_sync:
  assumes "re_net env = openpi_net hello serve" and "remote_unpack env hello = Ok (NDict md)"
    and "pings_ok b" and "in_sync b w" and "op_delays w = []"
  shows "\<exists>b' w' c. remote_ensure_connected env (b, w) = ((b', w'), Ok ()) \<and> rb_connection b' = Some c \<and>
    op_inbox w' = [] \<and> op_delays w' = [] \<and> openpi_answer serve w' = openpi_answer serve w \<and>
    rb_spec b' = rb_spec b \<and> pings_ok b'"
proof (cases "rb_connection b")
  case None
  from assms(3) obtain i k where "optional_float (rb_ping_interval b) = Ok i" "optional_float (rb_ping_timeout b) = Ok k"
    by (auto simp: pings_ok_def is_ok_iff)
  with openpi.connect_syncs [OF assms(1,5) None assms(2)] assms(3) show ?thesis
    by (force simp: pings_ok_def)
next
  case (Some c)
  with assms show ?thesis by (simp add: remote_ensure_connected_def in_sync_def)
qed

text \<open>
  C26: A session with a prompt server is exact.  As long as no read times out, every call
  of \<open>infer\<close> gives the result of the server's answer to this very request (an exception
  where the request, the packing or the answer is invalid), and leaves the backend in
  step with the server, whether or not the call raised.
\<close>

theorem remote_infer_exact:
  assumes "re_net env = openpi_net hello serve" and "remote_unpack env hello = Ok (NDict md)"
    and "pings_ok b" and "in_sync b w" and "op_delays w = []"
  shows "\<exists>b' w'. remote_infer env elapsed request (b, w) =
      ((b', w'), direct_result env (openpi_answer serve w) (rb_spec b) elapsed request) \<and>
    in_sync b' w' \<and> op_delays w' = [] \<and> pings_ok b' \<and> rb_spec b' = rb_spec b"
proof (cases "res_bind (validate_request (rb_spec b) request) (\<lambda>_. remote_observation env request)")
  case (Err e)
  then have "remote_infer env elapsed request (b, w) = ((b, w), Err e)"
    "direct_result env (openpi_answer serve w) (rb_spec b) elapsed request = Err e"
    by (auto simp: remote_infer_def direct_result_def io_bind_def io_run res_bind_eq_Err split: res.splits)
  with assms show ?thesis by (intro exI [of _ b] exI [of _ w]) simp
next
  case (Ok obs)
  then have obs: "validate_request (rb_spec b) request = Ok ()" "remote_observation env request = Ok obs" by auto
  from ensure_connected_sync [OF assms] obtain b1 w1 c where
    c: "remote_ensure_connected env (b, w) = ((b1, w1), Ok ())" "rb_connection b1 = Some c" "op_inbox w1 = []"
    "op_delays w1 = []" "openpi_answer serve w1 = openpi_answer serve w" "rb_spec b1 = rb_spec b" "pings_ok b1"
    by blast
  show ?thesis
  proof (cases "remote_pack env obs")
    case (Err e)
    then have "remote_exchange env obs (b1, w1) = ((b1, w1), Err e)"
      using c(2) by (simp add: remote_exchange_def io_bind_def io_run)
    with obs c Err assms(1) show ?thesis
      by (simp add: remote_infer_def direct_result_def remote_request_def io_bind_def io_run io_on_error_def
          remote_close_def in_sync_def openpi_net_def pings_ok_def)
  next
    case (Ok payload)
    from openpi.exchange_oldest [OF assms(1) c(4,2) Ok] c(3) obtain w2 where
      "remote_exchange env obs (b1, w1) = ((b1, w2), Ok (openpi_answer serve w1 payload))"
      "op_delays w2 = []" "op_inbox w2 = []" by auto
    with obs c Ok show ?thesis
      by (cases "as_response env (openpi_answer serve w payload)")
        (simp_all add: remote_infer_def direct_result_def remote_request_def io_bind_def io_run io_on_error_def in_sync_def)
  qed
qed

text \<open>
  A greeting that arrives after the open timeout shifts the session by one: the
  connection is kept although its greeting was not read, the next call takes the
  greeting for its answer, and from then on every call gets the answer to the
  previous request.
\<close>

lemma late_hello_shifts:
  assumes env: "re_net env = openpi_net hello serve" and "pings_ok b" and "rb_connection b = None" and "op_delays w = [True]"
    and valid: "\<And>r. r \<in> {request, request'} \<Longrightarrow> validate_request (rb_spec b) r = Ok ()"
    and obs: "remote_observation env request = Ok obs" "remote_observation env request' = Ok obs'"
    and payload: "remote_pack env obs = Ok payload" "remote_pack env obs' = Ok payload'"
  shows "\<exists>b' w1 w2 w3. remote_infer env elapsed request (b, w) = ((b', w1), Err (TimeoutError ''timed out'')) \<and>
    remote_infer env elapsed request (b', w1) =
      ((b', w2), res_bind (as_response env hello) (remote_result env (rb_spec b) elapsed)) \<and>
    remote_infer env elapsed request' (b', w2) =
      ((b', w3), res_bind (as_response env (openpi_answer serve w payload)) (remote_result env (rb_spec b) elapsed))"
proof -
  let ?b = "b\<lparr>rb_connection := Some ()\<rparr>" and ?w = "w\<lparr>op_inbox := [hello], op_delays := []\<rparr>"
  from assms(2) obtain i k where "optional_float (rb_ping_interval b) = Ok i" "optional_float (rb_ping_timeout b) = Ok k"
    by (auto simp: pings_ok_def is_ok_iff)
  with assms(3,4) env have "remote_ensure_connected env (b, w) = ((?b, ?w), Err (TimeoutError ''timed out''))"
    by (simp add: remote_ensure_connected_def remote_open_def io_bind_def io_run with_world_def Let_def
        openpi_net_def openpi_recv_def)
  with valid obs have 1: "remote_infer env elapsed request (b, w) = ((?b, ?w), Err (TimeoutError ''timed out''))"
    by (simp add: remote_infer_def remote_request_def io_bind_def io_run)
  have call: "\<exists>w'. remote_infer env elapsed r (?b, v) =
      ((?b, w'), res_bind (as_response env m) (remote_result env (rb_spec b) elapsed)) \<and>
    op_delays w' = [] \<and> op_inbox w' = [openpi_answer serve v p]"
    if "r \<in> {request, request'}" "remote_observation env r = Ok o1" "remote_pack env o1 = Ok p"
      "op_delays v = []" "op_inbox v = [m]" for r o1 p v m
  proof -
    from openpi.exchange_oldest [OF env that(4) _ that(3), of ?b "()"] that(5) obtain w' where
      "remote_exchange env o1 (?b, v) = ((?b, w'), Ok m)" "op_delays w' = []" "op_inbox w' = [openpi_answer serve v p]"
      by auto
    with valid [OF that(1)] that(2) show ?thesis
      by (cases "as_response env m")
        (simp_all add: remote_infer_def remote_request_def remote_ensure_connected_def io_bind_def io_run io_on_error_def)
  qed
  from call [OF _ obs(1) payload(1), of ?w hello] obtain w2 where
    2: "remote_infer env elapsed request (?b, ?w) =
        ((?b, w2), res_bind (as_response env hello) (remote_result env (rb_spec b) elapsed))"
      "op_delays w2 = []" "op_inbox w2 = [openpi_answer serve w payload]" by (auto simp: openpi_answer_def)
  from call [OF _ obs(2) payload(2) 2(2,3)] 1 2 show ?thesis by blast
qed

text \<open>A server that greets with an empty map and answers every request with one action.\<close>

definition rm_remote :: "unit remote" where
  "rm_remote =
     \<lparr>rb_host = ''peer'', rb_port = 8000, rb_api_key = PNone, rb_open_timeout = Fin 10, rb_request_timeout = Fin 300,
      rb_ping_interval = PNone, rb_ping_timeout = PNone, rb_connection = None, rb_metadata = [],
      rb_vision = \<lparr>vbc_enabled = False, vbc_max_batch_size = 1, vbc_batch_wait_ms = Fin 0, vbc_max_queue_size = 1\<rparr>,
      rb_spec = gw_spec\<rparr>"

definition rm_ops :: image_ops where
  "rm_ops = \<lparr>im_floating = (\<lambda>_. False), im_scale = (\<lambda>_ e. e), im_u8 = (\<lambda>_ _. 0), im_f32 = (\<lambda>_ _. 0), im_div255 = id\<rparr>"

definition rm_pixel :: ndarray where
  "rm_pixel = \<lparr>nd_dtype = DU8, nd_shape = [1, 1, 3], nd_data = [7, 8, 9]\<rparr>"

definition rm_request :: infer_req where
  "rm_request = gw_request\<lparr>rq_images := [(''head'', rm_pixel), (''left_wrist'', rm_pixel), (''right_wrist'', rm_pixel)]\<rparr>"

definition rm_actions :: ndarray where
  "rm_actions = nd_of_f32s [1, 1] [f32_one]"

definition rm_reply :: pyval where
  "rm_reply =
     (case np_pack rm_np (NDict [(PStr ''actions'', NArr rm_actions)]) of Ok p \<Rightarrow> p | Err _ \<Rightarrow> PNone)"

definition rm_remote_env :: "(unit, nat openpi) remote_env" where
  "rm_remote_env =
     \<lparr>re_net = openpi_net (WBytes [0x80]) (\<lambda>n _. (Suc n, WBytes [1])), re_packb = (\<lambda>_. Ok [2]),
      re_unpackb = (\<lambda>p. Ok (if p = [0x80] then PDict [] else rm_reply)), re_np = rm_np,
      re_cast = (\<lambda>_ _. Err (TypeError ''no cast'')), re_images = rm_ops,
      re_asarray = (\<lambda>_. Err (TypeError ''asarray'')), re_float = (\<lambda>_. Err (TypeError ''float'')), re_show = (\<lambda>_. [])\<rparr>"

definition rm_openpi :: "nat openpi" where
  "rm_openpi = \<lparr>op_state = 0, op_inbox = [], op_delays = []\<rparr>"

lemma rm_reply_unpacked: "np_unpack rm_np rm_reply = Ok (NDict [(PStr ''actions'', NArr rm_actions)])"
proof -
  have "portable rm_np (NArr rm_actions)"
    by (simp add: plain_kind_def rm_np_def rm_actions_def nd_wf_of_f32s)
  from pack_array_map_roundtrip [OF rm_np_documented this] obtain p where
    "pack_array_map rm_np rm_actions = Ok p" "np_unpack rm_np p = Ok (NArr rm_actions)" by blast
  then show ?thesis by (simp add: rm_reply_def unpack_object_def np_flag_def py_bytes_def)
qed

lemma rm_direct:
  "\<exists>res. direct_result rm_remote_env (openpi_answer (\<lambda>n _. (Suc n, WBytes [1])) rm_openpi) gw_spec (Fin 1) rm_request =
     Ok res \<and> br_actions res = rm_actions"
proof -
  have v: "validate_request gw_spec rm_request = Ok ()"
    by (simp add: validate_request_def gw_spec_def rm_request_def gw_request_def missing_cameras_def)
  have px: "as_chw_uint8 rm_ops rm_pixel = Ok (channels_first rm_pixel)"
    by (simp add: as_chw_uint8_def as_hwc_uint8_def as_hwc_def rm_pixel_def first_channels_def nd_of_elems_def nd_elems_def concat_chunks)
  obtain obs where o: "remote_observation rm_remote_env rm_request = Ok obs"
    using px by (simp add: remote_observation_def rm_remote_env_def rm_request_def gw_request_def as_dtype_def request_camera_def)
  have "nd_wf (channels_first rm_pixel)" "nd_dtype (channels_first rm_pixel) = DU8"
    by (simp_all add: channels_first_def rm_pixel_def nd_of_elems_def nd_wf_def nd_elems_def transpose_flat_def numeral_3_eq_3)
  then have "portable rm_np obs"
    using o px
    by (auto simp: remote_observation_def rm_remote_env_def rm_request_def gw_request_def as_dtype_def request_camera_def
        plain_kind_def rm_np_def nd_wf_of_f32s py_bytes_def)
  from np_pack_unpack [OF rm_np_documented this] have pk: "remote_pack rm_remote_env obs = Ok [2]"
    by (auto simp: remote_pack_def rm_remote_env_def)
  have va: "validate_actions (re_cast rm_remote_env) gw_spec rm_actions = Ok rm_actions"
    by (intro validate_actions_same)
      (simp_all add: chunk_ok_def gw_spec_def rm_actions_def nd_isfinite_def)
  have r: "as_response rm_remote_env (WBytes [1]) = Ok [(PStr ''actions'', NArr rm_actions)]"
    using rm_reply_unpacked by (simp add: as_response_def remote_unpack_def rm_remote_env_def)
  have "drop_batch_axis rm_actions = rm_actions" "truncate_command gw_spec rm_actions = Ok rm_actions"
    by (simp_all add: drop_batch_axis_def truncate_command_def rm_actions_def)
  with v o pk va r show ?thesis
    by (simp add: direct_result_def openpi_answer_def remote_result_def response_array_def as_dtype_def remote_timing_def)
      (simp add: rm_actions_def)
qed

theorem remote_infer_exact_witness:
  "\<exists>x res. remote_infer rm_remote_env (Fin 1) rm_request (rm_remote, rm_openpi) = (x, Ok res) \<and>
     br_actions res = rm_actions"
proof -
  have "re_net rm_remote_env = openpi_net (WBytes [0x80]) (\<lambda>n _. (Suc n, WBytes [1]))" by (simp add: rm_remote_env_def)
  moreover have "remote_unpack rm_remote_env (WBytes [0x80]) = Ok (NDict [])"
    by (simp add: remote_unpack_def rm_remote_env_def unpack_object_def np_flag_def)
  moreover have "pings_ok rm_remote" "in_sync rm_remote rm_openpi" "op_delays rm_openpi = []" "rb_spec rm_remote = gw_spec"
    by (simp_all add: pings_ok_def optional_float_def rm_remote_def in_sync_def rm_openpi_def)
  ultimately show ?thesis
    using remote_infer_exact [of rm_remote_env "WBytes [0x80]" "\<lambda>n _. (Suc n, WBytes [1])" "[]" rm_remote rm_openpi
        "Fin 1" rm_request] rm_direct
    by fastforce
qed

section \<open>The 16-column command\<close>

text \<open>
  A server's command of 16 columns is the robot's qpos vector (left arm, left gripper,
  right arm, right gripper), but the model's 14 coordinates are in another order.  The
  cut keeps the first 14 columns, so that on the way back the left arm's last joint is
  taken for the right arm's first, and joints of the right arm for both grippers.
\<close>

lemma command_misrouted:
  assumes "ms_model_action_dim spec = 14" and "length row = 16" and "list_all f32_finite row"
    and "raw_state_ok DAZZ_S600_CONTRACT xs"
  shows "\<exists>a raw. truncate_command spec (nd_of_f32s [1, 16] row) = Ok a \<and>
    actions_to_raw cast DAZZ_S600_CONTRACT a (vec xs) = Ok (nd_of_f32s [1, 18] raw) \<and>
    raw ! 8 = row ! 6 \<and> raw ! 7 = row ! 12 \<and> raw ! 15 = row ! 13"
proof -
  let ?c = DAZZ_S600_CONTRACT and ?row = "take 14 row"
  have wf: "contract_wf ?c"
    by (simp add: contract_wf_def DAZZ_S600_CONTRACT_def contract_slices_def slice_ok_def slice_of_def)
  have ks: "index_nats ?c = [0, 1, 2, 3, 4, 5, 8, 9, 10, 11, 12, 13, 7, 15]" and d: "model_dim ?c = 14"
    by (simp_all add: index_nats_def model_dim_def DAZZ_S600_CONTRACT_def)
  have len: "length xs = 18" using assms(4) by (simp add: raw_state_ok_def DAZZ_S600_CONTRACT_def)
  have cut: "truncate_command spec (nd_of_f32s [1, 16] row) = Ok (chunk_of ?c [?row])"
    using assms(1,2) by (simp add: truncate_command_def crop_actions_def d)
  have "rows_ok ?c [?row]" using assms(2,3) d by (auto simp: rows_ok_def list_all_iff dest: in_set_takeD)
  with actions_to_raw_chunk [OF wf _ assms(4), of "[?row]"] have
    raw: "actions_to_raw cast ?c (chunk_of ?c [?row]) (vec xs) = Ok (nd_of_f32s [1, 18] (scatter (index_nats ?c) ?row xs))"
    using len by (simp add: DAZZ_S600_CONTRACT_def)
  have "scatter (index_nats ?c) ?row xs ! (index_nats ?c ! j) = row ! j" if "j < 14" for j
    using scatter_nth [of "index_nats ?c" xs ?row j] that assms(2) len by (simp add: ks)
  from this [of 6] this [of 12] this [of 13] cut raw show ?thesis by (auto simp: ks)
qed

end
