(* ===== verification/Pi05_Cpp.thy ===== *)
theory Pi05_Cpp
  imports Pi05_Tcp Prefix_Cache
begin

text \<open>
  The client of the Embodied.cpp server (\<open>models/pi05/cpp.py\<close>): protobuf messages over a
  ZeroMQ REQ socket.  ZeroMQ, the protobuf encoding and the tokenizer are parameters;
  the messages of \<open>_proto_classes\<close> are records.  The lock makes each call one sequential
  run.
\<close>

section \<open>Messages\<close>

record vla_image =
  vi_encoding :: nat
  vi_height :: nat
  vi_width :: nat
  vi_data :: "byte list"

record predict_request =
  pr_images :: "vla_image list"
  pr_lang_tokens :: "int list"
  pr_state :: "f32 list"
  pr_request_id :: int
  pr_language_text :: string

record predict_response =
  ps_request_id :: int
  ps_action_chunk :: "f32 list"
  ps_chunk_size :: nat
  ps_action_dim :: nat
  ps_latency_ms_total :: f32
  ps_latency_ms_inference :: f32
  ps_error :: string

section \<open>State\<close>

record ('c, 'w) zmq_net =
  zn_socket :: "string \<Rightarrow> int \<Rightarrow> ('w, 'c) io"
  zn_send :: "'c \<Rightarrow> byte list \<Rightarrow> ('w, unit) io"
  zn_recv :: "'c \<Rightarrow> ('w, byte list) io"
  zn_close :: "'c \<Rightarrow> 'w \<Rightarrow> 'w"

record ('c, 'w) cpp_env =
  ce_net :: "('c, 'w) zmq_net"
  ce_serialize :: "predict_request \<Rightarrow> byte list"
  ce_parse :: "byte list \<Rightarrow> predict_response res"
  ce_tokenize :: "string \<Rightarrow> string \<Rightarrow> int list res"
  ce_ops :: image_ops
  ce_npcast :: "dtype \<Rightarrow> ndarray \<Rightarrow> ndarray res"
  ce_text :: "pyval \<Rightarrow> string"

record 'c cpp =
  cb_address :: string
  cb_server_state_dim :: int
  cb_server_action_dim :: int
  cb_server_horizon :: int
  cb_tokenizer_path :: pyval
  cb_require_tokens :: bool
  cb_token_ids :: pyval
  cb_fallback_lang_length :: int
  cb_timeout_ms :: int
  cb_step :: int
  cb_sock :: "'c option"
  cb_vision :: vb_config
  cb_spec :: model_spec

definition cpp_init ::
    "(pyval \<Rightarrow> string) \<Rightarrow> (string \<Rightarrow> robot_contract res) \<Rightarrow> pydict \<Rightarrow> 'c cpp res" where
  "cpp_init show_val robot_of config =
     (let arch = py_str show_val (dget_or config ''server_arch'' (PStr ''unknown''))
      in res_bind (py_int (dget_or config ''server_state_dim'' (PInt 32))) (\<lambda>sd.
         res_bind (py_int (dget_or config ''server_action_dim'' (PInt 32))) (\<lambda>ad.
         res_bind (py_int (dget_or config ''server_horizon'' (PInt 50))) (\<lambda>hz.
         res_bind (py_int (dget_or config ''fallback_lang_length'' (PInt 1))) (\<lambda>fl.
         res_bind (py_int (dget_or config ''timeout_ms'' (PInt 900000))) (\<lambda>timeout.
         res_bind (vb_config_from_mapping (dget_none config ''vision_batching'')) (\<lambda>vision.
         res_bind (py_int (dget_or config ''native_action_dim'' (PInt 16))) (\<lambda>nd.
         res_bind (pi05_spec show_val robot_of ''pi05-cpp-zmq'' config ''Pi05-EmbodiedCpp''
                     [(''protocol'', PStr ''embodied.cpp-vla/1''), (''native_action_dim'', PInt nd),
                      (''server_state_dim'', PInt sd), (''server_action_dim'', PInt ad), (''server_arch'', PStr arch),
                      (''model_identity_verified'', PBool (List.member [''pi05'', ''pi0.5''] arch))]
                     100000000) (\<lambda>spec.
           Ok \<lparr>cb_address = py_str show_val (dget_or config ''address'' (PStr ''tcp://127.0.0.1:5555'')),
               cb_server_state_dim = sd, cb_server_action_dim = ad, cb_server_horizon = hz,
               cb_tokenizer_path = dget_none config ''tokenizer_path'',
               cb_require_tokens = py_bool (dget_or config ''require_tokens'' (PBool False)),
               cb_token_ids = dget_none config ''token_ids'', cb_fallback_lang_length = fl, cb_timeout_ms = timeout,
               cb_step = 0, cb_sock = None, cb_vision = vision, cb_spec = spec\<rparr>)))))))))"

definition cpp_metadata :: "'c cpp \<Rightarrow> pydict" where
  "cpp_metadata b =
     dput (spec_metadata (cb_spec b)) ''vision_batching'' (vision_entry (cb_vision b))"

section \<open>Operations\<close>

definition cpp_ensure :: "('c, 'w) cpp_env \<Rightarrow> ('c cpp \<times> 'w, 'c) io" where
  "cpp_ensure env x =
     (case cb_sock (fst x) of
        Some c \<Rightarrow> (x, Ok c)
      | None \<Rightarrow>
          (case zn_socket (ce_net env) (cb_address (fst x)) (cb_timeout_ms (fst x)) (snd x) of
             (w, Err e) \<Rightarrow> ((fst x, w), Err e)
           | (w, Ok c) \<Rightarrow> (((fst x)\<lparr>cb_sock := Some c\<rparr>, w), Ok c)))"

text \<open>\<open>PredictRequest(request_id=self._step); self._step += 1\<close>\<close>

definition cpp_next_step :: "('c cpp \<times> 'w, int) io" where
  "cpp_next_step x = (((fst x)\<lparr>cb_step := cb_step (fst x) + 1\<rparr>, snd x), Ok (cb_step (fst x)))"

definition cpp_state :: "('c, 'w) cpp_env \<Rightarrow> 'c cpp \<Rightarrow> infer_req \<Rightarrow> f32 list res" where
  "cpp_state env b request =
     (if cb_server_state_dim b < 0 then Err (ValueError ''negative dimensions are not allowed'')
      else padded_state (ce_npcast env) (nat (cb_server_state_dim b)) (nat (ms_model_state_dim (cb_spec b))) (rq_state request))"

text \<open>\<open>instruction.strip().replace("_", " ")\<close>\<close>

definition tokenizer_input :: "string \<Rightarrow> string" where
  "tokenizer_input instruction = map (\<lambda>c. if c = CHR ''_'' then CHR '' '' else c) (rstrip (lstrip instruction))"

text \<open>Configured ids, the tokenizer's, or (outside production) a filler.\<close>

definition cpp_tokenized :: "('c, 'w) cpp_env \<Rightarrow> 'c cpp \<Rightarrow> string \<Rightarrow> pyval res" where
  "cpp_tokenized env b instruction =
     (if cb_token_ids b = PNone \<and> py_bool (cb_tokenizer_path b)
      then (case ce_tokenize env (py_str (ce_text env) (cb_tokenizer_path b)) (tokenizer_input instruction) of
              Ok ids \<Rightarrow> Ok (PList (map PInt ids))
            | Err e \<Rightarrow> if cb_require_tokens b then Err (RuntimeError ''cannot load Pi05 tokenizer'') else Ok PNone)
      else Ok (cb_token_ids b))"

definition cpp_tokens :: "('c, 'w) cpp_env \<Rightarrow> 'c cpp \<Rightarrow> string \<Rightarrow> int list res" where
  "cpp_tokens env b instruction =
     res_bind (cpp_tokenized env b instruction) (\<lambda>ids.
       if ids = PNone \<and> cb_require_tokens b
       then Err (RuntimeError ''Pi05 C++ backend requires tokenizer_path'')
       else let token_ids = (if ids = PNone then PList (replicate (nat (max 1 (cb_fallback_lang_length b))) (PInt 0)) else ids)
            in res_bind (py_iter token_ids) (\<lambda>items.
               res_bind (mapM py_int items) (\<lambda>tokens.
                 if list_all (\<lambda>t. - (2 ^ 31) \<le> t \<and> t < 2 ^ 31) tokens then Ok tokens
                 else Err (ValueError ''value out of range''))))"

definition cpp_image :: "('c, 'w) cpp_env \<Rightarrow> ndarray \<Rightarrow> vla_image res" where
  "cpp_image env img =
     res_bind (as_hwc_float01 (ce_ops env) img) (\<lambda>v.
       Ok \<lparr>vi_encoding = 2, vi_height = nd_shape v ! 0, vi_width = nd_shape v ! 1, vi_data = nd_data v\<rparr>)"

definition cpp_message :: "('c, 'w) cpp_env \<Rightarrow> 'c cpp \<Rightarrow> int \<Rightarrow> infer_req \<Rightarrow> predict_request res" where
  "cpp_message env b step request =
     res_bind (cpp_state env b request) (\<lambda>state.
     res_bind (cpp_tokens env b (rq_instruction request)) (\<lambda>tokens.
     res_bind (res_bind (spec_images (cb_spec b) request) (mapM (cpp_image env))) (\<lambda>images.
       Ok \<lparr>pr_images = images, pr_lang_tokens = tokens, pr_state = state, pr_request_id = step,
           pr_language_text = rq_instruction request\<rparr>)))"

definition cpp_result ::
    "('c, 'w) cpp_env \<Rightarrow> 'c cpp \<Rightarrow> pyfloat \<Rightarrow> predict_response \<Rightarrow> backend_result res" where
  "cpp_result env b elapsed response =
     (let spec = cb_spec b; h = nat (ms_action_horizon spec); d = nat (ms_model_action_dim spec)
      in if ps_error response \<noteq> [] then Err (RuntimeError (''Embodied.cpp Pi05 server error: '' @ ps_error response))
         else let native_dim = (if ps_action_dim response = 0 then cb_server_action_dim b else int (ps_action_dim response));
                  horizon = (if ps_chunk_size response = 0 then cb_server_horizon b else int (ps_chunk_size response))
              in res_bind (reshape_dims (length (ps_action_chunk response)) [horizon, native_dim]) (\<lambda>dims.
                 res_bind (crop_actions h d (nd_of_f32s dims (ps_action_chunk response))) (\<lambda>values.
                   if nd_shape values \<noteq> [h, d] then Err (RuntimeError ''C++ action shape cannot map to the model's'')
                   else res_bind (validate_actions (ce_npcast env) spec values) (\<lambda>actions.
                     Ok \<lparr>br_actions = actions, br_representation = ms_action_representation spec,
                         br_control_period_ns = ms_control_period_ns spec,
                         br_timing = [(''client_infer_ms'', elapsed),
                                      (''server_total_ms'', f32_float (ps_latency_ms_total response)),
                                      (''server_inference_ms'', f32_float (ps_latency_ms_inference response))]\<rparr>))))"

definition cpp_infer :: "('c, 'w) cpp_env \<Rightarrow> pyfloat \<Rightarrow> infer_req \<Rightarrow> ('c cpp \<times> 'w, backend_result) io" where
  "cpp_infer env elapsed request x =
     (let b = fst x
      in io_bind (io_lift (validate_request (cb_spec b) request)) (\<lambda>_.
         io_bind (cpp_ensure env) (\<lambda>c.
         io_bind cpp_next_step (\<lambda>step.
         io_bind (io_lift (cpp_message env b step request)) (\<lambda>message.
         io_bind (with_world (zn_send (ce_net env) c (ce_serialize env message))) (\<lambda>_.
         io_bind (with_world (zn_recv (ce_net env) c)) (\<lambda>raw.
         io_bind (io_lift (ce_parse env raw)) (\<lambda>response.
           io_lift (cpp_result env b elapsed response)))))))) x)"

definition cpp_reset :: "'c cpp \<Rightarrow> 'c cpp" where
  "cpp_reset b = b\<lparr>cb_step := 0\<rparr>"

definition cpp_close :: "('c, 'w) cpp_env \<Rightarrow> 'c cpp \<times> 'w \<Rightarrow> 'c cpp \<times> 'w" where
  "cpp_close env x =
     (case cb_sock (fst x) of
        None \<Rightarrow> x
      | Some c \<Rightarrow> ((fst x)\<lparr>cb_sock := None\<rparr>, zn_close (ce_net env) c (snd x)))"

section \<open>A server behind a REQ socket\<close>

text \<open>
  A REQ socket alternates between sending and receiving: after a message it refuses
  another one until the answer has been read.  The server answers by \<open>serve\<close>;
  \<open>rp_delays\<close> says which of the next reads time out.
\<close>

record 's rep_world =
  rp_state :: 's
  rp_answer :: "byte list option"
  rp_delays :: "bool list"

definition EFSM :: pyerr where
  "EFSM = OtherError ''ZMQError: operation cannot be accomplished in current state''"

definition rep_send :: "('s \<Rightarrow> byte list \<Rightarrow> 's \<times> byte list) \<Rightarrow> byte list \<Rightarrow> ('s rep_world, unit) io" where
  "rep_send serve payload w =
     (if rp_answer w \<noteq> None then (w, Err EFSM)
      else (case serve (rp_state w) payload of (s, a) \<Rightarrow> (w\<lparr>rp_state := s, rp_answer := Some a\<rparr>, Ok ())))"

definition rep_recv :: "('s rep_world, byte list) io" where
  "rep_recv w =
     (case rp_answer w of
        None \<Rightarrow> (w, Err EFSM)
      | Some a \<Rightarrow>
          if rp_delays w \<noteq> [] \<and> hd (rp_delays w)
          then (w\<lparr>rp_delays := tl (rp_delays w)\<rparr>, Err (OtherError ''ZMQError: resource temporarily unavailable''))
          else (w\<lparr>rp_delays := tl (rp_delays w), rp_answer := None\<rparr>, Ok a))"

definition rep_net :: "('s \<Rightarrow> byte list \<Rightarrow> 's \<times> byte list) \<Rightarrow> (unit, 's rep_world) zmq_net" where
  "rep_net serve =
     \<lparr>zn_socket = (\<lambda>_ _ w. (w\<lparr>rp_answer := None\<rparr>, Ok ())), zn_send = (\<lambda>_. rep_send serve), zn_recv = (\<lambda>_. rep_recv),
      zn_close = (\<lambda>_ w. w\<lparr>rp_answer := None\<rparr>)\<rparr>"

text \<open>The result of the server's answer to a request, without any socket.\<close>

definition cpp_direct ::
    "('c, 'w) cpp_env \<Rightarrow> (byte list \<Rightarrow> byte list) \<Rightarrow> 'c cpp \<Rightarrow> pyfloat \<Rightarrow> infer_req \<Rightarrow> backend_result res" where
  "cpp_direct env reply b elapsed request =
     res_bind (validate_request (cb_spec b) request) (\<lambda>_.
     res_bind (cpp_message env b (cb_step b) request) (\<lambda>message.
     res_bind (ce_parse env (reply (ce_serialize env message))) (cpp_result env b elapsed)))"

definition idle :: "'c cpp \<Rightarrow> 's rep_world \<Rightarrow> bool" where
  "idle b w = (cb_sock b \<noteq> None \<longrightarrow> rp_answer w = None)"


text \<open>A server whose chunk has two rows of two values, for a model of one by one.\<close>

definition zq_request :: infer_req where
  "zq_request = gw_request\<lparr>rq_images := [(''head'', nd_of_f32s [1, 1, 3] [0, 0, 0])]\<rparr>"

definition zq_gateway :: "unit cpp" where
  "zq_gateway =
     \<lparr>cb_address = ''peer'', cb_server_state_dim = 2, cb_server_action_dim = 2, cb_server_horizon = 2,
      cb_tokenizer_path = PNone, cb_require_tokens = False, cb_token_ids = PNone, cb_fallback_lang_length = 1,
      cb_timeout_ms = 1, cb_step = 0, cb_sock = None,
      cb_vision = \<lparr>vbc_enabled = False, vbc_max_batch_size = 1, vbc_batch_wait_ms = Fin 0, vbc_max_queue_size = 1\<rparr>,
      cb_spec = gw_spec\<rparr>"

definition zq_response :: predict_response where
  "zq_response =
     \<lparr>ps_request_id = 0, ps_action_chunk = [f32_one, 0, 0, f32_one], ps_chunk_size = 2, ps_action_dim = 0,
      ps_latency_ms_total = 0, ps_latency_ms_inference = 0, ps_error = []\<rparr>"

definition zq_env :: "(unit, nat rep_world) cpp_env" where
  "zq_env =
     \<lparr>ce_net = rep_net (\<lambda>n _. (Suc n, [1])), ce_serialize = (\<lambda>_. [2]), ce_parse = (\<lambda>_. Ok zq_response),
      ce_tokenize = (\<lambda>_ _. Err (OtherError ''ImportError'')),
      ce_ops = \<lparr>im_floating = (\<lambda>_. True), im_scale = (\<lambda>_ e. e), im_u8 = (\<lambda>_ _. 0), im_f32 = (\<lambda>_ _. 0), im_div255 = id\<rparr>,
      ce_npcast = (\<lambda>_ _. Err (TypeError ''no cast'')), ce_text = (\<lambda>_. [])\<rparr>"

definition zq_world :: "nat rep_world" where
  "zq_world = \<lparr>rp_state = 0, rp_answer = None, rp_delays = []\<rparr>"

lemma zq_result: "\<exists>res. cpp_result zq_env zq_gateway (Fin 1) zq_response = Ok res \<and> br_actions res = nd_of_f32s [1, 1] [f32_one]"
proof -
  have "validate_actions (ce_npcast zq_env) gw_spec (nd_of_f32s [1, 1] [f32_one]) = Ok (nd_of_f32s [1, 1] [f32_one])"
    by (intro validate_actions_same) (simp_all add: chunk_ok_def gw_spec_def nd_isfinite_def)
  then show ?thesis
    by (simp add: cpp_result_def zq_gateway_def zq_response_def gw_spec_def reshape_dims_def crop_actions_def
        numeral_2_eq_2 Let_def)
qed

lemma zq_message: "\<exists>m. cpp_message zq_env zq_gateway 0 zq_request = Ok m"
proof -
  obtain v where "cpp_image zq_env (nd_of_f32s [1, 1, 3] [0, 0, 0]) = Ok v"
    by (simp add: cpp_image_def as_hwc_float01_def as_hwc_def Let_def)
  moreover have "cpp_state zq_env zq_gateway zq_request = Ok [0x3F800000, f32_zero]"
    by (simp add: cpp_state_def zq_gateway_def zq_request_def gw_request_def gw_spec_def padded_state_def as_dtype_def)
  moreover have "cpp_tokens zq_env zq_gateway ''go'' = Ok [0]"
    by (simp add: cpp_tokens_def cpp_tokenized_def zq_gateway_def)
  ultimately show ?thesis
    by (simp add: cpp_message_def zq_request_def gw_request_def zq_gateway_def gw_spec_def spec_images_def)
qed


text \<open>
  A read that times out wedges the gateway: the socket is kept, it refuses every
  further message, and so every later call raises until the backend is closed.
\<close>

definition wedged :: "'c cpp \<Rightarrow> 's rep_world \<Rightarrow> bool" where
  "wedged b w = (cb_sock b \<noteq> None \<and> rp_answer w \<noteq> None)"

lemma cpp_timeout_wedges:
  assumes "ce_net env = rep_net serve" and "idle b w" and "rp_delays w = [True]"
    and "validate_request (cb_spec b) request = Ok ()" and "cpp_message env b (cb_step b) request = Ok message"
  shows "\<exists>b' w' e. cpp_infer env elapsed request (b, w) = ((b', w'), Err e) \<and> wedged b' w'"
proof -
  have e: "cpp_ensure env (b, w) = ((b\<lparr>cb_sock := Some ()\<rparr>, w\<lparr>rp_answer := None\<rparr>), Ok ())"
    using assms by (cases "cb_sock b") (auto simp: cpp_ensure_def rep_net_def idle_def)
  then show ?thesis
    using assms
    by (simp add: cpp_infer_def io_bind_def io_run cpp_next_step_def with_world_def rep_net_def rep_send_def rep_recv_def
        wedged_def split: prod.splits)
qed

lemma cpp_stays_wedged:
  assumes "ce_net env = rep_net serve" and "wedged b w"
  shows "\<exists>b' e. cpp_infer env elapsed request (b, w) = ((b', w), Err e) \<and> wedged b' w"
proof -
  from assms(2) have e: "cpp_ensure env (b, w) = ((b, w), Ok ())" by (auto simp: wedged_def cpp_ensure_def)
  show ?thesis
    using assms e
    by (cases "validate_request (cb_spec b) request"; cases "cpp_message env b (cb_step b) request")
      (auto simp: cpp_infer_def io_bind_def io_run cpp_next_step_def with_world_def rep_net_def rep_send_def wedged_def)
qed

end
