(* ===== verification/Pi05_Hbm.thy ===== *)
theory Pi05_Hbm
  imports Pi05_Tcp "HOL-Library.Sublist" "HOL-Library.List_Lexorder" "HOL-Library.Char_ord"
begin

text \<open>
  The loader of \<open>models/pi05/hbm.py\<close>.  The vendor's runtime, the file system and the text
  of an exception are parameters.  Loading is all or nothing; inference is not
  implemented in the source and always raises.
\<close>

record 'm hbm_env =
  he_is_file :: "string \<Rightarrow> bool"
  he_import :: "unit res"
  he_runtime :: "string \<Rightarrow> 'm res"
  he_text :: "pyerr \<Rightarrow> string"

record 'm hbm =
  hb_paths :: "(string \<times> string) list"
  hb_expected_march :: string
  hb_models :: "(string \<times> 'm) list"
  hb_load_error :: "string option"
  hb_vision :: vb_config
  hb_spec :: model_spec

text \<open>\<open>Path(value)\<close> of every component that is configured.\<close>

definition hbm_paths :: "pydict \<Rightarrow> (string \<times> string) list res" where
  "hbm_paths config =
     mapM (\<lambda>(name, v). case v of PStr s \<Rightarrow> Ok (name, s) | _ \<Rightarrow> Err (TypeError ''expected str or os.PathLike object''))
       (filter (\<lambda>(name, v). py_bool v)
          [(''vision'', dget_none config ''vision_hbm''), (''llm'', dget_none config ''llm_hbm''),
           (''expert'', dget_none config ''expert_hbm'')])"

definition contains :: "string \<Rightarrow> string \<Rightarrow> bool" where
  "contains part s = list_ex (prefix part) (suffixes s)"

definition hbm_message :: "string \<Rightarrow> string \<Rightarrow> string" where
  "hbm_message expected_march message =
     (let low = map lower_char message
      in if contains ''march'' low \<or> contains ''incompatible'' low
         then ''HBM target mismatch (expected '' @ expected_march @ ''); '' @ message @
              ''. Recompile all three graphs with the board march; do not reuse nash-p artifacts on S100/nash-e.''
         else message)"

definition join_commas :: "string list \<Rightarrow> string" where
  "join_commas xs = (case xs of [] \<Rightarrow> [] | y # ys \<Rightarrow> y @ concat (map (\<lambda>z. '', '' @ z) ys))"

definition hbm_load :: "'m hbm_env \<Rightarrow> 'm hbm \<Rightarrow> 'm hbm" where
  "hbm_load env b =
     (let missing = map (\<lambda>(name, path). name @ ''='' @ path) (filter (\<lambda>(name, path). \<not> he_is_file env path) (hb_paths b))
      in if missing \<noteq> [] then b\<lparr>hb_load_error := Some (''missing HBM files: '' @ join_commas missing)\<rparr>
         else (case res_bind (he_import env) (\<lambda>_.
                      mapM (\<lambda>(name, path). res_bind (he_runtime env path) (\<lambda>m. Ok (name, m))) (hb_paths b)) of
                 Ok models \<Rightarrow> b\<lparr>hb_models := models\<rparr>
               | Err e \<Rightarrow> b\<lparr>hb_models := [], hb_load_error := Some (hbm_message (hb_expected_march b) (he_text env e))\<rparr>))"

definition hbm_init ::
    "'m hbm_env \<Rightarrow> (pyval \<Rightarrow> string) \<Rightarrow> (string \<Rightarrow> robot_contract res) \<Rightarrow> pydict \<Rightarrow> 'm hbm res" where
  "hbm_init env show_val robot_of config =
     (let march = py_str show_val (dget_or config ''expected_march'' (PStr ''nash-e''))
      in res_bind (hbm_paths config) (\<lambda>paths.
         res_bind (vb_config_from_mapping (dget_none config ''vision_batching'')) (\<lambda>vision.
         res_bind (pi05_spec show_val robot_of ''pi05-hbm'' config ''Pi05-HBM''
                     [(''expected_march'', PStr march), (''hbm_components'', PList (map (\<lambda>(n, _). PStr n) paths))]
                     100000000) (\<lambda>spec.
           let b = \<lparr>hb_paths = paths, hb_expected_march = march, hb_models = [], hb_load_error = None,
                    hb_vision = vision, hb_spec = spec\<rparr>
           in Ok (if py_bool (dget_or config ''load_on_init'' (PBool True)) then hbm_load env b else b)))))"

text \<open>\<open>if self._load_error\<close>: the empty text counts as no error.\<close>

definition hbm_failed :: "'m hbm \<Rightarrow> bool" where
  "hbm_failed b = (case hb_load_error b of None \<Rightarrow> False | Some s \<Rightarrow> s \<noteq> [])"

definition hbm_ready :: "'m hbm \<Rightarrow> bool" where
  "hbm_ready b = (\<not> hbm_failed b \<and> length (hb_models b) = length (hb_paths b))"

definition hbm_metadata :: "'m hbm \<Rightarrow> pydict" where
  "hbm_metadata b =
     ddisplay (spec_metadata (hb_spec b))
       ([(''vision_batching'', vision_entry (hb_vision b)),
         (''hbm_ready'', PBool (hbm_ready b)),
         (''hbm_loaded_components'', PList (map PStr (sort (map fst (hb_models b)))))] @
        (case hb_load_error b of
           Some s \<Rightarrow> if s \<noteq> [] then [(''hbm_error'', PStr s)] else []
         | None \<Rightarrow> []))"

definition hbm_infer :: "'m hbm \<Rightarrow> infer_req \<Rightarrow> backend_result res" where
  "hbm_infer b request =
     res_bind (validate_request (hb_spec b) request) (\<lambda>_.
       if \<not> hbm_ready b
       then Err (RuntimeError (case hb_load_error b of
              Some s \<Rightarrow> if s \<noteq> [] then s else ''Pi05 HBM components are not loaded''
            | None \<Rightarrow> ''Pi05 HBM components are not loaded''))
       else Err (NotImplementedError ''Pi05 HBM tensor bindings are model-release specific''))"

section \<open>Properties\<close>

text \<open>
  Loading is all or nothing: afterwards either every configured file is loaded, under its
  name and in the order of the configuration, or no model is kept and the reason is
  recorded.
\<close>

theorem hbm_load_all_or_nothing:
  assumes "hb_models b = []" and "hb_load_error b = None"
  shows "case hb_load_error (hbm_load env b) of
      None \<Rightarrow> list_all2 (\<lambda>(name, path) (name', m). name' = name \<and> he_is_file env path \<and> he_runtime env path = Ok m)
        (hb_paths b) (hb_models (hbm_load env b))
    | Some reason \<Rightarrow> hb_models (hbm_load env b) = []"
proof -
  let ?load = "\<lambda>(name, path). res_bind (he_runtime env path) (\<lambda>m. Ok (name, m))"
  show ?thesis
  proof (cases "list_all (\<lambda>(name, path). he_is_file env path) (hb_paths b)")
    case False
    then have "filter (\<lambda>(name, path). \<not> he_is_file env path) (hb_paths b) \<noteq> []"
      by (auto simp: list_all_iff filter_empty_conv)
    with assms show ?thesis by (simp add: hbm_load_def)
  next
    case files: True
    then have none: "filter (\<lambda>(name, path). \<not> he_is_file env path) (hb_paths b) = []"
      by (auto simp: list_all_iff filter_empty_conv)
    show ?thesis
    proof (cases "res_bind (he_import env) (\<lambda>_. mapM ?load (hb_paths b))")
      case (Err e)
      with assms none show ?thesis by (simp add: hbm_load_def)
    next
      case (Ok models)
      then have "list_all2 (\<lambda>p q. ?load p = Ok q) (hb_paths b) models" by (auto simp: mapM_eq_Ok)
      moreover have "list_all (\<lambda>p. he_is_file env (snd p)) (hb_paths b)" using files by (auto simp: list_all_iff)
      ultimately have "list_all2 (\<lambda>(name, path) (name', m). name' = name \<and> he_is_file env path \<and> he_runtime env path = Ok m)
          (hb_paths b) models"
        by (induction rule: list_all2_induct) auto
      with assms none Ok show ?thesis by (simp add: hbm_load_def)
    qed
  qed
qed

text \<open>With no component configured, the backend reports that it is ready; inference raises in any case.\<close>

lemma hbm_ready_vacuous:
  assumes "hb_paths b = []" and "hb_models b = []" and "hb_load_error b = None" and "he_import env = Ok ()"
  shows "hbm_ready (hbm_load env b)"
  using assms by (simp add: hbm_load_def hbm_ready_def hbm_failed_def)

lemma hbm_infer_raises: "\<exists>e. hbm_infer b request = Err e"
  by (cases "validate_request (hb_spec b) request") (auto simp: hbm_infer_def)

end
