(* ===== verification/Fused_Ops.thy ===== *)
theory Fused_Ops
  imports Real_Tensors
begin

text \<open>
  Fused transformer operators (\<open>plugins/fused_ops.py\<close>), over tensors of real
  numbers.  Weight matrices live in a memory and are known by address, shape,
  strides and element type, because the plugin keeps packed weights under a key
  that is made of the address.  PyTorch is a parameter: a record of the kernels
  the native path calls, or \<open>None\<close> where the import fails.
\<close>

section \<open>Configuration\<close>

record fused_config =
  fuc_enabled :: bool
  fuc_prefer :: string

definition fused_config_post_init :: "fused_config \<Rightarrow> fused_config res" where
  "fused_config_post_init c =
     (if fuc_prefer c \<in> {''auto'', ''torch'', ''numpy''} then Ok c
      else Err (ValueError ''fused_ops.prefer must be auto, torch, or numpy''))"

fun fused_config_from_mapping :: "(pyval \<Rightarrow> string) \<Rightarrow> pyval \<Rightarrow> fused_config res" where
  "fused_config_from_mapping show_val (PBool b) = fused_config_post_init \<lparr>fuc_enabled = b, fuc_prefer = ''auto''\<rparr>"
| "fused_config_from_mapping show_val PNone = fused_config_post_init \<lparr>fuc_enabled = False, fuc_prefer = ''auto''\<rparr>"
| "fused_config_from_mapping show_val (PDict d) =
     fused_config_post_init
       \<lparr>fuc_enabled = py_bool (dget_or d ''enabled'' (PBool True)),
        fuc_prefer = py_str show_val (dget_or d ''prefer'' (PStr ''auto''))\<rparr>"
| "fused_config_from_mapping show_val _ = Err (TypeError ''fused_ops must be a boolean or JSON object'')"

section \<open>Arrays in memory\<close>

record warr =
  wa_addr :: int
  wa_rows :: nat
  wa_cols :: nat
  wa_strides :: "int \<times> int"
  wa_dtype :: string

type_synonym memory = "string \<Rightarrow> int \<Rightarrow> real"

definition wa_read :: "memory \<Rightarrow> warr \<Rightarrow> real list list" where
  "wa_read mem w =
     map (\<lambda>i. map (\<lambda>j. mem (wa_dtype w) (wa_addr w + int i * fst (wa_strides w) + int j * snd (wa_strides w)))
       [0 ..< wa_cols w]) [0 ..< wa_rows w]"

text \<open>The part of the key that one weight contributes.\<close>

definition wa_key :: "warr \<Rightarrow> int \<times> (nat \<times> nat) \<times> string" where
  "wa_key w = (wa_addr w, (wa_rows w, wa_cols w), wa_dtype w)"

section \<open>NumPy reference operators\<close>

definition dot :: "real list \<Rightarrow> real list \<Rightarrow> real" where
  "dot xs ys = sum_list (map2 (*) xs ys)"

text \<open>\<open>x @ w.T\<close> on rows.\<close>

definition matmul_t :: "real list list \<Rightarrow> real list list \<Rightarrow> real list list" where
  "matmul_t x w = map (\<lambda>r. map (dot r) w) x"

definition np_linear :: "memory \<Rightarrow> rtensor \<Rightarrow> warr \<Rightarrow> rtensor res" where
  "np_linear mem x w =
     (if rt_shape x = [] \<or> rt_last x \<noteq> wa_cols w then Err (ValueError ''matmul: dimension mismatch'')
      else Ok (of_rows (butlast (rt_shape x)) (wa_rows w) (matmul_t (rt_rows x) (wa_read mem w))))"

text \<open>A projection and its bias, if there is one.\<close>

definition np_affine :: "memory \<Rightarrow> rtensor \<Rightarrow> warr \<Rightarrow> rtensor option \<Rightarrow> rtensor res" where
  "np_affine mem x w b =
     res_bind (np_linear mem x w) (\<lambda>v. case b of None \<Rightarrow> Ok v | Some b \<Rightarrow> np_broadcast (+) v b)"

type_synonym biases = "rtensor option list option"

definition qkv_reference :: "memory \<Rightarrow> rtensor \<Rightarrow> warr list \<Rightarrow> biases \<Rightarrow> rtensor list res" where
  "qkv_reference mem x weights biases =
     (if length weights \<noteq> 3 then Err (ValueError ''qkv expects 3 weight matrices'')
      else let bs = (case biases of None \<Rightarrow> [None, None, None] | Some bs \<Rightarrow> bs)
           in res_bind (mapM (\<lambda>(w, b). np_affine mem x w b) (zip weights bs)) (\<lambda>outputs.
                if length outputs < 3 then Err (IndexError ''list index out of range'') else Ok (take 3 outputs)))"

text \<open>
  Attention works on nested lists \<open>[B, H, T, D]\<close>; the extent of the last axis is
  kept for an array without rows.  \<open>np.einsum\<close> lets two axes of the same letter
  differ when one of them has a single element.
\<close>

record heads =
  hs_dim :: nat
  hs_data :: "real list list list list"

definition zip_axis :: "('a \<Rightarrow> 'b \<Rightarrow> 'c res) \<Rightarrow> 'a list \<Rightarrow> 'b list \<Rightarrow> 'c list res" where
  "zip_axis f xs ys =
     (if length xs = length ys then mapM (\<lambda>(x, y). f x y) (zip xs ys)
      else if length xs = 1 then mapM (f (hd xs)) ys
      else if length ys = 1 then mapM (\<lambda>x. f x (hd ys)) xs
      else Err (ValueError ''operands could not be broadcast together''))"

definition dot_axis :: "real list \<Rightarrow> real list \<Rightarrow> real res" where
  "dot_axis xs ys = res_bind (zip_axis (\<lambda>x y. Ok (x * y)) xs ys) (\<lambda>zs. Ok (sum_list zs))"

text \<open>\<open>np.tri(t_q, t_k, k=t_k - t_q)\<close>\<close>

definition tri_mask :: "nat \<Rightarrow> nat \<Rightarrow> nat \<Rightarrow> nat \<Rightarrow> bool" where
  "tri_mask t_q t_k i j = (int j \<le> int i + (int t_k - int t_q))"

text \<open>A score is \<open>None\<close> where the mask has put minus infinity.\<close>

definition scale_row :: "(nat \<Rightarrow> bool) \<Rightarrow> real \<Rightarrow> real list \<Rightarrow> real option list" where
  "scale_row keep factor s = map (\<lambda>j. if keep j then Some (s ! j * factor) else None) [0 ..< length s]"

text \<open>
  The softmax of a row.  In a row in which every score is minus infinity the
  difference to the maximum is NaN, and so is every weight: \<open>None\<close> in the result.
\<close>

definition exp_score :: "real \<Rightarrow> real option \<Rightarrow> real" where
  "exp_score m x = (case x of None \<Rightarrow> 0 | Some y \<Rightarrow> exp (y - m))"

definition softmax_row :: "real option list \<Rightarrow> real option list" where
  "softmax_row s =
     (let live = List.map_filter id s
      in if live = [] then replicate (length s) None
         else let e = map (exp_score (Max (set live))) s in map (\<lambda>y. Some (y / sum_list e)) e)"

definition mix_axis :: "real option list \<Rightarrow> real list \<Rightarrow> pyfloat res" where
  "mix_axis ws xs =
     res_bind (zip_axis (\<lambda>w x. Ok (map_option (\<lambda>y. y * x) w)) ws xs) (\<lambda>zs.
       Ok (if None \<in> set zs then NaN else Fin (sum_list (map the zs))))"

text \<open>
  One head: the weights of every query, and the rows they mix.  The mask is given
  the two lengths and the two positions.
\<close>

definition head_weights ::
    "(nat \<Rightarrow> nat \<Rightarrow> nat \<Rightarrow> nat \<Rightarrow> bool) \<Rightarrow> real \<Rightarrow> real list list \<Rightarrow> real list list \<Rightarrow> real option list list res" where
  "head_weights keep factor q k =
     mapM (\<lambda>i. if k = [] then Err (ValueError ''zero-size array to reduction operation maximum'')
       else res_bind (mapM (dot_axis (q ! i)) k) (\<lambda>s.
         Ok (softmax_row (scale_row (keep (length q) (length k) i) factor s)))) [0 ..< length q]"

definition head_mix :: "nat \<Rightarrow> real option list list \<Rightarrow> real list list \<Rightarrow> pyfloat list list res" where
  "head_mix d ws v = mapM (\<lambda>w. mapM (\<lambda>c. mix_axis w (map (\<lambda>r. r ! c) v)) [0 ..< d]) ws"

definition attention_with ::
    "(nat \<Rightarrow> nat \<Rightarrow> nat \<Rightarrow> nat \<Rightarrow> bool) \<Rightarrow> heads \<Rightarrow> heads \<Rightarrow> heads \<Rightarrow> bool \<Rightarrow> real option \<Rightarrow>
     pyfloat list list list list res" where
  "attention_with keep q k v causal scale =
     (if scale = None \<and> hs_dim q = 0 then Err (OtherError ''ZeroDivisionError'')
      else let factor = (case scale of Some x \<Rightarrow> x | None \<Rightarrow> 1 / sqrt (real (hs_dim q)));
               keep = (if causal then keep else (\<lambda>_ _ _ _. True))
           in res_bind (zip_axis (zip_axis (head_weights keep factor)) (hs_data q) (hs_data k)) (\<lambda>ws.
                zip_axis (zip_axis (head_mix (hs_dim v))) ws (hs_data v)))"

definition attention_reference ::
    "heads \<Rightarrow> heads \<Rightarrow> heads \<Rightarrow> bool \<Rightarrow> real option \<Rightarrow> pyfloat list list list list res" where
  "attention_reference = attention_with tri_mask"

definition gelu :: "real \<Rightarrow> real" where
  "gelu x = 1 / 2 * x * (1 + tanh (sqrt (2 / pi) * (x + 44715 / 1000000 * x ^ 3)))"

definition rt_map :: "(real \<Rightarrow> real) \<Rightarrow> rtensor \<Rightarrow> rtensor" where
  "rt_map f t = t\<lparr>rt_data := map f (rt_data t)\<rparr>"

definition gelu_mlp_reference ::
    "memory \<Rightarrow> rtensor \<Rightarrow> warr \<Rightarrow> rtensor option \<Rightarrow> warr \<Rightarrow> rtensor option \<Rightarrow> rtensor res" where
  "gelu_mlp_reference mem x w1 b1 w2 b2 =
     res_bind (np_affine mem x w1 b1) (\<lambda>v. np_affine mem (rt_map gelu v) w2 b2)"

text \<open>
  Normalisation of a row, for a positive \<open>eps\<close> (otherwise a constant row would give
  a division by zero, which NumPy turns into NaN).
\<close>

definition row_mean :: "real list \<Rightarrow> real" where
  "row_mean r = sum_list r / real (length r)"

definition row_var :: "real list \<Rightarrow> real" where
  "row_var r = row_mean (map (\<lambda>x. (x - row_mean r)\<^sup>2) r)"

definition norm_row :: "real \<Rightarrow> real list \<Rightarrow> real list" where
  "norm_row eps r = map (\<lambda>x. (x - row_mean r) / sqrt (row_var r + eps)) r"

definition layer_norm_reference ::
    "rtensor \<Rightarrow> rtensor \<Rightarrow> rtensor \<Rightarrow> rtensor option \<Rightarrow> real \<Rightarrow> rtensor res" where
  "layer_norm_reference hidden weight bias residual eps =
     res_bind (case residual of None \<Rightarrow> Ok hidden | Some r \<Rightarrow> np_broadcast (+) hidden r) (\<lambda>x.
       if rt_shape x = [] then Err (OtherError ''AxisError'')
       else res_bind (np_broadcast (*) (of_rows (butlast (rt_shape x)) (rt_last x) (map (norm_row eps) (rt_rows x))) weight)
              (\<lambda>y. np_broadcast (+) y bias))"

section \<open>PyTorch\<close>

text \<open>
  The kernels the native path calls.  Matrices are lists of rows; \<open>tl_linear x w\<close> is
  \<open>x @ w.t()\<close>, \<open>tl_addmm b x w\<close> is \<open>addmm(b, x, w.t())\<close>, \<open>tl_cat\<close> joins matrices and
  \<open>tl_cat1\<close> vectors along the first axis, \<open>tl_split\<close> cuts the columns.
\<close>

record torch_lib =
  tl_cat :: "real list list list \<Rightarrow> real list list res"
  tl_cat1 :: "real list list \<Rightarrow> real list res"
  tl_linear :: "real list list \<Rightarrow> real list list \<Rightarrow> real list list res"
  tl_addmm :: "real list \<Rightarrow> real list list \<Rightarrow> real list list \<Rightarrow> real list list res"
  tl_split :: "nat list \<Rightarrow> real list list \<Rightarrow> real list list list res"
  tl_gelu :: "real list list \<Rightarrow> real list list"
  tl_add :: "rtensor \<Rightarrow> rtensor \<Rightarrow> rtensor res"
  tl_layer_norm :: "rtensor \<Rightarrow> rtensor \<Rightarrow> rtensor \<Rightarrow> real \<Rightarrow> rtensor res"
  tl_sdpa :: "heads \<Rightarrow> heads \<Rightarrow> heads \<Rightarrow> bool \<Rightarrow> real option \<Rightarrow> pyfloat list list list list res"
  tl_device :: string

section \<open>State\<close>

datatype fused_args =
    QkvArgs rtensor "warr list" biases
  | AttendArgs heads heads heads bool "real option"
  | MlpArgs rtensor warr "rtensor option" warr "rtensor option"
  | NormArgs rtensor rtensor rtensor "rtensor option" real

datatype fused_out =
    Projections "rtensor list"
  | Attended "pyfloat list list list list"
  | Hidden rtensor

type_synonym packed_key = "(int \<times> (nat \<times> nat) \<times> string) list"

record fused =
  fu_config :: fused_config
  fu_overrides :: "(string \<times> (fused_args \<Rightarrow> fused_out res)) list"
  fu_device_ready :: bool
  fu_packed :: "(packed_key \<times> real list list) list"
  fu_calls :: "(string \<times> nat \<times> nat) list"

definition OPS :: "string list" where
  "OPS = [''qkv'', ''attention'', ''gelu_mlp'', ''layer_norm'']"

definition fused_init ::
    "fused_config \<Rightarrow> (string \<times> (fused_args \<Rightarrow> fused_out res)) list \<Rightarrow> fused res" where
  "fused_init c overrides =
     (if list_ex (\<lambda>(op, _). op \<notin> set OPS) overrides then Err (ValueError ''unknown fused operator overrides'')
      else Ok \<lparr>fu_config = c, fu_overrides = overrides, fu_device_ready = False, fu_packed = [],
               fu_calls = map (\<lambda>op. (op, 0, 0)) OPS\<rparr>)"

definition torch_available :: "torch_lib option \<Rightarrow> fused \<Rightarrow> bool" where
  "torch_available torch p = (fuc_prefer (fu_config p) \<noteq> ''numpy'' \<and> torch \<noteq> None)"

definition fused_mode :: "torch_lib option \<Rightarrow> fused \<Rightarrow> string" where
  "fused_mode torch p =
     (if \<not> fuc_enabled (fu_config p) then ''disabled''
      else if torch_available torch p then ''native'' else ''fallback'')"

definition use_native :: "torch_lib option \<Rightarrow> fused \<Rightarrow> string \<Rightarrow> bool" where
  "use_native torch p op =
     (if \<not> fuc_enabled (fu_config p) then False
      else if map_of (fu_overrides p) op \<noteq> None then True else torch_available torch p)"

definition fused_record :: "string \<Rightarrow> bool \<Rightarrow> fused \<Rightarrow> fused" where
  "fused_record op native p =
     p\<lparr>fu_calls := map (\<lambda>(name, n, f). if name = op then (name, if native then (n + 1, f) else (n, f + 1)) else (name, n, f))
         (fu_calls p)\<rparr>"

section \<open>Operators\<close>

text \<open>
  The three ways every operator can take: an override, the native kernels, the
  reference.  The native way is counted after its kernels have returned, the
  others before.
\<close>

definition fused_dispatch ::
    "torch_lib option \<Rightarrow> string \<Rightarrow> fused_args \<Rightarrow> (torch_lib \<Rightarrow> fused \<Rightarrow> fused \<times> fused_out res) \<Rightarrow> fused_out res \<Rightarrow>
     fused \<Rightarrow> fused \<times> fused_out res" where
  "fused_dispatch torch op args native reference p =
     (case (if fuc_enabled (fu_config p) then map_of (fu_overrides p) op else None) of
        Some f \<Rightarrow> (fused_record op True p, f args)
      | None \<Rightarrow>
          if use_native torch p op
          then (case torch of
                  None \<Rightarrow> (p, Err (OtherError ''AttributeError''))
                | Some T \<Rightarrow>
                    (case native T p of
                       (p', Err e) \<Rightarrow> (p', Err e)
                     | (p', Ok r) \<Rightarrow> (fused_record op True p', Ok r)))
          else (fused_record op False p, reference))"

abbreviation on_device :: "fused \<Rightarrow> fused" where
  "on_device p \<equiv> p\<lparr>fu_device_ready := True\<rparr>"

text \<open>The packed weights: from the cache, or joined and kept.\<close>

definition pack_weights :: "torch_lib \<Rightarrow> memory \<Rightarrow> warr list \<Rightarrow> fused \<Rightarrow> fused \<times> real list list res" where
  "pack_weights T mem weights p =
     (let key = map wa_key weights
      in case map_of (fu_packed p) key of
           Some packed \<Rightarrow> (p, Ok packed)
         | None \<Rightarrow>
             (case tl_cat T (map (wa_read mem) weights) of
                Err e \<Rightarrow> (on_device p, Err e)
              | Ok packed \<Rightarrow> ((on_device p)\<lparr>fu_packed := fu_packed p @ [(key, packed)]\<rparr>, Ok packed)))"

text \<open>
  \<open>reshape(-1, x.shape[-1])\<close> of a tensor; without a last extent the size \<open>-1\<close> is
  ambiguous.
\<close>

definition flat_rows :: "rtensor \<Rightarrow> real list list res" where
  "flat_rows x =
     (if rt_shape x = [] then Err (IndexError ''Dimension out of range'')
      else if rt_last x = 0 then Err (RuntimeError ''cannot reshape tensor of 0 elements'')
      else Ok (rt_rows x))"

definition fused_gemm :: "torch_lib \<Rightarrow> real list list \<Rightarrow> nat list \<Rightarrow> rtensor \<Rightarrow> biases \<Rightarrow> rtensor list res" where
  "fused_gemm T packed outs x biases =
     res_bind (flat_rows x) (\<lambda>flat.
     res_bind
       (case biases of
          Some bs \<Rightarrow>
            if list_ex (\<lambda>b. b \<noteq> None) bs
            then res_bind (tl_cat1 T (map2 (\<lambda>b out. case b of Some v \<Rightarrow> rt_data v | None \<Rightarrow> replicate out 0) bs outs))
                   (\<lambda>bias. tl_addmm T bias flat packed)
            else tl_linear T flat packed
        | None \<Rightarrow> tl_linear T flat packed) (\<lambda>fused.
     res_bind (tl_split T outs fused) (\<lambda>parts.
       Ok (map2 (\<lambda>part out. of_rows (butlast (rt_shape x)) out part) parts outs))))"

definition native_qkv ::
    "memory \<Rightarrow> rtensor \<Rightarrow> warr list \<Rightarrow> biases \<Rightarrow> torch_lib \<Rightarrow> fused \<Rightarrow> fused \<times> fused_out res" where
  "native_qkv mem x weights biases T p =
     (case pack_weights T mem weights p of
        (p', Err e) \<Rightarrow> (p', Err e)
      | (p', Ok packed) \<Rightarrow>
          (on_device p', res_bind (fused_gemm T packed (map wa_rows weights) x biases) (\<lambda>r. Ok (Projections r))))"

definition project_qkv ::
    "torch_lib option \<Rightarrow> memory \<Rightarrow> rtensor \<Rightarrow> warr list \<Rightarrow> biases \<Rightarrow> fused \<Rightarrow> fused \<times> fused_out res" where
  "project_qkv torch mem x weights biases =
     fused_dispatch torch ''qkv'' (QkvArgs x weights biases) (native_qkv mem x weights biases)
       (res_bind (qkv_reference mem x weights biases) (\<lambda>r. Ok (Projections r)))"

definition attend ::
    "torch_lib option \<Rightarrow> heads \<Rightarrow> heads \<Rightarrow> heads \<Rightarrow> bool \<Rightarrow> real option \<Rightarrow> fused \<Rightarrow> fused \<times> fused_out res" where
  "attend torch q k v causal scale =
     fused_dispatch torch ''attention'' (AttendArgs q k v causal scale)
       (\<lambda>T p. (on_device p, res_bind (tl_sdpa T q k v causal scale) (\<lambda>r. Ok (Attended r))))
       (res_bind (attention_reference q k v causal scale) (\<lambda>r. Ok (Attended r)))"

text \<open>\<open>addmm\<close> or a plain product.\<close>

definition torch_affine ::
    "torch_lib \<Rightarrow> real list list \<Rightarrow> real list list \<Rightarrow> rtensor option \<Rightarrow> real list list res" where
  "torch_affine T x w b = (case b of Some b \<Rightarrow> tl_addmm T (rt_data b) x w | None \<Rightarrow> tl_linear T x w)"

definition native_mlp ::
    "memory \<Rightarrow> rtensor \<Rightarrow> warr \<Rightarrow> rtensor option \<Rightarrow> warr \<Rightarrow> rtensor option \<Rightarrow> torch_lib \<Rightarrow> fused \<Rightarrow>
     fused \<times> fused_out res" where
  "native_mlp mem x w1 b1 w2 b2 T p =
     (on_device p,
      res_bind (flat_rows x) (\<lambda>flat.
      res_bind (torch_affine T flat (wa_read mem w1) b1) (\<lambda>y.
      res_bind (torch_affine T (tl_gelu T y) (wa_read mem w2) b2) (\<lambda>z.
        Ok (Hidden (of_rows (butlast (rt_shape x)) (wa_rows w2) z))))))"

definition gelu_mlp ::
    "torch_lib option \<Rightarrow> memory \<Rightarrow> rtensor \<Rightarrow> warr \<Rightarrow> rtensor option \<Rightarrow> warr \<Rightarrow> rtensor option \<Rightarrow> fused \<Rightarrow>
     fused \<times> fused_out res" where
  "gelu_mlp torch mem x w1 b1 w2 b2 =
     fused_dispatch torch ''gelu_mlp'' (MlpArgs x w1 b1 w2 b2) (native_mlp mem x w1 b1 w2 b2)
       (res_bind (gelu_mlp_reference mem x w1 b1 w2 b2) (\<lambda>r. Ok (Hidden r)))"

definition native_norm ::
    "rtensor \<Rightarrow> rtensor \<Rightarrow> rtensor \<Rightarrow> rtensor option \<Rightarrow> real \<Rightarrow> torch_lib \<Rightarrow> fused \<Rightarrow> fused \<times> fused_out res" where
  "native_norm hidden weight bias residual eps T p =
     (on_device p,
      res_bind (case residual of None \<Rightarrow> Ok hidden | Some r \<Rightarrow> tl_add T hidden r) (\<lambda>x.
      res_bind (tl_layer_norm T x weight bias eps) (\<lambda>y. Ok (Hidden y))))"

definition layer_norm ::
    "torch_lib option \<Rightarrow> rtensor \<Rightarrow> rtensor \<Rightarrow> rtensor \<Rightarrow> rtensor option \<Rightarrow> real \<Rightarrow> fused \<Rightarrow> fused \<times> fused_out res" where
  "layer_norm torch hidden weight bias residual eps =
     fused_dispatch torch ''layer_norm'' (NormArgs hidden weight bias residual eps)
       (native_norm hidden weight bias residual eps)
       (res_bind (layer_norm_reference hidden weight bias residual eps) (\<lambda>r. Ok (Hidden r)))"

definition fused_reset :: "fused \<Rightarrow> fused" where
  "fused_reset p = p\<lparr>fu_packed := [], fu_calls := map (\<lambda>op. (op, 0, 0)) OPS\<rparr>"

definition fused_metadata :: "torch_lib option \<Rightarrow> fused \<Rightarrow> (string \<times> pyval) list" where
  "fused_metadata torch p =
     [(''enabled'', PBool (fuc_enabled (fu_config p))), (''mode'', PStr (fused_mode torch p)),
      (''prefer'', PStr (fuc_prefer (fu_config p))),
      (''backend'', PStr (case torch of
          None \<Rightarrow> ''none'' | Some T \<Rightarrow> if fu_device_ready p then ''torch-'' @ tl_device T else ''torch'')),
      (''packed_weights'', PInt (int (length (fu_packed p)))),
      (''calls'', PDict (map (\<lambda>(name, n, f). (PStr name, PDict [(PStr ''native'', PInt (int n)), (PStr ''fallback'', PInt (int f))]))
         (fu_calls p)))]"

text \<open>A call, and a sequence of calls.\<close>

fun fused_call :: "torch_lib option \<Rightarrow> memory \<Rightarrow> fused_args \<Rightarrow> fused \<Rightarrow> fused \<times> fused_out res" where
  "fused_call torch mem (QkvArgs x ws bs) p = project_qkv torch mem x ws bs p"
| "fused_call torch mem (AttendArgs q k v causal scale) p = attend torch q k v causal scale p"
| "fused_call torch mem (MlpArgs x w1 b1 w2 b2) p = gelu_mlp torch mem x w1 b1 w2 b2 p"
| "fused_call torch mem (NormArgs x w b r eps) p = layer_norm torch x w b r eps p"

fun fused_run :: "torch_lib option \<Rightarrow> memory \<Rightarrow> fused_args list \<Rightarrow> fused \<Rightarrow> fused \<times> fused_out res list" where
  "fused_run torch mem [] p = (p, [])"
| "fused_run torch mem (a # as) p =
     (case fused_call torch mem a p of
        (p', r) \<Rightarrow> (case fused_run torch mem as p' of (p'', rs) \<Rightarrow> (p'', r # rs)))"

section \<open>What PyTorch documents\<close>

fun split_cols :: "nat list \<Rightarrow> real list list \<Rightarrow> real list list list" where
  "split_cols [] m = []"
| "split_cols (n # ns) m = map (take n) m # split_cols ns (map (drop n) m)"

definition heads_shape :: "nat \<Rightarrow> nat \<Rightarrow> nat \<Rightarrow> nat \<Rightarrow> heads \<Rightarrow> bool" where
  "heads_shape b h t d x =
     (hs_dim x = d \<and> length (hs_data x) = b \<and>
      list_all (\<lambda>y. length y = h \<and> list_all (\<lambda>m. length m = t \<and> rows_wide d m) y) (hs_data x))"

text \<open>\<open>is_causal\<close> masks with \<open>torch.ones(L, S).tril(diagonal=0)\<close>.\<close>

definition torch_mask :: "nat \<Rightarrow> nat \<Rightarrow> nat \<Rightarrow> nat \<Rightarrow> bool" where
  "torch_mask t_q t_k i j = (j \<le> i)"

definition torch_documented :: "torch_lib \<Rightarrow> bool" where
  "torch_documented T =
     ((\<forall>c ms. ms \<noteq> [] \<longrightarrow> list_all (rows_wide c) ms \<longrightarrow> tl_cat T ms = Ok (concat ms)) \<and>
      (\<forall>vs. vs \<noteq> [] \<longrightarrow> tl_cat1 T vs = Ok (concat vs)) \<and>
      (\<forall>c x w. rows_wide c x \<longrightarrow> rows_wide c w \<longrightarrow> tl_linear T x w = Ok (matmul_t x w)) \<and>
      (\<forall>c b x w. rows_wide c x \<longrightarrow> rows_wide c w \<longrightarrow> length b = length w \<longrightarrow>
         tl_addmm T b x w = Ok (map (map2 (+) b) (matmul_t x w))) \<and>
      (\<forall>outs m. rows_wide (sum_list outs) m \<longrightarrow> tl_split T outs m = Ok (split_cols outs m)) \<and>
      (\<forall>m. tl_gelu T m = map (map gelu) m) \<and>
      (\<forall>x y z. np_broadcast (+) x y = Ok z \<longrightarrow> tl_add T x y = Ok z) \<and>
      (\<forall>lead d rows w b eps. rows_wide d rows \<longrightarrow> length rows = prod_list lead \<longrightarrow> length w = d \<longrightarrow> length b = d \<longrightarrow> 0 < eps \<longrightarrow>
         tl_layer_norm T (of_rows lead d rows) \<lparr>rt_shape = [d], rt_data = w\<rparr> \<lparr>rt_shape = [d], rt_data = b\<rparr> eps =
           Ok (of_rows lead d (map (\<lambda>r. map2 (+) (map2 (*) (norm_row eps r) w) b) rows))) \<and>
      (\<forall>b h t_q t_k d d_v q k v causal scale.
         heads_shape b h t_q d q \<longrightarrow> heads_shape b h t_k d k \<longrightarrow> heads_shape b h t_k d_v v \<longrightarrow> 0 < d \<longrightarrow> 0 < t_k \<longrightarrow>
         tl_sdpa T q k v causal scale = attention_with torch_mask q k v causal scale))"

text \<open>The shapes of a transformer block.\<close>

definition vector_of :: "nat \<Rightarrow> rtensor \<Rightarrow> bool" where
  "vector_of d b = (rt_shape b = [d] \<and> length (rt_data b) = d)"

definition bias_of :: "nat \<Rightarrow> rtensor option \<Rightarrow> bool" where
  "bias_of d b = (case b of None \<Rightarrow> True | Some v \<Rightarrow> vector_of d v)"

definition tokens_ok :: "rtensor \<Rightarrow> bool" where
  "tokens_ok x = (rt_wf x \<and> rt_shape x \<noteq> [] \<and> 0 < rt_last x)"

fun call_ok :: "fused_args \<Rightarrow> bool" where
  "call_ok (QkvArgs x ws bs) =
     (tokens_ok x \<and> length ws = 3 \<and> list_all (\<lambda>w. wa_cols w = rt_last x) ws \<and>
      (case bs of None \<Rightarrow> True | Some bs \<Rightarrow> list_all2 (\<lambda>w b. bias_of (wa_rows w) b) ws bs))"
| "call_ok (AttendArgs q k v causal scale) =
     (\<exists>b h t_q t_k d d_v. heads_shape b h t_q d q \<and> heads_shape b h t_k d k \<and> heads_shape b h t_k d_v v \<and>
        0 < d \<and> 0 < t_k \<and> (causal \<longrightarrow> t_q = t_k))"
| "call_ok (MlpArgs x w1 b1 w2 b2) =
     (tokens_ok x \<and> wa_cols w1 = rt_last x \<and> wa_cols w2 = wa_rows w1 \<and> bias_of (wa_rows w1) b1 \<and> bias_of (wa_rows w2) b2)"
| "call_ok (NormArgs x w b r eps) =
     (tokens_ok x \<and> vector_of (rt_last x) w \<and> vector_of (rt_last x) b \<and> 0 < eps \<and>
      (case r of None \<Rightarrow> True | Some r \<Rightarrow> rt_wf r \<and> rt_shape r = rt_shape x))"

fun packed_of :: "fused_args \<Rightarrow> warr set" where
  "packed_of (QkvArgs x ws bs) = set ws"
| "packed_of _ = {}"

section \<open>The packed product\<close>

lemma wa_read_wide [simp]: "rows_wide (wa_cols w) (wa_read mem w)" "length (wa_read mem w) = wa_rows w"
  by (simp_all add: wa_read_def rows_wide_def list_all_iff)

lemma matmul_t_wide [simp]: "rows_wide (length w) (matmul_t x w)" "length (matmul_t x w) = length x"
  by (simp_all add: matmul_t_def rows_wide_def list_all_iff)

lemma split_cols_concat:
  "(\<And>r z. r \<in> set x \<Longrightarrow> z \<in> set zs \<Longrightarrow> length (g r z) = out z) \<Longrightarrow>
   split_cols (map out zs) (map (\<lambda>r. concat (map (g r) zs)) x) = map (\<lambda>z. map (\<lambda>r. g r z) x) zs"
  by (induction zs) (simp_all add: comp_def cong: map_cong)

lemma map2_concat:
  "list_all2 (\<lambda>x y. length x = length y) xs ys \<Longrightarrow> map2 f (concat xs) (concat ys) = concat (map2 (map2 f) xs ys)"
  by (induction rule: list_all2_induct) (simp_all add: zip_append)

text \<open>The rows of one projection, with its bias.\<close>

definition affine_rows :: "memory \<Rightarrow> real list list \<Rightarrow> warr \<Rightarrow> rtensor option \<Rightarrow> real list list" where
  "affine_rows mem rows w b =
     map (\<lambda>r. map2 (+) (case b of None \<Rightarrow> replicate (wa_rows w) 0 | Some v \<Rightarrow> rt_data v) (map (dot r) (wa_read mem w))) rows"

lemma map2_zero: "length xs = n \<Longrightarrow> map2 (+) (replicate n 0) xs = (xs :: real list)"
  by (auto intro!: nth_equalityI)

lemma map2_add_commute: "map2 (+) xs ys = map2 (+) ys (xs :: real list)"
  by (rule nth_equalityI) simp_all

lemma np_affine_rows:
  assumes x: "rt_wf x" "rt_shape x \<noteq> []" and "wa_cols w = rt_last x" and "bias_of (wa_rows w) b"
  shows "np_affine mem x w b = Ok (of_rows (butlast (rt_shape x)) (wa_rows w) (affine_rows mem (rt_rows x) w b))"
proof -
  note wide = rt_rows_wide [OF x]
  have w: "rows_wide (wa_rows w) (matmul_t (rt_rows x) (wa_read mem w))"
    using matmul_t_wide(1) [of "wa_read mem w" "rt_rows x"] by simp
  show ?thesis
  proof (cases b)
    case None
    then show ?thesis
      using x assms(3) by (simp add: np_affine_def np_linear_def affine_rows_def matmul_t_def map2_zero)
  next
    case (Some v)
    with assms(4) have v: "v = \<lparr>rt_shape = [wa_rows w], rt_data = rt_data v\<rparr>" "length (rt_data v) = wa_rows w"
      by (cases v; simp add: bias_of_def vector_of_def)+
    have "np_broadcast (+) (of_rows (butlast (rt_shape x)) (wa_rows w) (matmul_t (rt_rows x) (wa_read mem w))) v =
        Ok (of_rows (butlast (rt_shape x)) (wa_rows w) (map (\<lambda>r. map2 (+) r (rt_data v)) (matmul_t (rt_rows x) (wa_read mem w))))"
      using np_broadcast_vector [OF w _ v(2), of "butlast (rt_shape x)" "(+)"] wide(2) v(1) by simp
    then show ?thesis
      using x assms(3) Some
      by (simp add: np_affine_def np_linear_def affine_rows_def matmul_t_def comp_def map2_add_commute [of _ "rt_data v"])
  qed
qed

lemma concat_matmul: "matmul_t x (concat ms) = map (\<lambda>r. concat (map (map (dot r)) ms)) x"
  by (simp add: matmul_t_def map_concat)

lemma sum_rows: "length (concat (map (wa_read mem) ws)) = sum_list (map wa_rows ws)"
  by (simp add: length_concat comp_def)

lemma wide_concat: "list_all (\<lambda>w. wa_cols w = d) ws \<Longrightarrow> rows_wide d (concat (map (wa_read mem) ws))"
proof (induction ws)
  case (Cons w ws)
  then show ?case using wa_read_wide(1) [of w mem] by (simp add: rows_wide_def)
qed simp

text \<open>One product with the joined weights is the projections side by side.\<close>

lemma split_product:
  assumes "list_all2 (\<lambda>w b. bias_of (wa_rows w) b) ws bs"
  shows "split_cols (map wa_rows ws)
      (map (map2 (+) (concat (map2 (\<lambda>b out. case b of Some v \<Rightarrow> rt_data v | None \<Rightarrow> replicate out 0) bs (map wa_rows ws))))
        (matmul_t rows (concat (map (wa_read mem) ws)))) =
    map2 (affine_rows mem rows) ws bs"
proof -
  define g where "g r z = (case z of (w, b) \<Rightarrow> map2 (+) (case b of Some v \<Rightarrow> rt_data v | None \<Rightarrow> replicate (wa_rows w) 0)
    (map (dot r) (wa_read mem w)))" for r and z :: "warr \<times> rtensor option"
  have len: "length (g r (w, b)) = wa_rows w" if "(w, b) \<in> set (zip ws bs)" for r w b
    using assms that by (auto simp: g_def list_all2_iff bias_of_def vector_of_def split: option.splits)
  have "map2 (+) (concat (map2 (\<lambda>b out. case b of Some v \<Rightarrow> rt_data v | None \<Rightarrow> replicate out 0) bs (map wa_rows ws)))
      (concat (map (map (dot r)) (map (wa_read mem) ws))) = concat (map (g r) (zip ws bs))" for r
    using assms
  proof (induction rule: list_all2_induct)
    case (Cons w ws b bs)
    then show ?case
      by (cases b) (simp_all add: g_def zip_append bias_of_def vector_of_def)
  qed simp
  then have "map (map2 (+) (concat (map2 (\<lambda>b out. case b of Some v \<Rightarrow> rt_data v | None \<Rightarrow> replicate out 0) bs (map wa_rows ws))))
        (matmul_t rows (concat (map (wa_read mem) ws))) = map (\<lambda>r. concat (map (g r) (zip ws bs))) rows"
    by (simp add: concat_matmul)
  moreover have "map wa_rows ws = map (\<lambda>z. wa_rows (fst z)) (zip ws bs)"
    using assms by (induction rule: list_all2_induct) simp_all
  ultimately show ?thesis
    using split_cols_concat [of rows "zip ws bs" g "\<lambda>z. wa_rows (fst z)"] len
    by (auto simp: g_def affine_rows_def case_prod_unfold)
qed

lemma fused_gemm_reference:
  assumes T: "torch_documented T" and ok: "call_ok (QkvArgs x ws bs)"
  shows "fused_gemm T (concat (map (wa_read mem) ws)) (map wa_rows ws) x bs = qkv_reference mem x ws bs"
proof -
  define bl where "bl = (case bs of None \<Rightarrow> [None, None, None] | Some l \<Rightarrow> l)"
  define bias where "bias = concat (map2 (\<lambda>b out. case b of Some v \<Rightarrow> rt_data v | None \<Rightarrow> replicate out 0) bl (map wa_rows ws))"
  let ?W = "concat (map (wa_read mem) ws)" and ?rows = "rt_rows x" and ?lead = "butlast (rt_shape x)"
  from ok have x: "tokens_ok x" and n: "length ws = 3" and c: "list_all (\<lambda>w. wa_cols w = rt_last x) ws" by simp_all
  have bl: "list_all2 (\<lambda>w b. bias_of (wa_rows w) b) ws bl"
  proof (cases bs)
    case None
    with n show ?thesis by (auto simp: bl_def bias_of_def length_Suc_conv numeral_3_eq_3)
  qed (use ok in \<open>simp add: bl_def\<close>)
  have wide: "rows_wide (rt_last x) ?rows" "rows_wide (rt_last x) ?W"
    using x rt_rows_wide(1) [of x] wide_concat [OF c] by (simp_all add: tokens_ok_def)
  have lb: "length bias = length ?W"
    using bl unfolding bias_def sum_rows
    by (induction rule: list_all2_induct) (auto simp: bias_of_def vector_of_def split: option.splits)
  have flat: "flat_rows x = Ok ?rows" using x by (simp add: tokens_ok_def flat_rows_def)
  have "(case bs of
          Some l \<Rightarrow>
            if list_ex (\<lambda>b. b \<noteq> None) l
            then res_bind (tl_cat1 T (map2 (\<lambda>b out. case b of Some v \<Rightarrow> rt_data v | None \<Rightarrow> replicate out 0) l (map wa_rows ws)))
                   (\<lambda>bias. tl_addmm T bias ?rows ?W)
            else tl_linear T ?rows ?W
        | None \<Rightarrow> tl_linear T ?rows ?W) = Ok (map (map2 (+) bias) (matmul_t ?rows ?W))" (is "?fused = _")
  proof (cases "list_ex (\<lambda>b. b \<noteq> None) bl")
    case True
    then obtain l where l: "bs = Some l" "bl = l" by (cases bs) (auto simp: bl_def)
    have ne: "map2 (\<lambda>b out. case b of Some v \<Rightarrow> rt_data v | None \<Rightarrow> replicate out 0) bl (map wa_rows ws) \<noteq> []"
      using bl n by (auto dest: list_all2_lengthD)
    with T wide lb True l show ?thesis unfolding torch_documented_def bias_def by simp
  next
    case False
    then have "bl = replicate (length ws) None"
      using bl by (auto simp: list_ex_iff dest!: list_all2_lengthD intro!: replicate_eqI)
    then have "bias = replicate (length ?W) 0"
      using lb by (auto simp: bias_def dest!: set_zip_leftD split: option.splits intro!: replicate_eqI)
    then have "map (map2 (+) bias) (matmul_t ?rows ?W) = matmul_t ?rows ?W"
      by (auto simp: matmul_t_def map2_zero)
    with T wide False show ?thesis by (cases bs) (auto simp: torch_documented_def bl_def)
  qed
  moreover have "tl_split T (map wa_rows ws) (map (map2 (+) bias) (matmul_t ?rows ?W)) = Ok (map2 (affine_rows mem ?rows) ws bl)"
  proof -
    have "rows_wide (sum_list (map wa_rows ws)) (map (map2 (+) bias) (matmul_t ?rows ?W))"
      using lb by (auto intro!: rows_wide_map simp: sum_rows matmul_t_def)
    with T have "tl_split T (map wa_rows ws) (map (map2 (+) bias) (matmul_t ?rows ?W)) =
        Ok (split_cols (map wa_rows ws) (map (map2 (+) bias) (matmul_t ?rows ?W)))" by (simp add: torch_documented_def)
    then show ?thesis using split_product [OF bl, of ?rows mem] by (simp add: bias_def)
  qed
  ultimately have "fused_gemm T ?W (map wa_rows ws) x bs =
      Ok (map2 (\<lambda>part out. of_rows ?lead out part) (map2 (affine_rows mem ?rows) ws bl) (map wa_rows ws))"
    unfolding fused_gemm_def flat by simp
  also have "map2 (\<lambda>part out. of_rows ?lead out part) (map2 (affine_rows mem ?rows) ws bl) (map wa_rows ws) =
      map (\<lambda>(w, b). of_rows ?lead (wa_rows w) (affine_rows mem ?rows w b)) (zip ws bl)"
    using bl by (induction rule: list_all2_induct) simp_all
  also have "Ok \<dots> = mapM (\<lambda>(w, b). np_affine mem x w b) (zip ws bl)"
    using x bl c by (intro mapM_cong_Ok [symmetric])
      (auto simp: list_all2_iff list_all_iff tokens_ok_def intro!: np_affine_rows dest: set_zip_leftD)
  finally show ?thesis
    using n list_all2_lengthD [OF bl] mapM_length [of "\<lambda>(w, b). np_affine mem x w b" "zip ws bl"]
    by (cases "mapM (\<lambda>(w, b). np_affine mem x w b) (zip ws bl)") (auto simp: qkv_reference_def bl_def [symmetric] Let_def)
qed

section \<open>The other operators\<close>

lemma torch_affine_rows:
  assumes "torch_documented T" and "rows_wide (wa_cols w) rows" and "bias_of (wa_rows w) b"
  shows "torch_affine T rows (wa_read mem w) b = Ok (affine_rows mem rows w b)"
  using assms by (cases b)
    (simp_all add: torch_documented_def torch_affine_def affine_rows_def matmul_t_def bias_of_def vector_of_def map2_zero comp_def)

lemma affine_rows_wide: "bias_of (wa_rows w) b \<Longrightarrow> rows_wide (wa_rows w) (affine_rows mem rows w b)"
  "length (affine_rows mem rows w b) = length rows"
  by (auto simp: affine_rows_def bias_of_def vector_of_def split: option.splits intro!: rows_wide_map)

lemma rt_map_of_rows: "rt_map f (of_rows lead d rows) = of_rows lead d (map (map f) rows)"
  by (simp add: rt_map_def of_rows_def map_concat)

lemma native_mlp_reference:
  assumes T: "torch_documented T" and ok: "call_ok (MlpArgs x w1 b1 w2 b2)"
  shows "snd (native_mlp mem x w1 b1 w2 b2 T p) = res_bind (gelu_mlp_reference mem x w1 b1 w2 b2) (\<lambda>r. Ok (Hidden r))"
proof -
  let ?rows = "rt_rows x" and ?lead = "butlast (rt_shape x)"
  let ?y = "map (map gelu) (affine_rows mem ?rows w1 b1)"
  from ok have x: "tokens_ok x" and w: "wa_cols w1 = rt_last x" "wa_cols w2 = wa_rows w1"
    and b: "bias_of (wa_rows w1) b1" "bias_of (wa_rows w2) b2" by simp_all
  have rows: "rows_wide (wa_cols w1) ?rows" "length ?rows = prod_list ?lead"
    using x w rt_rows_wide [of x] by (simp_all add: tokens_ok_def)
  have y: "rows_wide (wa_cols w2) ?y" "length ?y = prod_list ?lead"
    using affine_rows_wide(1) [OF b(1), of mem ?rows] affine_rows_wide(2) [of mem ?rows w1 b1] rows w by (auto simp: rows_wide_def list_all_iff)
  have "snd (native_mlp mem x w1 b1 w2 b2 T p) = Ok (Hidden (of_rows ?lead (wa_rows w2) (affine_rows mem ?y w2 b2)))"
    using x T torch_affine_rows [OF T rows(1) b(1)] torch_affine_rows [OF T y(1) b(2)]
    by (simp add: native_mlp_def flat_rows_def tokens_ok_def) (simp add: torch_documented_def)
  moreover have "np_affine mem (of_rows ?lead (wa_rows w1) ?y) w2 b2 =
      Ok (of_rows ?lead (wa_rows w2) (affine_rows mem ?y w2 b2))"
    using np_affine_rows [OF _ _ _ b(2), of "of_rows ?lead (wa_rows w1) ?y" mem] y w by (simp add: of_rows_wf)
  ultimately show ?thesis
    using np_affine_rows [OF _ _ w(1) b(1)] x by (simp add: gelu_mlp_reference_def rt_map_of_rows tokens_ok_def)
qed

lemma native_norm_reference:
  assumes T: "torch_documented T" and ok: "call_ok (NormArgs x w b r eps)"
  shows "snd (native_norm x w b r eps T p) = res_bind (layer_norm_reference x w b r eps) (\<lambda>y. Ok (Hidden y))"
proof -
  let ?d = "rt_last x" and ?lead = "butlast (rt_shape x)"
  from ok have x: "rt_wf x" "rt_shape x \<noteq> []" and e: "0 < eps" by (simp_all add: tokens_ok_def)
  obtain wd bd where w: "w = \<lparr>rt_shape = [?d], rt_data = wd\<rparr>" "length wd = ?d"
    and b: "b = \<lparr>rt_shape = [?d], rt_data = bd\<rparr>" "length bd = ?d"
    using ok by (cases w; cases b) (simp add: vector_of_def)
  define y where "y = (case r of None \<Rightarrow> x | Some r \<Rightarrow> \<lparr>rt_shape = rt_shape x, rt_data = map2 (+) (rt_data x) (rt_data r)\<rparr>)"
  have y: "rt_wf y" "rt_shape y = rt_shape x" using ok x by (auto simp: y_def rt_wf_def split: option.splits)
  have sum: "(case r of None \<Rightarrow> Ok x | Some r \<Rightarrow> np_broadcast (+) x r) = Ok y"
    using ok x np_broadcast_same [of x] by (auto simp: y_def split: option.splits)
  then have tsum: "(case r of None \<Rightarrow> Ok x | Some r \<Rightarrow> tl_add T x r) = Ok y"
    using T by (auto simp: torch_documented_def split: option.splits)
  have rows: "rows_wide ?d (rt_rows y)" "length (rt_rows y) = prod_list ?lead" "concat (rt_rows y) = rt_data y"
    using rt_rows_wide [of y] y x by (simp_all add: rt_last_def)
  have yr: "y = of_rows ?lead ?d (rt_rows y)"
    using rows(3) y x by (intro rt_eqI) (simp_all add: of_rows_def rt_last_def)
  have n: "rows_wide ?d (map (norm_row eps) (rt_rows y))"
    using rows(1) by (auto simp: rows_wide_def list_all_iff norm_row_def)
  have m: "rows_wide ?d (map (\<lambda>z. map2 (*) z wd) (map (norm_row eps) (rt_rows y)))"
    using n w(2) by (auto simp: rows_wide_def list_all_iff)
  have "tl_layer_norm T y w b eps =
      Ok (of_rows ?lead ?d (map (\<lambda>z. map2 (+) (map2 (*) (norm_row eps z) wd) bd) (rt_rows y)))"
    unfolding w(1) b(1) using T rows(1,2) w(2) b(2) e by (subst yr) (simp add: torch_documented_def)
  moreover have "layer_norm_reference x w b r eps =
      Ok (of_rows ?lead ?d (map (\<lambda>z. map2 (+) (map2 (*) (norm_row eps z) wd) bd) (rt_rows y)))"
    using np_broadcast_vector [OF n _ w(2), of ?lead "(*)"] np_broadcast_vector [OF m _ b(2), of ?lead "(+)"]
      rows(2) w(1) b(1) sum x y
    by (simp add: layer_norm_reference_def rt_last_def comp_def)
  ultimately show ?thesis using tsum by (simp add: native_norm_def)
qed

lemma zip_axis_cong:
  assumes "\<And>x y. x \<in> set xs \<Longrightarrow> y \<in> set ys \<Longrightarrow> f x y = g x y"
  shows "zip_axis f xs ys = zip_axis g xs ys"
proof -
  have "length xs = 1 \<Longrightarrow> hd xs \<in> set xs" "length ys = 1 \<Longrightarrow> hd ys \<in> set ys" by (auto intro: list.set_sel)
  with assms show ?thesis
    by (auto simp: zip_axis_def intro!: mapM_cong dest: set_zip_leftD set_zip_rightD)
qed

lemma head_weights_square:
  "length q = length k \<Longrightarrow> head_weights tri_mask factor q k = head_weights torch_mask factor q k"
proof -
  have "tri_mask n n i = torch_mask n n i" for n i by (auto simp: tri_mask_def torch_mask_def)
  then show "length q = length k \<Longrightarrow> ?thesis" by (auto simp: head_weights_def intro!: mapM_cong)
qed

lemma attention_square:
  assumes "heads_shape b h t d q" and "heads_shape b h t d' k"
  shows "attention_with torch_mask q k v causal scale = attention_reference q k v causal scale"
proof -
  have "zip_axis (zip_axis (head_weights torch_mask factor)) (hs_data q) (hs_data k) =
      zip_axis (zip_axis (head_weights tri_mask factor)) (hs_data q) (hs_data k)" for factor
    using assms by (intro zip_axis_cong head_weights_square [symmetric]) (auto simp: heads_shape_def list_all_iff)
  then show ?thesis by (cases causal) (simp_all add: attention_reference_def attention_with_def)
qed

section \<open>The packed weights\<close>

text \<open>Every packed entry for weights of \<open>W\<close> is what the memory holds for them.\<close>

definition packed_fresh :: "memory \<Rightarrow> warr set \<Rightarrow> fused \<Rightarrow> bool" where
  "packed_fresh mem W p =
     (\<forall>ws m. set ws \<subseteq> W \<longrightarrow> map_of (fu_packed p) (map wa_key ws) = Some m \<longrightarrow> m = concat (map (wa_read mem) ws))"

lemma packed_fresh_record [simp]:
  "packed_fresh mem W (fused_record op native p) = packed_fresh mem W p"
  "packed_fresh mem W (on_device p) = packed_fresh mem W p"
  by (simp_all add: packed_fresh_def fused_record_def)

lemma inj_map_key: "inj_on wa_key W \<Longrightarrow> set ws \<subseteq> W \<Longrightarrow> set ws' \<subseteq> W \<Longrightarrow> map wa_key ws = map wa_key ws' \<Longrightarrow> ws = ws'"
  by (metis inj_on_map_eq_map inj_on_subset sup.boundedI)

lemma pack_weights_fresh:
  assumes T: "torch_documented T" and inj: "inj_on wa_key W" and fresh: "packed_fresh mem W p"
    and ws: "set ws \<subseteq> W" "ws \<noteq> []" "list_all (\<lambda>w. wa_cols w = d) ws"
  obtains p' where "pack_weights T mem ws p = (p', Ok (concat (map (wa_read mem) ws)))" "packed_fresh mem W p'"
    "fu_config p' = fu_config p" "fu_overrides p' = fu_overrides p"
proof (cases "map_of (fu_packed p) (map wa_key ws)")
  case (Some m)
  with fresh ws have "m = concat (map (wa_read mem) ws)" by (auto simp: packed_fresh_def)
  with Some fresh show thesis by (intro that [of p]) (simp_all add: pack_weights_def)
next
  case None
  let ?m = "concat (map (wa_read mem) ws)"
  let ?p = "(on_device p)\<lparr>fu_packed := fu_packed p @ [(map wa_key ws, ?m)]\<rparr>"
  have "list_all (rows_wide d) (map (wa_read mem) ws)"
    using ws(3) wa_read_wide(1) by (auto simp: list_all_iff)
  with T ws(2) None have "pack_weights T mem ws p = (?p, Ok ?m)"
    by (auto simp: torch_documented_def pack_weights_def)
  moreover have "packed_fresh mem W ?p"
    using fresh inj ws(1) inj_map_key [OF inj _ ws(1)]
    by (auto simp: packed_fresh_def map_add_Some_iff split: if_splits)
  ultimately show thesis by (intro that [of ?p]) simp_all
qed

fun fused_reference :: "memory \<Rightarrow> fused_args \<Rightarrow> fused_out res" where
  "fused_reference mem (QkvArgs x ws bs) = res_bind (qkv_reference mem x ws bs) (\<lambda>r. Ok (Projections r))"
| "fused_reference mem (AttendArgs q k v causal scale) = res_bind (attention_reference q k v causal scale) (\<lambda>r. Ok (Attended r))"
| "fused_reference mem (MlpArgs x w1 b1 w2 b2) = res_bind (gelu_mlp_reference mem x w1 b1 w2 b2) (\<lambda>r. Ok (Hidden r))"
| "fused_reference mem (NormArgs x w b r eps) = res_bind (layer_norm_reference x w b r eps) (\<lambda>r. Ok (Hidden r))"

text \<open>What an operator needs of its native path.\<close>

lemma fused_dispatch_reference:
  assumes "fu_overrides p = []" and "packed_fresh mem W p"
    and "\<And>T. torch = Some T \<Longrightarrow> snd (native T p) = reference \<and> packed_fresh mem W (fst (native T p)) \<and>
      fu_overrides (fst (native T p)) = []"
  shows "snd (fused_dispatch torch op args native reference p) = reference \<and>
    packed_fresh mem W (fst (fused_dispatch torch op args native reference p)) \<and>
    fu_overrides (fst (fused_dispatch torch op args native reference p)) = []"
  using assms
  by (cases torch) (auto simp: fused_dispatch_def use_native_def torch_available_def fused_record_def packed_fresh_def
      split: prod.splits res.splits)

lemma fused_call_reference:
  assumes T: "\<And>T. torch = Some T \<Longrightarrow> torch_documented T" and inj: "inj_on wa_key W" and fresh: "packed_fresh mem W p"
    and ok: "call_ok a" "packed_of a \<subseteq> W" and ov: "fu_overrides p = []"
  shows "snd (fused_call torch mem a p) = fused_reference mem a \<and> packed_fresh mem W (fst (fused_call torch mem a p)) \<and>
    fu_overrides (fst (fused_call torch mem a p)) = []"
proof (cases a)
  case (QkvArgs x ws bs)
  have "snd (native_qkv mem x ws bs T p) = fused_reference mem a \<and> packed_fresh mem W (fst (native_qkv mem x ws bs T p)) \<and>
      fu_overrides (fst (native_qkv mem x ws bs T p)) = []" if "torch = Some T" for T
  proof -
    from ok QkvArgs have ws: "set ws \<subseteq> W" "ws \<noteq> []" "list_all (\<lambda>w. wa_cols w = rt_last x) ws" by auto
    from pack_weights_fresh [OF T [OF that] inj fresh ws] obtain p' where
      p: "pack_weights T mem ws p = (p', Ok (concat (map (wa_read mem) ws)))" "packed_fresh mem W p'"
      "fu_overrides p' = fu_overrides p" by metis
    with ov QkvArgs ok fused_gemm_reference [OF T [OF that], of x ws bs mem] show ?thesis
      by (simp add: native_qkv_def)
  qed
  with QkvArgs show ?thesis
    using fused_dispatch_reference [OF ov fresh, of torch "native_qkv mem x ws bs" "fused_reference mem a"]
    by (simp add: project_qkv_def)
next
  case (AttendArgs q k v causal scale)
  have "tl_sdpa T q k v causal scale = attention_reference q k v causal scale" if "torch = Some T" for T
  proof -
    from ok(1) AttendArgs obtain b h t_q t_k d d_v where
      s: "heads_shape b h t_q d q" "heads_shape b h t_k d k" "heads_shape b h t_k d_v v" "0 < d" "0 < t_k" "causal \<longrightarrow> t_q = t_k"
      by auto
    with T [OF that] have "tl_sdpa T q k v causal scale = attention_with torch_mask q k v causal scale"
      unfolding torch_documented_def by blast
    with s attention_square [of b h t_k d q d k v causal scale] show ?thesis
      by (cases causal) (auto simp: attention_with_def attention_reference_def)
  qed
  with AttendArgs ov fresh show ?thesis
    by (simp only: fused_call.simps attend_def fused_reference.simps) (rule fused_dispatch_reference; simp)
next
  case (MlpArgs x w1 b1 w2 b2)
  with ov fresh ok native_mlp_reference [OF T, of _ x w1 b1 w2 b2 mem p] show ?thesis
    by (simp only: fused_call.simps gelu_mlp_def fused_reference.simps)
      (rule fused_dispatch_reference; simp; simp add: native_mlp_def)
next
  case (NormArgs x w b r eps)
  with ov fresh ok native_norm_reference [OF T, of _ x w b r eps p] show ?thesis
    by (simp only: fused_call.simps layer_norm_def fused_reference.simps)
      (rule fused_dispatch_reference; simp; simp add: native_norm_def)
qed

section \<open>Properties\<close>

lemma fused_run_reference:
  assumes T: "\<And>T. torch = Some T \<Longrightarrow> torch_documented T" and inj: "inj_on wa_key W"
  shows "packed_fresh mem W p \<Longrightarrow> fu_overrides p = [] \<Longrightarrow> list_all call_ok calls \<Longrightarrow> \<Union> (packed_of ` set calls) \<subseteq> W \<Longrightarrow>
    snd (fused_run torch mem calls p) = map (fused_reference mem) calls"
proof (induction calls arbitrary: p)
  case (Cons a calls)
  then have "snd (fused_call torch mem a p) = fused_reference mem a \<and> packed_fresh mem W (fst (fused_call torch mem a p)) \<and>
      fu_overrides (fst (fused_call torch mem a p)) = []"
    using fused_call_reference [OF T inj, where mem = mem and p = p and a = a] by auto
  with Cons show ?case by (auto split: prod.splits) (metis fst_conv snd_conv)
qed simp


text \<open>Kernels that compute what PyTorch documents.\<close>

definition exact_torch :: torch_lib where
  "exact_torch =
     \<lparr>tl_cat = (\<lambda>ms. Ok (concat ms)), tl_cat1 = (\<lambda>vs. Ok (concat vs)), tl_linear = (\<lambda>x w. Ok (matmul_t x w)),
      tl_addmm = (\<lambda>b x w. Ok (map (map2 (+) b) (matmul_t x w))), tl_split = (\<lambda>outs m. Ok (split_cols outs m)),
      tl_gelu = map (map gelu), tl_add = np_broadcast (+),
      tl_layer_norm = (\<lambda>x w b eps. Ok (of_rows (butlast (rt_shape x)) (rt_last x)
        (map (\<lambda>r. map2 (+) (map2 (*) (norm_row eps r) (rt_data w)) (rt_data b)) (rt_rows x)))),
      tl_sdpa = attention_with torch_mask, tl_device = ''cpu''\<rparr>"

lemma exact_torch_documented: "torch_documented exact_torch"
  unfolding torch_documented_def exact_torch_def by simp

definition scalar_weight :: "int \<Rightarrow> warr" where
  "scalar_weight a = \<lparr>wa_addr = a, wa_rows = 1, wa_cols = 1, wa_strides = (4, 4), wa_dtype = ''float32''\<rparr>"

definition qkv_call :: fused_args where
  "qkv_call = QkvArgs \<lparr>rt_shape = [1], rt_data = [2]\<rparr> [scalar_weight 0, scalar_weight 4, scalar_weight 8]
     (Some [None, Some \<lparr>rt_shape = [1], rt_data = [5]\<rparr>, None])"

definition fused_sample :: fused where
  "fused_sample = \<lparr>fu_config = \<lparr>fuc_enabled = True, fuc_prefer = ''auto''\<rparr>, fu_overrides = [], fu_device_ready = False,
     fu_packed = [], fu_calls = map (\<lambda>op. (op, 0, 0)) OPS\<rparr>"

lemma fused_sample_init: "fused_init \<lparr>fuc_enabled = True, fuc_prefer = ''auto''\<rparr> [] = Ok fused_sample"
  by (simp add: fused_init_def fused_sample_def)

lemma qkv_call_ok: "call_ok qkv_call"
  by (simp add: qkv_call_def tokens_ok_def rt_wf_def rt_last_def scalar_weight_def bias_of_def vector_of_def)

lemma qkv_call_weights: "inj_on wa_key (packed_of qkv_call)"
  by (auto simp: qkv_call_def inj_on_def wa_key_def scalar_weight_def)

lemma qkv_call_reference: "fused_reference (\<lambda>_ a. of_int a) qkv_call =
    Ok (Projections [\<lparr>rt_shape = [1], rt_data = [0]\<rparr>, \<lparr>rt_shape = [1], rt_data = [13]\<rparr>, \<lparr>rt_shape = [1], rt_data = [16]\<rparr>])"
  by (simp add: qkv_call_def qkv_reference_def np_affine_def np_linear_def rt_last_def scalar_weight_def of_rows_def
      matmul_t_def rt_rows_def wa_read_def dot_def np_broadcast_def)


text \<open>
  The hypothesis on the memory cannot be dropped: once weights are packed, an update
  in place goes unnoticed, and every later call projects with the old weights.
\<close>

lemma packed_weights_stale:
  assumes T: "torch_documented T" and ok: "call_ok (QkvArgs x ws bs)" and p: "fused_init c [] = Ok p"
    and c: "fuc_enabled c" "fuc_prefer c \<noteq> ''numpy''"
  shows "snd (project_qkv (Some T) mem' x ws bs (fst (project_qkv (Some T) mem x ws bs p))) =
    fused_reference mem (QkvArgs x ws bs)"
proof -
  let ?m = "concat (map (wa_read mem) ws)"
  from p have pp: "fu_config p = c" "fu_overrides p = []" "fu_packed p = []" by (auto simp: fused_init_def split: if_splits)
  have "rows_wide (rt_last x) (wa_read mem w)" if "w \<in> set ws" for w
    using ok that wa_read_wide(1) [of w mem] by (auto simp: list_all_iff simp del: wa_read_wide)
  then have "list_all (rows_wide (rt_last x)) (map (wa_read mem) ws)" "ws \<noteq> []"
    using ok by (auto simp: list_all_iff)
  with T pp have pack: "pack_weights T mem ws p = ((on_device p)\<lparr>fu_packed := [(map wa_key ws, ?m)]\<rparr>, Ok ?m)"
    by (auto simp: torch_documented_def pack_weights_def)
  define p1 where "p1 = fst (project_qkv (Some T) mem x ws bs p)"
  have "fu_packed p1 = [(map wa_key ws, ?m)]" "fu_config p1 = c" "fu_overrides p1 = []"
    using pack pp c by (auto simp: p1_def project_qkv_def fused_dispatch_def use_native_def torch_available_def native_qkv_def
        fused_record_def split: res.splits)
  moreover from this have "pack_weights T mem' ws p1 = (p1, Ok ?m)" by (simp add: pack_weights_def)
  ultimately show ?thesis
    using c fused_gemm_reference [OF T ok, of mem] unfolding p1_def [symmetric]
    by (auto simp: project_qkv_def fused_dispatch_def use_native_def torch_available_def native_qkv_def split: res.splits)
qed

text \<open>
  Nor can the hypothesis on causal attention: with one query and two keys, as in
  decoding with cached keys, the reference lets the query see both keys and PyTorch
  only the first.
\<close>

lemma causal_masks_differ:
  fixes q k v :: heads
  defines "q \<equiv> \<lparr>hs_dim = 1, hs_data = [[[[0]]]]\<rparr>" and "k \<equiv> \<lparr>hs_dim = 1, hs_data = [[[[0], [0]]]]\<rparr>"
    and "v \<equiv> \<lparr>hs_dim = 1, hs_data = [[[[0], [2]]]]\<rparr>"
  shows "attention_reference q k v True None = Ok [[[[Fin 1]]]]" "attention_with torch_mask q k v True None = Ok [[[[Fin 0]]]]"
  by (simp_all add: q_def k_def v_def attention_reference_def attention_with_def zip_axis_def head_weights_def head_mix_def
      mix_axis_def dot_axis_def scale_row_def tri_mask_def torch_mask_def softmax_row_def exp_score_def map_filter_def)

end
