(* ===== verification/Attention_Props.thy ===== *)
theory Attention_Props
  imports Fused_Ops
begin

text \<open>
  What the reference attention of \<open>plugins/fused_ops.py\<close> computes: every output row
  is a mean of value rows, and under the causal mask it depends on the past only.
\<close>

section \<open>Means with softmax weights\<close>

definition soft_weights :: "real list \<Rightarrow> real list" where
  "soft_weights ss = (let e = map (\<lambda>s. exp (s - Max (set ss))) ss in map (\<lambda>y. y / sum_list e) e)"

definition soft_mean :: "real list \<Rightarrow> real list \<Rightarrow> real" where
  "soft_mean ss xs = dot (soft_weights ss) xs"

lemma sum_exp_pos: "ss \<noteq> [] \<Longrightarrow> 0 < sum_list (map (\<lambda>s. exp (s - m :: real)) ss)"
  by (induction ss) (auto simp: add_pos_nonneg intro!: add_pos_nonneg sum_list_nonneg)

lemma soft_weights_convex:
  assumes "ss \<noteq> []"
  shows "\<forall>w \<in> set (soft_weights ss). 0 \<le> w" "sum_list (soft_weights ss) = 1" "length (soft_weights ss) = length ss"
proof -
  let ?e = "map (\<lambda>s. exp (s - Max (set ss))) ss"
  have pos: "0 < sum_list ?e" using sum_exp_pos [OF assms] .
  then show "\<forall>w \<in> set (soft_weights ss). 0 \<le> w" by (auto simp: soft_weights_def Let_def)
  have "sum_list (map (\<lambda>y. y / c) xs) = sum_list xs / (c :: real)" for c xs
    by (induction xs) (simp_all add: add_divide_distrib)
  then show "sum_list (soft_weights ss) = 1" using pos by (simp only: soft_weights_def Let_def) simp
qed (simp add: soft_weights_def)

lemma dot_mono:
  "length ws = length xs \<Longrightarrow> \<forall>w \<in> set ws. 0 \<le> w \<Longrightarrow> (\<And>x. x \<in> set xs \<Longrightarrow> x \<le> b) \<Longrightarrow> dot ws xs \<le> sum_list ws * b"
  "length ws = length xs \<Longrightarrow> \<forall>w \<in> set ws. 0 \<le> w \<Longrightarrow> (\<And>x. x \<in> set xs \<Longrightarrow> b \<le> x) \<Longrightarrow> sum_list ws * b \<le> dot ws xs"
  by (induction rule: list_induct2) (auto simp: dot_def distrib_right intro!: add_mono mult_left_mono)

lemma soft_mean_between:
  assumes "ss \<noteq> []" and "length xs = length ss"
  shows "Min (set xs) \<le> soft_mean ss xs" "soft_mean ss xs \<le> Max (set xs)"
  using dot_mono [of "soft_weights ss" xs] soft_weights_convex [OF assms(1)] assms(2)
  by (simp_all add: soft_mean_def)

section \<open>Masked rows\<close>

lemma softmax_row_prefix:
  assumes "ss \<noteq> []"
  shows "softmax_row (map Some ss @ replicate m None) = map Some (soft_weights ss @ replicate m 0)"
proof -
  have live: "List.map_filter id (map Some ss @ replicate m None) = ss"
    by (induction ss) (simp_all add: map_filter_def)
  have e: "map (exp_score M) (map Some ss @ replicate m None) = map (\<lambda>s. exp (s - M)) ss @ replicate m 0" for M
    by (simp add: exp_score_def)
  show ?thesis
    unfolding softmax_row_def live e using assms by (simp add: soft_weights_def Let_def sum_list_replicate)
qed

lemma scale_row_prefix:
  assumes "n \<le> length s" and "\<And>j. j < length s \<Longrightarrow> keep j = (j < n)"
  shows "scale_row keep factor s = map Some (map (\<lambda>x. x * factor) (take n s)) @ replicate (length s - n) None"
  using assms by (intro nth_equalityI) (auto simp: scale_row_def nth_append)

lemma dot_axis_same: "length xs = length ys \<Longrightarrow> dot_axis xs ys = Ok (dot xs ys)"
  unfolding dot_axis_def zip_axis_def dot_def by (subst mapM_cong_Ok [where g = "\<lambda>(x, y). x * y"]) auto

lemma mix_axis_prefix:
  assumes "length xs = length ws + m"
  shows "mix_axis (map Some (ws @ replicate m 0)) xs = Ok (Fin (dot ws (take (length ws) xs)))"
proof -
  let ?ws = "ws @ replicate m 0"
  have "mapM (\<lambda>(w, x). Ok (map_option (\<lambda>y. y * x) w)) (zip (map Some ?ws) xs) =
      Ok (map (\<lambda>(w, x). map_option (\<lambda>y. y * x) w) (zip (map Some ?ws) xs))"
    by (rule mapM_cong_Ok) auto
  also have "map (\<lambda>(w, x). map_option (\<lambda>y. y * x) w) (zip (map Some ?ws) xs) = map Some (map2 (*) ?ws xs)"
    by (simp add: zip_map1 comp_def case_prod_unfold del: map_append)
  finally have "mix_axis (map Some ?ws) xs = Ok (Fin (sum_list (map2 (*) ?ws xs)))"
    using assms by (auto simp: mix_axis_def zip_axis_def comp_def)
  also have "map2 (*) ?ws xs = map2 (*) ws (take (length ws) xs) @ map2 (*) (replicate m 0) (drop (length ws) xs)"
    using assms by (simp add: zip_append1)
  also have "map2 (*) (replicate m 0) (drop (length ws) xs) = replicate m 0"
    using assms by (auto intro!: nth_equalityI)
  finally show ?thesis by (simp add: dot_def sum_list_replicate)
qed

section \<open>Causal attention\<close>

definition head_attention ::
    "(nat \<Rightarrow> nat \<Rightarrow> nat \<Rightarrow> nat \<Rightarrow> bool) \<Rightarrow> real \<Rightarrow> nat \<Rightarrow> real list list \<Rightarrow> real list list \<Rightarrow> real list list \<Rightarrow>
     pyfloat list list res" where
  "head_attention keep factor d q k v = res_bind (head_weights keep factor q k) (\<lambda>ws. head_mix d ws v)"

text \<open>The number of keys that query \<open>i\<close> sees.\<close>

abbreviation visible :: "'a list \<Rightarrow> 'b list \<Rightarrow> nat \<Rightarrow> nat" where
  "visible q k i \<equiv> i + 1 + (length k - length q)"

definition causal_row :: "real \<Rightarrow> nat \<Rightarrow> real list \<Rightarrow> real list list \<Rightarrow> real list list \<Rightarrow> pyfloat list" where
  "causal_row factor d qi k v =
     map (\<lambda>c. Fin (soft_mean (map (\<lambda>r. dot qi r * factor) k) (map (\<lambda>r. r ! c) v))) [0 ..< d]"

lemma head_attention_causal:
  assumes q: "rows_wide e q" "length q \<le> length k" and k: "rows_wide e k" and v: "length v = length k"
  shows "head_attention tri_mask factor d q k v =
    Ok (map (\<lambda>i. causal_row factor d (q ! i) (take (visible q k i) k) (take (visible q k i) v)) [0 ..< length q])"
proof -
  define W where "W i = map Some (soft_weights (map (\<lambda>r. dot (q ! i) r * factor) (take (visible q k i) k)) @
      replicate (length k - visible q k i) 0)" for i
  have "(if k = [] then Err (ValueError ''zero-size array to reduction operation maximum'')
      else res_bind (mapM (dot_axis (q ! i)) k) (\<lambda>s.
        Ok (softmax_row (scale_row (tri_mask (length q) (length k) i) factor s)))) = Ok (W i)" if "i < length q" for i
  proof -
    have n: "visible q k i \<le> length k" "k \<noteq> []" using that q by auto
    have s: "mapM (dot_axis (q ! i)) k = Ok (map (dot (q ! i)) k)"
      using rows_wide_in [OF q(1), of "q ! i"] rows_wide_in [OF k] that by (intro mapM_cong_Ok dot_axis_same) simp
    have "scale_row (tri_mask (length q) (length k) i) factor (map (dot (q ! i)) k) =
        map Some (map (\<lambda>r. dot (q ! i) r * factor) (take (visible q k i) k)) @ replicate (length k - visible q k i) None"
      using n q by (subst scale_row_prefix [of "visible q k i"]) (auto simp: tri_mask_def take_map comp_def)
    then show ?thesis
      using n s softmax_row_prefix [of "map (\<lambda>r. dot (q ! i) r * factor) (take (visible q k i) k)"]
      by (simp add: W_def)
  qed
  then have w: "head_weights tri_mask factor q k = Ok (map W [0 ..< length q])"
    unfolding head_weights_def by (intro mapM_cong_Ok) simp
  have "mapM (\<lambda>c. mix_axis (W i) (map (\<lambda>r. r ! c) v)) [0 ..< d] =
      Ok (causal_row factor d (q ! i) (take (visible q k i) k) (take (visible q k i) v))" if "i < length q" for i
  proof -
    have n: "visible q k i \<le> length k" "map (\<lambda>r. dot (q ! i) r * factor) (take (visible q k i) k) \<noteq> []"
      using that q by auto
    show ?thesis
      unfolding causal_row_def W_def using n v soft_weights_convex(3) [OF n(2)]
      by (intro mapM_cong_Ok, subst mix_axis_prefix) (simp_all add: soft_mean_def take_map)
  qed
  then show ?thesis
    unfolding head_attention_def w by (simp add: head_mix_def mapM_map) (intro mapM_cong_Ok, simp)
qed

section \<open>Properties\<close>

text \<open>
  C32: Causal attention never looks ahead and never extrapolates.  With at least as many
  keys as queries, every head returns a finite row per query; row \<open>i\<close> does not change
  when keys and values behind the last visible position are replaced, and each of
  its coordinates lies between the least and the greatest visible value.
\<close>

theorem attention_causal:
  assumes "rows_wide e q" and "length q \<le> length k" and "rows_wide e k" and "length v = length k" and "i < length q"
  shows "\<exists>out. head_attention tri_mask factor d q k v = Ok out \<and>
    (\<forall>k' v' out'. rows_wide e k' \<and> length k' = length k \<and> length v' = length k \<and>
       take (visible q k i) k' = take (visible q k i) k \<and> take (visible q k i) v' = take (visible q k i) v \<and>
       head_attention tri_mask factor d q k' v' = Ok out' \<longrightarrow> out' ! i = out ! i) \<and>
    (\<forall>c < d. \<exists>x. out ! i ! c = Fin x \<and> (\<exists>j < visible q k i. v ! j ! c \<le> x) \<and> (\<exists>j < visible q k i. x \<le> v ! j ! c))"
proof -
  let ?n = "visible q k i"
  let ?ss = "map (\<lambda>r. dot (q ! i) r * factor) (take ?n k)"
  let ?out = "map (\<lambda>i. causal_row factor d (q ! i) (take (visible q k i) k) (take (visible q k i) v)) [0 ..< length q]"
  have n: "0 < ?n" "?n \<le> length k" using assms by auto
  have "\<exists>x. ?out ! i ! c = Fin x \<and> (\<exists>j < ?n. v ! j ! c \<le> x) \<and> (\<exists>j < ?n. x \<le> v ! j ! c)" if "c < d" for c
  proof -
    let ?xs = "map (\<lambda>r. r ! c) (take ?n v)"
    let ?x = "soft_mean ?ss ?xs"
    have "?ss \<noteq> []" "length ?xs = length ?ss" using n assms by auto
    from soft_mean_between [OF this] have b: "Min (set ?xs) \<le> ?x" "?x \<le> Max (set ?xs)" .
    have ne: "finite (set ?xs)" "set ?xs \<noteq> {}" using n assms by auto
    have "\<exists>j < ?n. v ! j ! c = y" if "y \<in> set ?xs" for y
    proof -
      from that obtain j where "j < length ?xs" "?xs ! j = y" by (metis in_set_conv_nth)
      then show ?thesis by (intro exI [of _ j]) simp
    qed
    with b Min_in [OF ne] Max_in [OF ne] have "\<exists>j < ?n. v ! j ! c \<le> ?x" "\<exists>j < ?n. ?x \<le> v ! j ! c" by metis+
    moreover have "?out ! i ! c = Fin ?x" using assms(5) that by (simp add: causal_row_def)
    ultimately show ?thesis by blast
  qed
  moreover have "out' ! i = ?out ! i" if "rows_wide e k'" "length k' = length k" "length v' = length k"
      "take ?n k' = take ?n k" "take ?n v' = take ?n v" "head_attention tri_mask factor d q k' v' = Ok out'" for k' v' out'
    using that head_attention_causal [OF assms(1), of k' v' factor d] assms by auto
  ultimately show ?thesis using head_attention_causal [OF assms(1-4), of factor d] by blast
qed

text \<open>With two queries, the first sees only the first of two values.\<close>

theorem attention_causal_witness:
  "\<exists>out. head_attention tri_mask 1 1 [[0], [0]] [[1], [2]] [[3], [4]] = Ok out \<and>
     (\<exists>x. out ! 0 ! 0 = Fin x \<and> 3 \<le> x \<and> x \<le> 3)"
  using attention_causal [of 1 "[[0], [0]]" "[[1], [2]]" "[[3], [4]]" 0 1 1] by auto

end
