(* ===== verification/Trt_Engine.thy ===== *)
theory Trt_Engine
  imports Tensors
begin

text \<open>
  The dynamic-shape TensorRT runner of the split TurboVLA policy
  (\<open>_DynamicTensorRTEngine\<close> in \<open>models/turbovla/split_tensorrt.py\<close>).  TensorRT is a
  parameter: the tensors of an engine, the output shapes it derives from the input
  shapes, and what an execution computes from the device buffers whose addresses are
  bound.  A buffer is known by its key, the name and the shape it was allocated for,
  so that an address is a key.  The pycuda and the torch branch perform the same
  copies and are one definition.
\<close>

section \<open>Engine and state\<close>

type_synonym buffer_key = "string \<times> nat list"

record trt =
  tr_inputs :: "string list"
  tr_outputs :: "string list"
  tr_dtype :: "string \<Rightarrow> dtype"
  tr_shape :: "string \<Rightarrow> int list"
  tr_context_shape :: "(string \<rightharpoonup> nat list) \<Rightarrow> string \<Rightarrow> int list"
  tr_run :: "(string \<times> ndarray) list \<Rightarrow> (string \<times> ndarray) list option"
  tr_empty :: "dtype \<Rightarrow> nat list \<Rightarrow> ndarray"
  tr_assign :: "nat list \<Rightarrow> ndarray \<Rightarrow> ndarray res"
  tr_cast :: "dtype \<Rightarrow> ndarray \<Rightarrow> ndarray res"

record trt_state =
  ts_host :: "buffer_key \<rightharpoonup> ndarray"
  ts_device :: "buffer_key \<rightharpoonup> ndarray"
  ts_bound :: "string \<rightharpoonup> buffer_key"
  ts_shapes :: "string \<rightharpoonup> nat list"

definition trt_init :: trt_state where
  "trt_init = \<lparr>ts_host = Map.empty, ts_device = Map.empty, ts_bound = Map.empty, ts_shapes = Map.empty\<rparr>"

definition dynamic_input :: "trt \<Rightarrow> string \<Rightarrow> bool" where
  "dynamic_input E name = list_ex (\<lambda>d. d < 0) (tr_shape E name)"

section \<open>Operations\<close>

definition ensure_buffer :: "trt \<Rightarrow> string \<Rightarrow> nat list \<Rightarrow> trt_state \<Rightarrow> trt_state" where
  "ensure_buffer E name shape s =
     (if ts_host s (name, shape) \<noteq> None then s
      else let fresh = tr_empty E (tr_dtype E name) shape
           in s\<lparr>ts_host := (ts_host s)((name, shape) \<mapsto> fresh), ts_device := (ts_device s)((name, shape) \<mapsto> fresh),
                ts_bound := (ts_bound s)(name \<mapsto> (name, shape))\<rparr>)"

text \<open>The first loop of \<open>infer\<close>: cast the feeds, announce the shapes of the dynamic ones.\<close>

fun trt_values :: "trt \<Rightarrow> (string \<times> ndarray) list \<Rightarrow> string list \<Rightarrow> trt_state \<Rightarrow> trt_state \<times> (string \<times> ndarray) list res" where
  "trt_values E feeds [] s = (s, Ok [])"
| "trt_values E feeds (name # names) s =
     (case map_of feeds name of
        None \<Rightarrow> (s, Err (KeyError name))
      | Some fd \<Rightarrow>
          (case as_dtype (tr_cast E) (tr_dtype E name) fd of
             Err e \<Rightarrow> (s, Err e)
           | Ok v \<Rightarrow>
               (case trt_values E feeds names
                       (if dynamic_input E name then s\<lparr>ts_shapes := (ts_shapes s)(name \<mapsto> nd_shape v)\<rparr> else s) of
                  (s', Err e) \<Rightarrow> (s', Err e)
                | (s', Ok vs) \<Rightarrow> (s', Ok ((name, v) # vs)))))"

definition input_key :: "trt \<Rightarrow> string \<times> ndarray \<Rightarrow> buffer_key" where
  "input_key E nv =
     (fst nv, if dynamic_input E (fst nv) then nd_shape (snd nv) else map nat (tr_shape E (fst nv)))"

definition ensure_inputs :: "trt \<Rightarrow> (string \<times> ndarray) list \<Rightarrow> trt_state \<Rightarrow> trt_state" where
  "ensure_inputs E values = fold (\<lambda>nv. case input_key E nv of (name, shape) \<Rightarrow> ensure_buffer E name shape) values"

definition output_dims :: "trt \<Rightarrow> trt_state \<Rightarrow> string \<Rightarrow> int list" where
  "output_dims E s name =
     (let shape = tr_context_shape E (ts_shapes s) name
      in if list_ex (\<lambda>d. d < 0) shape then tr_shape E name else shape)"

text \<open>Allocation of an output that still has an unknown extent fails.\<close>

fun ensure_outputs :: "trt \<Rightarrow> string list \<Rightarrow> trt_state \<Rightarrow> trt_state \<times> buffer_key list res" where
  "ensure_outputs E [] s = (s, Ok [])"
| "ensure_outputs E (name # names) s =
     (let dims = output_dims E s name
      in if list_ex (\<lambda>d. d < 0) dims then (s, Err (ValueError ''negative dimensions are not allowed''))
         else case ensure_outputs E names (ensure_buffer E name (map nat dims) s) of
                (s', Err e) \<Rightarrow> (s', Err e)
              | (s', Ok keys) \<Rightarrow> (s', Ok ((name, map nat dims) # keys)))"

text \<open>\<open>self.host[key][...] = values[name]\<close> and the copy to the device.\<close>

fun copy_inputs :: "trt \<Rightarrow> (string \<times> ndarray) list \<Rightarrow> trt_state \<Rightarrow> trt_state \<times> unit res" where
  "copy_inputs E [] s = (s, Ok ())"
| "copy_inputs E (nv # nvs) s =
     (case tr_assign E (snd (input_key E nv)) (snd nv) of
        Err e \<Rightarrow> (s, Err e)
      | Ok v \<Rightarrow>
          copy_inputs E nvs (s\<lparr>ts_host := (ts_host s)(input_key E nv \<mapsto> v), ts_device := (ts_device s)(input_key E nv \<mapsto> v)\<rparr>))"

text \<open>What is at the address bound to a tensor.\<close>

definition bound_value :: "trt_state \<Rightarrow> string \<Rightarrow> ndarray option" where
  "bound_value s name = (case ts_bound s name of None \<Rightarrow> None | Some key \<Rightarrow> ts_device s key)"

definition write_outputs :: "trt \<Rightarrow> (string \<times> ndarray) list \<Rightarrow> trt_state \<Rightarrow> trt_state" where
  "write_outputs E outs =
     fold (\<lambda>name s. case (map_of outs name, ts_bound s name) of
             (Some v, Some key) \<Rightarrow> s\<lparr>ts_device := (ts_device s)(key \<mapsto> v)\<rparr>
           | _ \<Rightarrow> s) (tr_outputs E)"

definition trt_execute :: "trt \<Rightarrow> trt_state \<Rightarrow> trt_state \<times> unit res" where
  "trt_execute E s =
     (case mapM (\<lambda>name. case bound_value s name of None \<Rightarrow> Err (RuntimeError ''dynamic TensorRT execution failed'')
                          | Some v \<Rightarrow> Ok (name, v)) (tr_inputs E) of
        Err e \<Rightarrow> (s, Err e)
      | Ok ins \<Rightarrow>
          (case tr_run E ins of
             None \<Rightarrow> (s, Err (RuntimeError ''dynamic TensorRT execution failed''))
           | Some outs \<Rightarrow> (write_outputs E outs s, Ok ())))"

text \<open>The copies back to the host, and the result.\<close>

definition read_outputs :: "buffer_key list \<Rightarrow> trt_state \<Rightarrow> trt_state \<times> (string \<times> ndarray) list" where
  "read_outputs keys s =
     (let s' = s\<lparr>ts_host := fold (\<lambda>key h. h(key := ts_device s key)) keys (ts_host s)\<rparr>
      in (s', List.map_filter (\<lambda>key. map_option (Pair (fst key)) (ts_host s' key)) keys))"

definition trt_infer ::
    "trt \<Rightarrow> (string \<times> ndarray) list \<Rightarrow> trt_state \<Rightarrow> trt_state \<times> (string \<times> ndarray) list res" where
  "trt_infer E feeds s =
     (case trt_values E feeds (tr_inputs E) s of
        (s1, Err e) \<Rightarrow> (s1, Err e)
      | (s1, Ok values) \<Rightarrow>
          (case ensure_outputs E (tr_outputs E) (ensure_inputs E values s1) of
             (s2, Err e) \<Rightarrow> (s2, Err e)
           | (s2, Ok keys) \<Rightarrow>
               (case copy_inputs E values s2 of
                  (s3, Err e) \<Rightarrow> (s3, Err e)
                | (s3, Ok _) \<Rightarrow>
                    (case trt_execute E s3 of
                       (s4, Err e) \<Rightarrow> (s4, Err e)
                     | (s4, Ok _) \<Rightarrow> (case read_outputs keys s4 of (s5, r) \<Rightarrow> (s5, Ok r))))))"

fun trt_session ::
    "trt \<Rightarrow> (string \<times> ndarray) list list \<Rightarrow> trt_state \<Rightarrow> trt_state \<times> (string \<times> ndarray) list res list" where
  "trt_session E [] s = (s, [])"
| "trt_session E (f # fs) s =
     (case trt_infer E f s of (s', r) \<Rightarrow> (case trt_session E fs s' of (s'', rs) \<Rightarrow> (s'', r # rs)))"

section \<open>Sessions of one shape\<close>

text \<open>
  \<open>K\<close> gives each tensor its shape.  Every buffer of a tensor that is allocated has
  this shape and is the bound one; after an allocation it is there.
\<close>

definition only_shape :: "(string \<Rightarrow> nat list) \<Rightarrow> trt_state \<Rightarrow> string \<Rightarrow> bool" where
  "only_shape K s n = (\<forall>sh. ts_host s (n, sh) \<noteq> None \<longrightarrow> sh = K n \<and> ts_bound s n = Some (n, K n))"

definition ready :: "(string \<Rightarrow> nat list) \<Rightarrow> trt_state \<Rightarrow> string \<Rightarrow> bool" where
  "ready K s n = (ts_host s (n, K n) \<noteq> None \<and> ts_bound s n = Some (n, K n))"

lemma ensure_buffer_ready:
  assumes "only_shape K s n"
  shows "ready K (ensure_buffer E n (K n) s) n \<and> only_shape K (ensure_buffer E n (K n) s) n \<and>
    (ready K s m \<longrightarrow> ready K (ensure_buffer E n (K n) s) m) \<and>
    (only_shape K s m \<longrightarrow> only_shape K (ensure_buffer E n (K n) s) m) \<and> ts_shapes (ensure_buffer E n (K n) s) = ts_shapes s"
proof (cases "ts_host s (n, K n)")
  case None
  with assms have none: "ts_host s (n, sh) = None" for sh by (metis only_shape_def)
  let ?s = "ensure_buffer E n (K n) s"
  have s: "ts_host ?s = (ts_host s)((n, K n) \<mapsto> tr_empty E (tr_dtype E n) (K n))" "ts_bound ?s = (ts_bound s)(n \<mapsto> (n, K n))"
    "ts_shapes ?s = ts_shapes s" using None by (simp_all add: ensure_buffer_def Let_def)
  have "only_shape K s m \<Longrightarrow> only_shape K ?s m" by (cases "m = n") (simp_all add: only_shape_def s none)
  moreover have "ready K s m \<Longrightarrow> ready K ?s m" by (cases "m = n") (simp_all add: ready_def s)
  moreover have "ready K ?s n" "only_shape K ?s n" by (simp_all add: ready_def only_shape_def s none)
  ultimately show "ready K ?s n \<and> only_shape K ?s n \<and> (ready K s m \<longrightarrow> ready K ?s m) \<and>
      (only_shape K s m \<longrightarrow> only_shape K ?s m) \<and> ts_shapes ?s = ts_shapes s" using s by simp
next
  case (Some v)
  then have "ensure_buffer E n (K n) s = s" by (simp add: ensure_buffer_def)
  with assms Some show "ready K (ensure_buffer E n (K n) s) n \<and> only_shape K (ensure_buffer E n (K n) s) n \<and>
      (ready K s m \<longrightarrow> ready K (ensure_buffer E n (K n) s) m) \<and>
      (only_shape K s m \<longrightarrow> only_shape K (ensure_buffer E n (K n) s) m) \<and> ts_shapes (ensure_buffer E n (K n) s) = ts_shapes s"
    by (auto simp: ready_def only_shape_def)
qed

lemma ensure_names:
  assumes "\<And>n. only_shape K s n"
  shows "(\<forall>n. only_shape K (fold (\<lambda>n. ensure_buffer E n (K n)) names s) n) \<and>
    (\<forall>n. n \<in> set names \<or> ready K s n \<longrightarrow> ready K (fold (\<lambda>n. ensure_buffer E n (K n)) names s) n) \<and>
    ts_shapes (fold (\<lambda>n. ensure_buffer E n (K n)) names s) = ts_shapes s"
  using assms
proof (induction names arbitrary: s)
  case (Cons m names)
  let ?s = "ensure_buffer E m (K m) s"
  have "only_shape K ?s n" for n using Cons.prems ensure_buffer_ready by blast
  from Cons.IH [OF this] ensure_buffer_ready [OF Cons.prems] show ?case by auto
qed auto

text \<open>What a call must bring, and what the engine then computes.\<close>

definition feed_ok :: "trt \<Rightarrow> (string \<Rightarrow> nat list) \<Rightarrow> (string \<times> ndarray) list \<Rightarrow> (string \<Rightarrow> ndarray) \<Rightarrow> bool" where
  "feed_ok E K feeds V =
     list_all (\<lambda>n. (case map_of feeds n of None \<Rightarrow> False | Some fd \<Rightarrow> as_dtype (tr_cast E) (tr_dtype E n) fd = Ok (V n)) \<and>
       K n = (if dynamic_input E n then nd_shape (V n) else map nat (tr_shape E n)) \<and>
       tr_assign E (K n) (V n) = Ok (V n)) (tr_inputs E)"

definition engine_ok :: "trt \<Rightarrow> (string \<Rightarrow> nat list) \<Rightarrow> bool" where
  "engine_ok E K =
     (distinct (tr_inputs E @ tr_outputs E) \<and>
      (\<forall>shapes. (\<forall>n \<in> set (tr_inputs E). dynamic_input E n \<longrightarrow> shapes n = Some (K n)) \<longrightarrow>
         (\<forall>n \<in> set (tr_outputs E). tr_context_shape E shapes n = map int (K n))))"

lemma trt_values_ok:
  assumes "list_all (\<lambda>n. (case map_of feeds n of None \<Rightarrow> False | Some fd \<Rightarrow> as_dtype (tr_cast E) (tr_dtype E n) fd = Ok (V n)) \<and>
       K n = (if dynamic_input E n then nd_shape (V n) else map nat (tr_shape E n)) \<and> tr_assign E (K n) (V n) = Ok (V n)) names"
  shows "\<exists>shapes. trt_values E feeds names s = (s\<lparr>ts_shapes := shapes\<rparr>, Ok (map (\<lambda>n. (n, V n)) names)) \<and>
    (\<forall>n. n \<in> set names \<and> dynamic_input E n \<or> ts_shapes s n = Some (K n) \<longrightarrow> shapes n = Some (K n))"
  using assms
proof (induction names arbitrary: s)
  case Nil
  show ?case by (rule exI [of _ "ts_shapes s"]) simp
next
  case (Cons n names)
  let ?s = "if dynamic_input E n then s\<lparr>ts_shapes := (ts_shapes s)(n \<mapsto> nd_shape (V n))\<rparr> else s"
  from Cons.prems obtain fd where fd: "map_of feeds n = Some fd" "as_dtype (tr_cast E) (tr_dtype E n) fd = Ok (V n)"
    by (auto split: option.splits)
  have "list_all (\<lambda>n. (case map_of feeds n of None \<Rightarrow> False | Some fd \<Rightarrow> as_dtype (tr_cast E) (tr_dtype E n) fd = Ok (V n)) \<and>
       K n = (if dynamic_input E n then nd_shape (V n) else map nat (tr_shape E n)) \<and> tr_assign E (K n) (V n) = Ok (V n)) names"
    using Cons.prems by simp
  from Cons.IH [OF this, of ?s] obtain shapes where "trt_values E feeds names ?s = (?s\<lparr>ts_shapes := shapes\<rparr>, Ok (map (\<lambda>n. (n, V n)) names))"
    "\<forall>m. m \<in> set names \<and> dynamic_input E m \<or> ts_shapes ?s m = Some (K m) \<longrightarrow> shapes m = Some (K m)"
    by blast
  with fd Cons.prems show ?case by (intro exI [of _ shapes]) auto
qed

lemma ensure_outputs_ok:
  assumes "\<And>n. only_shape K s n" and "\<And>n. n \<in> set names \<Longrightarrow> tr_context_shape E (ts_shapes s) n = map int (K n)"
  shows "ensure_outputs E names s = (fold (\<lambda>n. ensure_buffer E n (K n)) names s, Ok (map (\<lambda>n. (n, K n)) names))"
  using assms
proof (induction names arbitrary: s)
  case (Cons m names)
  let ?s = "ensure_buffer E m (K m) s"
  have dims: "output_dims E s m = map int (K m)"
    using Cons.prems(2) by (simp add: output_dims_def Let_def list_ex_iff)
  have "only_shape K ?s n" for n using Cons.prems(1) ensure_buffer_ready by blast
  moreover have "ts_shapes ?s = ts_shapes s" using ensure_buffer_ready [OF Cons.prems(1)] by blast
  ultimately have "ensure_outputs E names ?s = (fold (\<lambda>n. ensure_buffer E n (K n)) names ?s, Ok (map (\<lambda>n. (n, K n)) names))"
    using Cons.prems(2) by (intro Cons.IH) auto
  then show ?case using dims by (simp add: list_ex_iff comp_def)
qed simp

lemma copy_inputs_ok:
  assumes "\<And>n. n \<in> set names \<Longrightarrow> input_key E (n, V n) = (n, K n) \<and> tr_assign E (K n) (V n) = Ok (V n)" and "distinct names"
  shows "\<exists>h. copy_inputs E (map (\<lambda>n. (n, V n)) names) s =
      (s\<lparr>ts_host := h, ts_device := (\<lambda>key. if fst key \<in> set names \<and> snd key = K (fst key) then Some (V (fst key)) else ts_device s key)\<rparr>, Ok ()) \<and>
    (\<forall>key. h key = None \<longrightarrow> ts_host s key = None) \<and>
    (\<forall>key. h key \<noteq> None \<longrightarrow> ts_host s key \<noteq> None \<or> fst key \<in> set names \<and> snd key = K (fst key))"
  using assms
proof (induction names arbitrary: s)
  case Nil
  show ?case by (rule exI [of _ "ts_host s"]) simp
next
  case (Cons n names)
  let ?s = "s\<lparr>ts_host := (ts_host s)((n, K n) \<mapsto> V n), ts_device := (ts_device s)((n, K n) \<mapsto> V n)\<rparr>"
  from Cons.prems have "n \<notin> set names" "distinct names"
    "\<And>m. m \<in> set names \<Longrightarrow> input_key E (m, V m) = (m, K m) \<and> tr_assign E (K m) (V m) = Ok (V m)" by auto
  with Cons.IH [of ?s] obtain h where
    h: "copy_inputs E (map (\<lambda>n. (n, V n)) names) ?s =
      (?s\<lparr>ts_host := h, ts_device := (\<lambda>key. if fst key \<in> set names \<and> snd key = K (fst key) then Some (V (fst key)) else ts_device ?s key)\<rparr>, Ok ())"
    "\<forall>key. h key = None \<longrightarrow> ts_host ?s key = None"
    "\<forall>key. h key \<noteq> None \<longrightarrow> ts_host ?s key \<noteq> None \<or> fst key \<in> set names \<and> snd key = K (fst key)"
    by auto
  have "(\<lambda>key. if fst key \<in> set names \<and> snd key = K (fst key) then Some (V (fst key)) else ts_device ?s key) =
      (\<lambda>key. if fst key \<in> set (n # names) \<and> snd key = K (fst key) then Some (V (fst key)) else ts_device s key)"
    by (auto simp: fun_eq_iff)
  with h(1) Cons.prems(1) [of n] have "copy_inputs E (map (\<lambda>n. (n, V n)) (n # names)) s =
      (s\<lparr>ts_host := h, ts_device := (\<lambda>key. if fst key \<in> set (n # names) \<and> snd key = K (fst key) then Some (V (fst key)) else ts_device s key)\<rparr>, Ok ())"
    by simp
  moreover have "ts_host s key = None" if "h key = None" for key
    using h(2) [rule_format, of key] that by (cases "key = (n, K n)") simp_all
  moreover have "ts_host s key \<noteq> None \<or> fst key \<in> set (n # names) \<and> snd key = K (fst key)" if "h key \<noteq> None" for key
    using h(3) [rule_format, of key] that by (cases "key = (n, K n)") auto
  ultimately show ?case by blast
qed

lemma write_outputs_ok:
  assumes "\<And>n. n \<in> set (tr_outputs E) \<Longrightarrow> ts_bound s n = Some (n, K n) \<and> map_of outs n = Some (R n)"
  shows "write_outputs E outs s =
    s\<lparr>ts_device := (\<lambda>key. if fst key \<in> set (tr_outputs E) \<and> snd key = K (fst key) then Some (R (fst key)) else ts_device s key)\<rparr>"
proof -
  have "fold (\<lambda>name s. case (map_of outs name, ts_bound s name) of
             (Some v, Some key) \<Rightarrow> s\<lparr>ts_device := (ts_device s)(key \<mapsto> v)\<rparr> | _ \<Rightarrow> s) names s =
      s\<lparr>ts_device := (\<lambda>key. if fst key \<in> set names \<and> snd key = K (fst key) then Some (R (fst key)) else ts_device s key)\<rparr>"
    if "\<And>n. n \<in> set names \<Longrightarrow> ts_bound s n = Some (n, K n) \<and> map_of outs n = Some (R n)" for names s
    using that
  proof (induction names arbitrary: s)
    case (Cons n names)
    then show ?case by (auto simp: fun_eq_iff intro!: trt_state.equality)
  qed simp
  from this [OF assms] show ?thesis by (simp add: write_outputs_def)
qed

lemma fold_host_update:
  "fold (\<lambda>key h. h(key := d key)) keys h = (\<lambda>key. if key \<in> set keys then d key else h key)"
  by (induction keys arbitrary: h) auto

lemma trt_infer_steps:
  assumes "trt_values E feeds (tr_inputs E) s = (s1, Ok values)"
    and "ensure_outputs E (tr_outputs E) (ensure_inputs E values s1) = (s2, Ok keys)"
    and "copy_inputs E values s2 = (s3, Ok ())" and "trt_execute E s3 = (s4, Ok ())"
  shows "trt_infer E feeds s = (fst (read_outputs keys s4), Ok (snd (read_outputs keys s4)))"
  using assms by (simp add: trt_infer_def case_prod_unfold)

text \<open>One call in a session of one shape.\<close>

lemma trt_infer_exact:
  assumes E: "engine_ok E K" and f: "feed_ok E K feeds V" and s: "\<And>n. only_shape K s n"
    and run: "tr_run E (map (\<lambda>n. (n, V n)) (tr_inputs E)) = Some outs"
    and outs: "\<And>n. n \<in> set (tr_outputs E) \<Longrightarrow> map_of outs n = Some (R n)"
  shows "\<exists>s'. trt_infer E feeds s = (s', Ok (map (\<lambda>n. (n, R n)) (tr_outputs E))) \<and> (\<forall>n. only_shape K s' n)"
proof -
  let ?in = "tr_inputs E" and ?out = "tr_outputs E"
  let ?vals = "map (\<lambda>n. (n, V n)) ?in"
  from trt_values_ok [OF f [unfolded feed_ok_def], of s] obtain shapes where
    v: "trt_values E feeds ?in s = (s\<lparr>ts_shapes := shapes\<rparr>, Ok ?vals)"
    "\<forall>n. n \<in> set ?in \<and> dynamic_input E n \<longrightarrow> shapes n = Some (K n)" by blast
  have key: "input_key E (n, V n) = (n, K n) \<and> tr_assign E (K n) (V n) = Ok (V n)" if "n \<in> set ?in" for n
    using f that by (auto simp: feed_ok_def list_all_iff input_key_def)
  define s1 where "s1 = s\<lparr>ts_shapes := shapes\<rparr>"
  define s2 where "s2 = fold (\<lambda>n. ensure_buffer E n (K n)) ?in s1"
  define s3 where "s3 = fold (\<lambda>n. ensure_buffer E n (K n)) ?out s2"
  have o1: "only_shape K s1 n" for n using s by (simp add: s1_def only_shape_def)
  have i: "ensure_inputs E ?vals s1 = s2"
    using key unfolding s2_def ensure_inputs_def fold_map
    by (intro fold_cong) (auto simp: comp_def fun_eq_iff)
  from ensure_names [OF o1, where names = ?in and E = E, folded s2_def] have
    e2: "\<And>n. only_shape K s2 n" "\<And>n. n \<in> set ?in \<Longrightarrow> ready K s2 n" "ts_shapes s2 = ts_shapes s1" by blast+
  have "tr_context_shape E (ts_shapes s2) n = map int (K n)" if "n \<in> set ?out" for n
    using E v(2) that e2(3) by (auto simp: engine_ok_def s1_def)
  from ensure_outputs_ok [OF e2(1) this] have o: "ensure_outputs E ?out s2 = (s3, Ok (map (\<lambda>n. (n, K n)) ?out))"
    by (simp add: s3_def)
  from ensure_names [OF e2(1), where names = ?out and E = E, folded s3_def] have
    e3: "\<And>n. only_shape K s3 n" "\<And>n. n \<in> set ?in \<union> set ?out \<Longrightarrow> ready K s3 n" using e2(2) by blast+
  from copy_inputs_ok [where names = ?in and E = E and V = V and K = K and s = s3] key E obtain h where
    c: "copy_inputs E ?vals s3 = (s3\<lparr>ts_host := h, ts_device := (\<lambda>key. if fst key \<in> set ?in \<and> snd key = K (fst key)
        then Some (V (fst key)) else ts_device s3 key)\<rparr>, Ok ())" (is "_ = (?s4, _)")
    "\<forall>key. h key \<noteq> None \<longrightarrow> ts_host s3 key \<noteq> None \<or> fst key \<in> set ?in \<and> snd key = K (fst key)"
    by (auto simp: engine_ok_def)
  have b4: "ts_bound ?s4 n = Some (n, K n)" if "n \<in> set ?in \<union> set ?out" for n using e3(2) [OF that] by (simp add: ready_def)
  have "mapM (\<lambda>name. case bound_value ?s4 name of None \<Rightarrow> Err (RuntimeError ''dynamic TensorRT execution failed'')
      | Some v \<Rightarrow> Ok (name, v)) ?in = Ok ?vals"
    using b4 by (intro mapM_cong_Ok) (simp add: bound_value_def)
  then have x: "trt_execute E ?s4 = (write_outputs E outs ?s4, Ok ())" using run by (simp add: trt_execute_def)
  have w: "write_outputs E outs ?s4 = ?s4\<lparr>ts_device := (\<lambda>key. if fst key \<in> set ?out \<and> snd key = K (fst key)
      then Some (R (fst key)) else ts_device ?s4 key)\<rparr>" (is "_ = ?s5")
    using b4 outs by (intro write_outputs_ok) simp
  let ?keys = "map (\<lambda>n. (n, K n)) ?out"
  have r: "snd (read_outputs ?keys ?s5) = map (\<lambda>n. (n, R n)) ?out"
    by (auto simp: read_outputs_def Let_def fold_host_update map_filter_def comp_def intro!: filter_True [THEN arg_cong, of _ _ "map _", THEN trans])
  have final: "ts_host (fst (read_outputs ?keys ?s5)) key = h key" if "key \<notin> set ?keys" for key
    unfolding read_outputs_def Let_def fst_conv fold_host_update using that by simp
  have here: "ts_bound s3 n = Some (n, K n)" if "n \<in> set ?in \<union> set ?out" for n using e3(2) [OF that] by (simp add: ready_def)
  have there: "sh = K n \<and> ts_bound s3 n = Some (n, K n)" if "ts_host s3 (n, sh) \<noteq> None" for n sh
    using e3(1) [of n] that unfolding only_shape_def by blast
  have "sh = K n \<and> ts_bound s3 n = Some (n, K n)" if "ts_host (fst (read_outputs ?keys ?s5)) (n, sh) \<noteq> None" for n sh
  proof (cases "(n, sh) \<in> set ?keys")
    case True
    with here show ?thesis by auto
  next
    case False
    with that final [OF False] have "h (n, sh) \<noteq> None" by argo
    with c(2) have "ts_host s3 (n, sh) \<noteq> None \<or> n \<in> set ?in \<and> sh = K n" by fastforce
    with here there show ?thesis by blast
  qed
  moreover have bound: "ts_bound (fst (read_outputs ?keys ?s5)) = ts_bound s3" by (simp add: read_outputs_def Let_def)
  ultimately have "\<forall>n. only_shape K (fst (read_outputs ?keys ?s5)) n" unfolding only_shape_def bound by blast
  moreover have "trt_infer E feeds s = (fst (read_outputs ?keys ?s5), Ok (snd (read_outputs ?keys ?s5)))"
    by (rule trt_infer_steps [OF v(1) [folded s1_def] o [folded i] c(1) x [unfolded w]])
  ultimately show ?thesis unfolding r by blast
qed

text \<open>
  C33: The vision engine is exact in sessions of one shape.  As long as every call feeds
  the same input shapes, each call returns what the engine computes from its own
  feeds, whatever the earlier calls left in the buffers.
\<close>

theorem trt_session_exact:
  assumes "engine_ok E K" and "list_all2 (feed_ok E K) feeds Vs"
    and "\<And>V. V \<in> set Vs \<Longrightarrow> \<exists>outs. tr_run E (map (\<lambda>n. (n, V n)) (tr_inputs E)) = Some outs \<and>
      (\<forall>n \<in> set (tr_outputs E). map_of outs n = Some (R V n))"
  shows "snd (trt_session E feeds trt_init) = map (\<lambda>V. Ok (map (\<lambda>n. (n, R V n)) (tr_outputs E))) Vs"
proof -
  have "snd (trt_session E feeds s) = map (\<lambda>V. Ok (map (\<lambda>n. (n, R V n)) (tr_outputs E))) Vs" if "\<And>n. only_shape K s n" for s
    using assms(2,3) that
  proof (induction arbitrary: s rule: list_all2_induct)
    case (Cons f fs V Vs)
    from Cons.prems(1) [of V] obtain outs where "tr_run E (map (\<lambda>n. (n, V n)) (tr_inputs E)) = Some outs"
      "\<And>n. n \<in> set (tr_outputs E) \<Longrightarrow> map_of outs n = Some (R V n)" by auto
    from trt_infer_exact [OF assms(1) Cons.hyps(1) Cons.prems(2) this] obtain s' where
      s': "trt_infer E f s = (s', Ok (map (\<lambda>n. (n, R V n)) (tr_outputs E)))" "\<And>n. only_shape K s' n" by blast
    with Cons.IH [OF _ s'(2)] Cons.prems(1) show ?case by (auto split: prod.splits)
  qed simp
  then show ?thesis by (simp add: only_shape_def trt_init_def)
qed

text \<open>An engine that returns its input, with a dynamic first axis.\<close>

definition echo_engine :: trt where
  "echo_engine =
     \<lparr>tr_inputs = [''images''], tr_outputs = [''visual_tokens''], tr_dtype = (\<lambda>_. DF32), tr_shape = (\<lambda>_. [- 1]),
      tr_context_shape = (\<lambda>shapes _. case shapes ''images'' of None \<Rightarrow> [- 1] | Some sh \<Rightarrow> map int sh),
      tr_run = (\<lambda>ins. map_option (\<lambda>v. [(''visual_tokens'', v)]) (map_of ins ''images'')),
      tr_empty = (\<lambda>_ sh. nd_of_f32s sh []), tr_assign = (\<lambda>_ v. Ok v), tr_cast = (\<lambda>_ _. Err (TypeError ''cast''))\<rparr>"

theorem trt_session_exact_witness:
  "snd (trt_session echo_engine [[(''images'', nd_of_f32s [1] [7])], [(''images'', nd_of_f32s [1] [8])]] trt_init) =
     [Ok [(''visual_tokens'', nd_of_f32s [1] [7])], Ok [(''visual_tokens'', nd_of_f32s [1] [8])]]"
proof -
  let ?K = "\<lambda>_ :: string. [1]" and ?V = "\<lambda>x (_ :: string). nd_of_f32s [1] [x]"
  have E: "engine_ok echo_engine ?K" "list_all2 (feed_ok echo_engine ?K)
      [[(''images'', nd_of_f32s [1] [7])], [(''images'', nd_of_f32s [1] [8])]] [?V 7, ?V 8]"
    by (simp_all add: engine_ok_def feed_ok_def echo_engine_def dynamic_input_def as_dtype_def)
  have "\<exists>outs. tr_run echo_engine (map (\<lambda>n. (n, V n)) (tr_inputs echo_engine)) = Some outs \<and>
      (\<forall>n \<in> set (tr_outputs echo_engine). map_of outs n = Some (V ''images''))" for V
    by (simp add: echo_engine_def)
  from trt_session_exact [OF E, of "\<lambda>V n. V ''images''", OF this] show ?thesis
    by (simp add: echo_engine_def)
qed

text \<open>
  The hypothesis on the shapes cannot be dropped.  A buffer that exists already is not
  bound again, so that after a call with another shape the first shape executes on the
  buffers of the second: the third call returns the result of the first, whatever it
  feeds.
\<close>

lemma trt_shape_change_stale:
  assumes "nd_dtype a = DF32" "nd_dtype b = DF32" "nd_dtype c = DF32"
    and "nd_shape a = [1]" "nd_shape b = [2]" "nd_shape c = [1]"
  shows "snd (trt_session echo_engine [[(''images'', a)], [(''images'', b)], [(''images'', c)]] trt_init) =
    [Ok [(''visual_tokens'', a)], Ok [(''visual_tokens'', b)], Ok [(''visual_tokens'', a)]]"
  using assms
  by (simp add: echo_engine_def trt_infer_def trt_init_def as_dtype_def dynamic_input_def ensure_inputs_def input_key_def
      ensure_buffer_def output_dims_def Let_def trt_execute_def bound_value_def write_outputs_def read_outputs_def map_filter_def)

end
