(* ===== verification/Turbovla.thy ===== *)
theory Turbovla
  imports Vision_Batch Vision_Token_Cache Throttle Robots
begin

text \<open>
  The split TurboVLA policy (\<open>models/turbovla/split_tensorrt.py\<close>), the backend around
  it (\<open>tensorrt.py\<close>), its request-level runner (\<open>runner.py\<close>) and the model's contract
  (\<open>common.py\<close>).  The four engines, OpenCV's \<open>resize\<close> and the \<open>float32\<close> arithmetic are
  parameters; the text stage's masks and the normalisation have theories of their
  own, as has the vision engine's buffer management.  The plugins are those of the
  respective theories.
\<close>

section \<open>Contract\<close>

definition turbovla_spec ::
    "(pyval \<Rightarrow> string) \<Rightarrow> (string \<Rightarrow> robot_contract res) \<Rightarrow> string \<Rightarrow> pydict \<Rightarrow> int \<Rightarrow> (string \<times> pyval) list \<Rightarrow>
     model_spec res" where
  "turbovla_spec show_val robot_of backend config default_period_ns extras =
     res_bind (vb_config_from_mapping (dget_none config ''vision_batching'')) (\<lambda>vc.
     res_bind (robot_of (py_str show_val (dget_or config ''robot'' (PStr ''dazz-s600'')))) (\<lambda>robot.
     res_bind (camera_names (dget_or config ''camera_order''
                 (PList [PStr ''head'', PStr ''left_wrist'', PStr ''right_wrist'']))) (\<lambda>cams.
     res_bind (py_int (dget_or config ''control_period_ns'' (PInt default_period_ns))) (\<lambda>per.
       model_spec_post_init
         \<lparr>ms_name = py_str show_val (dget_or config ''model_name'' (PStr ''TurboVLA-RoboTwin'')), ms_backend = backend,
          ms_raw_state_dim = rc_raw_state_dim robot, ms_model_state_dim = 14,
          ms_raw_action_dim = rc_raw_action_dim robot, ms_model_action_dim = 14, ms_action_horizon = 50,
          ms_camera_order = cams, ms_action_representation = ''absolute'', ms_control_period_ns = per,
          ms_extras = ddisplay
            [(PStr ''model_input_shape'', PList [PInt 1, PInt 14]),
             (PStr ''model_output_shape'', PList [PInt 1, PInt 50, PInt 14]),
             (PStr ''robot_command_dim'', PInt (command_action_dim robot)),
             (PStr ''vision_batching'', PDict (map (\<lambda>(k, v). (PStr k, v))
                (vp_metadata (\<lparr>vp_config = vc, vp_encoder = None, vp_batcher = None\<rparr> :: ndarray vb_plugin))))] extras\<rparr>))))"

section \<open>State\<close>

record ('t, 'c) tv_env =
  tv_cast :: "dtype \<Rightarrow> ndarray \<Rightarrow> ndarray res"
  tv_div255 :: "f32 \<Rightarrow> f32"
  tv_resize :: "ndarray \<Rightarrow> ndarray"
  tv_standardise :: "ndarray \<Rightarrow> ndarray"
  tv_vision :: "ndarray \<Rightarrow> ndarray res"
  tv_text :: "string \<Rightarrow> 't res"
  tv_fusion :: "'t \<Rightarrow> ndarray \<Rightarrow> 'c res"
  tv_action :: "'c \<Rightarrow> ndarray \<Rightarrow> ndarray res"
  tv_normalize :: "ndarray \<Rightarrow> ndarray res"
  tv_unnormalize :: "ndarray \<Rightarrow> ndarray res"
  tv_distance :: "ndarray \<Rightarrow> ndarray \<Rightarrow> pyfloat res"
  tv_sha256 :: "byte list \<Rightarrow> byte list"

record 't tv_policy =
  pv_prefix :: "'t prefix_cache"
  pv_vtc :: "ndarray vtc"
  pv_throttle :: "ndarray throttle"
  pv_cascade :: "(ndarray option \<times> ndarray) cascade"
  pv_last_actions :: "ndarray option"
  pv_last_state :: "ndarray option"

fun pf_clip_unit :: "pyfloat \<Rightarrow> pyfloat" where
  "pf_clip_unit (Fin x) = Fin (min (max x 0) 1)"
| "pf_clip_unit PInf = Fin 1"
| "pf_clip_unit NInf = Fin 0"
| "pf_clip_unit NaN = NaN"

text \<open>The scorer sees the last state through the policy; here it is part of its argument.\<close>

definition difficulty :: "('t, 'c) tv_env \<Rightarrow> ndarray option \<times> ndarray \<Rightarrow> pyval res" where
  "difficulty env ctxt =
     res_bind (as_dtype (tv_cast env) DF32 (snd ctxt)) (\<lambda>state.
       case fst ctxt of
         None \<Rightarrow> Ok (PFloat (Fin 1))
       | Some last_state \<Rightarrow> res_bind (tv_distance env state last_state) (\<lambda>d. Ok (PFloat (pf_clip_unit d))))"

definition tv_init ::
    "('t, 'c) tv_env \<Rightarrow> pydict \<Rightarrow> pyval \<Rightarrow> pyval \<Rightarrow> pyval \<Rightarrow> pyval \<Rightarrow> 't tv_policy res" where
  "tv_init env engines prefix_cache vision_token_cache perception_throttle cascade =
     (if list_ex (\<lambda>name. \<not> py_bool (dget_none engines name)) [''vision'', ''text'', ''fusion'', ''action'']
      then Err (ValueError ''missing split TurboVLA engines'')
      else res_bind (prefix_config_from_mapping prefix_cache) (\<lambda>pc.
           res_bind (vtc_config_from_mapping vision_token_cache) (\<lambda>vc.
           res_bind (throttle_config_from_mapping perception_throttle) (\<lambda>tc.
           res_bind (cascade_config_from_mapping cascade) (\<lambda>cc.
             Ok \<lparr>pv_prefix = prefix_cache_init (Some (tv_text env)) pc, pv_vtc = vtc_init (Some (tv_vision env)) None vc,
                 pv_throttle = throttle_init True tc, pv_cascade = cascade_init (Some (difficulty env)) cc,
                 pv_last_actions = None, pv_last_state = None\<rparr>)))))"

section \<open>Vision\<close>

text \<open>The entries of an array along its first axis.\<close>

definition nd_items :: "ndarray \<Rightarrow> ndarray list" where
  "nd_items a =
     (case nd_shape a of
        [] \<Rightarrow> []
      | n # sh \<Rightarrow> map (\<lambda>bs. \<lparr>nd_dtype = nd_dtype a, nd_shape = sh, nd_data = bs\<rparr>)
                    (chunks n (prod_list sh * itemsize (nd_dtype a)) (nd_data a)))"

definition prepare_view :: "('t, 'c) tv_env \<Rightarrow> ndarray \<Rightarrow> ndarray" where
  "prepare_view env img = channels_first (tv_standardise env (tv_resize env (channels_last img)))"

definition prepare_sample :: "('t, 'c) tv_env \<Rightarrow> ndarray \<Rightarrow> ndarray" where
  "prepare_sample env sample = np_stack (map (prepare_view env) (nd_items sample))"

definition encode_vision ::
    "('t, 'c) tv_env \<Rightarrow> pyfloat \<times> pyfloat \<Rightarrow> ndarray \<Rightarrow> 't tv_policy \<Rightarrow> 't tv_policy \<times> ndarray option res" where
  "encode_vision env now batch p =
     (case as_dtype (tv_cast env) DF32 batch of
        Err e \<Rightarrow> (p, Err e)
      | Ok value \<Rightarrow>
          if \<not> (nd_ndim value = 5 \<and> nd_shape value ! 1 = 3 \<and> nd_shape value ! 2 = 3)
          then (p, Err (ValueError ''expected [B,3,3,H,W] vision batch''))
          else if nd_shape value ! 0 = 0 then (p, Err (ValueError ''need at least one array to stack''))
          else let images = np_stack (map (prepare_sample env) (nd_items value))
               in if throttle_mode (pv_throttle p) = ''native''
                  then (case throttle_get (tv_vision env) (fst now) (snd now) images (pv_throttle p) of
                          (t, r) \<Rightarrow> (p\<lparr>pv_throttle := t\<rparr>, res_bind r (\<lambda>(tokens, _). Ok tokens)))
                  else if vtc_mode (pv_vtc p) = ''native''
                  then (case encode (tv_sha256 env) ''scene'' images (pv_vtc p) of
                          (c, r) \<Rightarrow> (p\<lparr>pv_vtc := c\<rparr>,
                            res_bind r (\<lambda>(out, _). Ok (Some (case out of RawImage a \<Rightarrow> a | Tokens t \<Rightarrow> t)))))
                  else (p, res_bind (tv_vision env images) (\<lambda>t. Ok (Some t))))"

section \<open>Prediction\<close>

definition text_bundle :: "('t, 'c) tv_env \<Rightarrow> string \<Rightarrow> 't tv_policy \<Rightarrow> 't tv_policy \<times> 't res" where
  "text_bundle env prompt p =
     (case get_or_compute prompt (pv_prefix p) of
        (c, Err e) \<Rightarrow> (p\<lparr>pv_prefix := c\<rparr>, Err e)
      | (c, Ok (Some bundle, _)) \<Rightarrow> (p\<lparr>pv_prefix := c\<rparr>, Ok bundle)
      | (c, Ok (None, _)) \<Rightarrow> (p\<lparr>pv_prefix := c\<rparr>, tv_text env prompt))"

text \<open>Fusion and action expert; \<open>tokens\<close> is \<open>None\<close> when the throttle had nothing to reuse.\<close>

definition run_expert :: "('t, 'c) tv_env \<Rightarrow> ndarray option \<Rightarrow> ndarray \<Rightarrow> 't \<Rightarrow> ndarray res" where
  "run_expert env tokens state bundle =
     (case tokens of
        None \<Rightarrow> Err (ValueError ''cannot reshape array'')
      | Some tok \<Rightarrow>
          res_bind (as_dtype (tv_cast env) DF32 tok) (\<lambda>t.
            if prod_list (nd_shape t) \<noteq> 588 * 256 then Err (ValueError ''cannot reshape array'')
            else res_bind (tv_fusion env bundle (t\<lparr>nd_shape := [1, 588, 256]\<rparr>)) (\<lambda>condition.
                 res_bind (tv_normalize env state) (\<lambda>s.
                 res_bind (res_bind (tv_action env condition s) (as_dtype (tv_cast env) DF32)) (\<lambda>actions.
                   if nd_shape actions \<noteq> [1, 50, 14] \<or> \<not> nd_isfinite actions
                   then Err (RuntimeError ''unexpected split TensorRT action output'')
                   else Ok actions)))))"

definition predict_from_vision ::
    "('t, 'c) tv_env \<Rightarrow> pyfloat \<Rightarrow> ndarray option \<Rightarrow> ndarray \<Rightarrow> string \<Rightarrow> 't tv_policy \<Rightarrow>
     't tv_policy \<times> (ndarray \<times> (string \<times> pyfloat) list) res" where
  "predict_from_vision env ms tokens state prompt p =
     (case text_bundle env prompt p of
        (p', r) \<Rightarrow>
          (p', res_bind r (\<lambda>bundle. res_bind (run_expert env tokens state bundle) (\<lambda>actions.
                 Ok (actions, [(''split_policy_total_ms'', ms)])))))"

text \<open>
  \<open>np.asarray(images, dtype=np.float32)\<close>, channels first, in the unit interval: the
  preparation that \<open>predict_timed\<close> and the runner share.
\<close>

definition stack_views :: "('t, 'c) tv_env \<Rightarrow> ndarray list \<Rightarrow> ndarray res" where
  "stack_views env images =
     res_bind (mapM (as_dtype (tv_cast env) DF32) images) (\<lambda>vs.
       if vs = [] then Err (ValueError ''expected three images'')
       else if \<not> same_shapes vs then Err (ValueError ''setting an array element with a sequence'')
       else let value = np_stack vs
            in if nd_ndim value \<noteq> 4 then Err (ValueError ''expected three images'')
               else let (sh, xs) = (if last (nd_shape value) = 3 then views_first (nd_shape value) (nd_f32s value)
                                    else (nd_shape value, nd_f32s value))
                    in Ok (nd_of_f32s sh (if exceeds_unit xs then map (tv_div255 env) xs else xs)))"

definition predict_timed ::
    "('t, 'c) tv_env \<Rightarrow> pyfloat \<times> pyfloat \<Rightarrow> pyfloat \<Rightarrow> ndarray list \<Rightarrow> ndarray \<Rightarrow> string \<Rightarrow> 't tv_policy \<Rightarrow>
     't tv_policy \<times> (ndarray \<times> (string \<times> pyfloat) list) res" where
  "predict_timed env now ms images state prompt p0 =
     (case (if cascade_mode (pv_cascade p0) = ''native''
            then (case cascade_route (pv_last_state p0, state) (pv_cascade p0) of (c, r) \<Rightarrow> (p0\<lparr>pv_cascade := c\<rparr>, r))
            else (p0, Ok Heavy)) of
        (p, Err e) \<Rightarrow> (p, Err e)
      | (p, Ok route) \<Rightarrow>
          (case (route, pv_last_actions p) of
             (Light, Some actions) \<Rightarrow> (p, Ok (actions, [(''cascade_route_light'', Fin 1)]))
           | _ \<Rightarrow>
               (case stack_views env images of
                  Err e \<Rightarrow> (p, Err e)
                | Ok value \<Rightarrow>
                    (case encode_vision env now (np_stack [value]) p of
                       (p1, Err e) \<Rightarrow> (p1, Err e)
                     | (p1, Ok tokens) \<Rightarrow>
                         (case predict_from_vision env ms tokens state prompt p1 of
                            (p2, Err e) \<Rightarrow> (p2, Err e)
                          | (p2, Ok (actions, timing)) \<Rightarrow>
                              (case as_dtype (tv_cast env) DF32 state of
                                 Err e \<Rightarrow> (p2, Err e)
                               | Ok s \<Rightarrow> (p2\<lparr>pv_last_state := Some s, pv_last_actions := Some actions\<rparr>,
                                         Ok (actions, timing))))))))"

definition plugin_metadata :: "'t tv_policy \<Rightarrow> (string \<times> pyval) list" where
  "plugin_metadata p =
     (let entry = (\<lambda>kvs. PDict (map (\<lambda>(k, v). (PStr k, v)) kvs))
      in [(''prefix_cache'', entry (prefix_metadata (pv_prefix p))),
          (''vision_token_cache'', entry (vtc_metadata (pv_vtc p))),
          (''perception_throttle'', entry (throttle_metadata (pv_throttle p))),
          (''cascade'', entry (cascade_metadata (pv_cascade p)))])"

section \<open>Backend\<close>

text \<open>
  Construction of the backend: the settings it requires, the policy, and the contract
  with its three cameras.  \<open>is_dir\<close> asks the file system; \<open>monolithic\<close> builds the policy of
  the module \<open>trt_policy\<close>, which is not part of the repository.
\<close>

definition missing_settings :: "pydict \<Rightarrow> string list" where
  "missing_settings config =
     filter (\<lambda>key. \<not> py_bool (dget_none config key))
       ([''runtime_root'', ''tokenizer'', ''stats''] @
        (if py_bool (dget_none config ''split_engines'') then [] else [''engine'']))"

definition tv_make_policy ::
    "('t, 'c) tv_env \<Rightarrow> (pydict \<Rightarrow> 'p res) \<Rightarrow> pydict \<Rightarrow> ('t tv_policy + 'p) res" where
  "tv_make_policy env monolithic config =
     (let split = dget_none config ''split_engines''
      in if py_bool split
         then (case split of
                 PDict engines \<Rightarrow>
                   res_bind (tv_init env engines (dget_none config ''prefix_cache'')
                               (dget_none config ''vision_token_cache'') (dget_none config ''perception_throttle'')
                               (dget_none config ''cascade'')) (\<lambda>p. Ok (Inl p))
               | _ \<Rightarrow> Err (AttributeError ''get''))
         else res_bind (monolithic config) (\<lambda>p. Ok (Inr p)))"

definition tv_backend_init ::
    "('t, 'c) tv_env \<Rightarrow> (pyval \<Rightarrow> string) \<Rightarrow> (string \<Rightarrow> robot_contract res) \<Rightarrow> (pyval \<Rightarrow> bool) \<Rightarrow> (pydict \<Rightarrow> 'p res) \<Rightarrow>
     pydict \<Rightarrow> (('t tv_policy + 'p) \<times> vb_config \<times> model_spec) res" where
  "tv_backend_init env show_val robot_of is_dir monolithic config =
     (if missing_settings config \<noteq> [] then Err (ValueError ''missing TurboVLA backend settings'')
      else if \<not> is_dir (dget_none config ''runtime_root'') then Err (OtherError ''FileNotFoundError'')
      else res_bind (tv_make_policy env monolithic config) (\<lambda>policy.
           res_bind (vb_config_from_mapping (dget_none config ''vision_batching'')) (\<lambda>vision.
           res_bind (turbovla_spec show_val robot_of ''turbovla-tensorrt'' config 100000000 []) (\<lambda>spec.
             if length (ms_camera_order spec) \<noteq> 3
             then Err (ValueError ''TurboVLA requires exactly three camera names'')
             else Ok (policy, vision, spec)))))"

text \<open>\<open>create_runner\<close>: only a split policy has one, with the backend's settings and the name and cameras of its contract.\<close>

definition tv_create_runner ::
    "('t, 'c) tv_env \<Rightarrow> (pyval \<Rightarrow> string) \<Rightarrow> (string \<Rightarrow> robot_contract res) \<Rightarrow> ('t tv_policy + 'p) \<Rightarrow> model_spec \<Rightarrow> pydict \<Rightarrow>
     ('t tv_policy \<times> model_spec) option res" where
  "tv_create_runner env show_val robot_of policy spec config =
     (case policy of
        Inr _ \<Rightarrow> Ok None
      | Inl _ \<Rightarrow>
          let cfg = ddisplay config [(''model_name'', PStr (ms_name spec)),
                                     (''camera_order'', PList (map PStr (ms_camera_order spec)))]
          in (case dget_none cfg ''split_engines'' of
                PDict engines \<Rightarrow>
                  res_bind (tv_init env engines (dget_none cfg ''prefix_cache'') (dget_none cfg ''vision_token_cache'')
                              (dget_none cfg ''perception_throttle'') (dget_none cfg ''cascade'')) (\<lambda>p.
                  res_bind (turbovla_spec show_val robot_of ''turbovla-tensorrt'' cfg 100000000 []) (\<lambda>sp.
                    Ok (Some (p, sp))))
              | _ \<Rightarrow> Err (AttributeError ''get'')))"

definition tv_metadata :: "model_spec \<Rightarrow> (string \<times> pyval) list \<Rightarrow> 't tv_policy \<Rightarrow> pydict" where
  "tv_metadata spec vision p =
     ddisplay (spec_metadata spec)
       ((''vision_batching'', PDict (map (\<lambda>(k, v). (PStr k, v)) vision)) # plugin_metadata p)"

text \<open>What backend and runner do with the normalised actions.\<close>

definition tv_finish ::
    "('t, 'c) tv_env \<Rightarrow> model_spec \<Rightarrow> ndarray \<Rightarrow> (string \<times> pyfloat) list \<Rightarrow> backend_result res" where
  "tv_finish env spec normalized timing =
     res_bind (as_dtype (tv_cast env) DF32 normalized) (\<lambda>n.
       if nd_shape n \<noteq> [1, 50, 14] then Err (RuntimeError ''unexpected TurboVLA output shape'')
       else res_bind (tv_unnormalize env n) (\<lambda>u.
            case nd_items u of
              [] \<Rightarrow> Err (IndexError ''index 0 is out of bounds'')
            | a # _ \<Rightarrow>
                res_bind (validate_actions (tv_cast env) spec a) (\<lambda>actions.
                  Ok \<lparr>br_actions = actions, br_representation = ms_action_representation spec,
                      br_control_period_ns = ms_control_period_ns spec, br_timing = timing\<rparr>)))"

text \<open>
  \<open>batched\<close> is the vision plugin's \<open>encode\<close> where the plugin is native (the batcher of
  \<open>Vision_Batch\<close>), and \<open>None\<close> otherwise.
\<close>

definition tv_infer ::
    "('t, 'c) tv_env \<Rightarrow> model_spec \<Rightarrow> (ndarray list \<Rightarrow> ndarray res) option \<Rightarrow> pyfloat \<times> pyfloat \<Rightarrow> pyfloat \<Rightarrow> infer_req \<Rightarrow>
     't tv_policy \<Rightarrow> 't tv_policy \<times> backend_result res" where
  "tv_infer env spec batched now ms request p =
     (case res_bind (validate_request spec request) (\<lambda>_. spec_images spec request) of
        Err e \<Rightarrow> (p, Err e)
      | Ok images \<Rightarrow>
          (case (case batched of
                   Some enc \<Rightarrow>
                     (case enc images of
                        Err e \<Rightarrow> (p, Err e)
                      | Ok vision \<Rightarrow> predict_from_vision env ms (Some vision) (rq_state request) (rq_instruction request) p)
                 | None \<Rightarrow> predict_timed env now ms images (rq_state request) (rq_instruction request) p) of
             (p', r) \<Rightarrow> (p', res_bind r (\<lambda>(normalized, timing). tv_finish env spec normalized timing))))"

section \<open>Runner\<close>

definition request_images :: "('t, 'c) tv_env \<Rightarrow> model_spec \<Rightarrow> infer_req \<Rightarrow> ndarray res" where
  "request_images env spec request = res_bind (spec_images spec request) (stack_views env)"

fun encode_each ::
    "('t, 'c) tv_env \<Rightarrow> (nat \<Rightarrow> pyfloat \<times> pyfloat) \<Rightarrow> nat \<Rightarrow> ndarray list \<Rightarrow> 't tv_policy \<Rightarrow>
     't tv_policy \<times> ndarray list res" where
  "encode_each env clk k [] p = (p, Ok [])"
| "encode_each env clk k (sample # samples) p =
     (case encode_vision env (clk k) (np_stack [sample]) p of
        (p', Err e) \<Rightarrow> (p', Err e)
      | (p', Ok None) \<Rightarrow> (p', Err (TypeError ''object is not subscriptable''))
      | (p', Ok (Some tokens)) \<Rightarrow>
          (case nd_items tokens of
             [] \<Rightarrow> (p', Err (IndexError ''index 0 is out of bounds''))
           | t # _ \<Rightarrow>
               (case encode_each env clk (Suc k) samples p' of
                  (p'', Err e) \<Rightarrow> (p'', Err e)
                | (p'', Ok ts) \<Rightarrow> (p'', Ok (t # ts)))))"

text \<open>The batched encoding, or one by one where a batch of several samples raises.\<close>

definition encode_batch ::
    "('t, 'c) tv_env \<Rightarrow> (nat \<Rightarrow> pyfloat \<times> pyfloat) \<Rightarrow> ndarray list \<Rightarrow> 't tv_policy \<Rightarrow> 't tv_policy \<times> ndarray option res" where
  "encode_batch env clk samples p =
     (case encode_vision env (clk 0) (np_stack samples) p of
        (p', Ok tokens) \<Rightarrow> (p', Ok tokens)
      | (p', Err e) \<Rightarrow>
          if length samples = 1 then (p', Err e)
          else (case encode_each env clk 1 samples p' of
                  (p'', Err e) \<Rightarrow> (p'', Err e)
                | (p'', Ok ts) \<Rightarrow>
                    (p'', if same_shapes ts then Ok (Some (np_stack ts))
                          else Err (ValueError ''all input arrays must have the same shape''))))"

fun continue_each ::
    "('t, 'c) tv_env \<Rightarrow> model_spec \<Rightarrow> pyfloat \<Rightarrow> pyfloat \<Rightarrow> (ndarray \<times> infer_req) list \<Rightarrow> 't tv_policy \<Rightarrow>
     't tv_policy \<times> backend_result list res" where
  "continue_each env spec ms vision_ms [] p = (p, Ok [])"
| "continue_each env spec ms vision_ms ((tokens, request) # rest) p =
     (case predict_from_vision env ms (Some tokens) (rq_state request) (rq_instruction request) p of
        (p', Err e) \<Rightarrow> (p', Err e)
      | (p', Ok (normalized, timing)) \<Rightarrow>
          (case tv_finish env spec normalized (timing @ [(''vision_ms'', vision_ms)]) of
             Err e \<Rightarrow> (p', Err e)
           | Ok out \<Rightarrow>
               (case continue_each env spec ms vision_ms rest p' of
                  (p'', Err e) \<Rightarrow> (p'', Err e)
                | (p'', Ok outs) \<Rightarrow> (p'', Ok (out # outs)))))"

definition tv_execute ::
    "('t, 'c) tv_env \<Rightarrow> model_spec \<Rightarrow> (nat \<Rightarrow> pyfloat \<times> pyfloat) \<Rightarrow> pyfloat \<Rightarrow> pyfloat \<Rightarrow> 't tv_policy \<Rightarrow>
     infer_req inference_request list \<Rightarrow> 't tv_policy \<times> backend_result list res" where
  "tv_execute env spec clk ms vision_ms p batch =
     (case mapM (\<lambda>r. request_images env spec (pl_body (as_backend_request r))) batch of
        Err e \<Rightarrow> (p, Err e)
      | Ok samples \<Rightarrow>
          if samples = [] then (p, Err (ValueError ''need at least one array to stack''))
          else if \<not> same_shapes samples then (p, Err (ValueError ''all input arrays must have the same shape''))
          else (case encode_batch env clk samples p of
                  (p', Err e) \<Rightarrow> (p', Err e)
                | (p', Ok None) \<Rightarrow> (p', Err (OtherError ''AttributeError''))
                | (p', Ok (Some tokens)) \<Rightarrow>
                    (case nd_shape tokens of
                       [] \<Rightarrow> (p', Err (IndexError ''tuple index out of range''))
                     | n # _ \<Rightarrow>
                         if n \<noteq> length batch then (p', Err (RuntimeError ''TurboVLA vision batch returned another size''))
                         else continue_each env spec ms vision_ms
                                (zip (nd_items tokens) (map (\<lambda>r. pl_body (as_backend_request r)) batch)) p')))"

section \<open>The contract's fields\<close>

lemma turbovla_spec_fields:
  assumes "turbovla_spec show_val robot_of backend config period extras = Ok spec"
  shows "ms_name spec = py_str show_val (dget_or config ''model_name'' (PStr ''TurboVLA-RoboTwin''))"
    and "camera_names (dget_or config ''camera_order'' (PList [PStr ''head'', PStr ''left_wrist'', PStr ''right_wrist''])) =
      Ok (ms_camera_order spec)"
    and "py_int (dget_or config ''control_period_ns'' (PInt period)) = Ok (ms_control_period_ns spec)"
    and "ms_model_state_dim spec = 14" "ms_model_action_dim spec = 14" "ms_action_horizon spec = 50"
  using assms by (auto simp: turbovla_spec_def model_spec_post_init_def Let_def split: if_splits)

end
