(* ===== verification/Turbovla_Norm.thy ===== *)
theory Turbovla_Norm
  imports Real_Tensors
begin

text \<open>
  Normalisation of states and actions in the split TurboVLA policy
  (\<open>models/turbovla/split_tensorrt.py\<close>), in exact real arithmetic.  The statistics
  are five vectors of length 14; without a statistics file they are the unit box.
\<close>

section \<open>Definitions\<close>

record norm_stats =
  ns_state_min :: "real list"
  ns_state_max :: "real list"
  ns_action_min :: "real list"
  ns_action_max :: "real list"
  ns_mask :: "bool list"

definition default_stats :: norm_stats where
  "default_stats =
     \<lparr>ns_state_min = replicate 14 0, ns_state_max = replicate 14 1, ns_action_min = replicate 14 0,
      ns_action_max = replicate 14 1, ns_mask = replicate 14 True\<rparr>"

definition clip_unit :: "real \<Rightarrow> real" where
  "clip_unit x = min (max x (- 1)) 1"

definition state_valid :: "norm_stats \<Rightarrow> nat \<Rightarrow> bool" where
  "state_valid st i = (ns_mask st ! i \<and> ns_state_max st ! i \<noteq> ns_state_min st ! i)"

definition normalize_value :: "norm_stats \<Rightarrow> nat \<Rightarrow> real \<Rightarrow> real" where
  "normalize_value st i x =
     (if state_valid st i
      then clip_unit (2 * (x - ns_state_min st ! i) / (ns_state_max st ! i - ns_state_min st ! i) - 1)
      else x)"

definition normalize_state :: "norm_stats \<Rightarrow> rtensor \<Rightarrow> rtensor res" where
  "normalize_state st state =
     (if length (rt_data state) \<noteq> 14 then Err (ValueError ''cannot reshape array'')
      else Ok \<lparr>rt_shape = [1, 14], rt_data = map (\<lambda>i. normalize_value st i (rt_data state ! i)) [0 ..< 14]\<rparr>)"

definition unnormalize_value :: "norm_stats \<Rightarrow> real \<Rightarrow> nat \<Rightarrow> real \<Rightarrow> real" where
  "unnormalize_value st threshold i x =
     (let n = clip_unit x
      in if ns_mask st ! i
         then 1 / 2 * (n + 1) * (ns_action_max st ! i - ns_action_min st ! i) + ns_action_min st ! i
         else if threshold < n then 1 else 0)"

definition unnormalize_actions :: "norm_stats \<Rightarrow> real \<Rightarrow> rtensor \<Rightarrow> rtensor res" where
  "unnormalize_actions st threshold normalized =
     (if rt_shape normalized = [] \<or> rt_last normalized \<noteq> 14
      then Err (ValueError ''operands could not be broadcast together'')
      else Ok (of_rows (butlast (rt_shape normalized)) 14
             (map (\<lambda>r. map (\<lambda>i. unnormalize_value st threshold i (r ! i)) [0 ..< 14]) (rt_rows normalized))))"

section \<open>Properties\<close>

lemma clip_unit_bounds: "- 1 \<le> clip_unit x" "clip_unit x \<le> 1"
  by (simp_all add: clip_unit_def)

lemma clip_unit_id: "- 1 \<le> x \<Longrightarrow> x \<le> 1 \<Longrightarrow> clip_unit x = x"
  by (simp add: clip_unit_def)

lemma unnormalize_value_bounds:
  "if ns_mask st ! i
   then ns_action_min st ! i \<le> ns_action_max st ! i \<longrightarrow>
     ns_action_min st ! i \<le> unnormalize_value st threshold i x \<and> unnormalize_value st threshold i x \<le> ns_action_max st ! i
   else unnormalize_value st threshold i x \<in> {0, 1}"
proof -
  let ?n = "clip_unit x" and ?lo = "ns_action_min st ! i" and ?hi = "ns_action_max st ! i"
  have "0 \<le> 1 / 2 * (?n + 1) * (?hi - ?lo)" "1 / 2 * (?n + 1) * (?hi - ?lo) \<le> ?hi - ?lo" if "?lo \<le> ?hi"
    using clip_unit_bounds [of x] that mult_right_mono [of "?n + 1" 2 "?hi - ?lo"] by simp_all
  then show ?thesis by (auto simp: unnormalize_value_def Let_def)
qed

text \<open>
  Actions leave the policy inside the box of the statistics.  Whatever the action
  expert computes, every coordinate of the result lies between the least and the
  greatest action of its dimension, and a binary dimension is zero or one.
\<close>

theorem unnormalized_actions_boxed:
  assumes "unnormalize_actions st threshold normalized = Ok actions" and "rt_wf normalized"
    and "\<forall>i < 14. ns_action_min st ! i \<le> ns_action_max st ! i"
    and "r \<in> set (rt_rows actions)" and "i < 14"
  shows "if ns_mask st ! i then ns_action_min st ! i \<le> r ! i \<and> r ! i \<le> ns_action_max st ! i else r ! i \<in> {0, 1}"
proof -
  let ?f = "\<lambda>r. map (\<lambda>i. unnormalize_value st threshold i (r ! i)) [0 ..< 14]"
  from assms(1) have sh: "rt_shape normalized \<noteq> []"
    and a: "actions = of_rows (butlast (rt_shape normalized)) 14 (map ?f (rt_rows normalized))"
    by (auto simp: unnormalize_actions_def split: if_splits)
  have "rt_rows actions = map ?f (rt_rows normalized)"
    unfolding a using rt_rows_wide(2) [OF assms(2) sh] by (intro rt_rows_of_rows) (auto intro: rows_wide_map)
  with assms(4,5) obtain x where "r ! i = unnormalize_value st threshold i x" by auto
  with unnormalize_value_bounds [of st i threshold x] assms(3,5) show ?thesis by (auto split: if_splits)
qed



end
