(* ===== verification/Turbovla_Text.thy ===== *)
theory Turbovla_Text
  imports EI_Prelude
begin

text \<open>
  The attention mask and the positions of the text stage (\<open>SplitTensorRTPolicy._text\<close>
  in \<open>models/turbovla/split_tensorrt.py\<close>).  The tokenizer is a parameter: it gives
  the 256 identifiers.  A mask is a function of query and key position.
\<close>

section \<open>Definitions\<close>

text \<open>\<open>np.flatnonzero(np.isin(ids[0], list(specials)))\<close>\<close>

definition special_cols :: "int list \<Rightarrow> int list \<Rightarrow> nat list" where
  "special_cols specials ids = filter (\<lambda>c. ids ! c \<in> set specials) [0 ..< length ids]"

fun text_scan ::
    "nat list \<Rightarrow> nat \<Rightarrow> (nat \<Rightarrow> nat \<Rightarrow> bool) \<Rightarrow> (nat \<Rightarrow> nat) \<Rightarrow> (nat \<Rightarrow> nat \<Rightarrow> bool) \<times> (nat \<Rightarrow> nat)" where
  "text_scan [] previous att position = (att, position)"
| "text_scan (col # cols) previous att position =
     (if col = 0 \<or> col = 255
      then text_scan cols col (\<lambda>i j. att i j \<or> i = col \<and> j = col) (position(col := 0))
      else text_scan cols col
             (\<lambda>i j. att i j \<or> previous < i \<and> i \<le> col \<and> previous < j \<and> j \<le> col)
             (\<lambda>i. if previous < i \<and> i \<le> col then i - (previous + 1) else position i))"

definition text_masks :: "int list \<Rightarrow> int list \<Rightarrow> (nat \<Rightarrow> nat \<Rightarrow> bool) \<times> (nat \<Rightarrow> nat)" where
  "text_masks specials ids = text_scan (special_cols specials ids) 0 (\<lambda>i j. i = j) (\<lambda>i. 0)"

section \<open>Segments\<close>

text \<open>The blocks that the scan of \<open>cols\<close> opens behind \<open>previous\<close>.\<close>

fun in_block :: "nat \<Rightarrow> nat list \<Rightarrow> nat \<Rightarrow> nat \<Rightarrow> bool" where
  "in_block previous [] i j = False"
| "in_block previous (c # cs) i j =
     (c \<noteq> 0 \<and> c \<noteq> 255 \<and> previous < i \<and> i \<le> c \<and> previous < j \<and> j \<le> c \<or> in_block c cs i j)"

lemma text_scan_mask:
  assumes "\<And>i. att i i"
  shows "fst (text_scan cols previous att position) i j = (att i j \<or> in_block previous cols i j)"
  using assms
proof (induction cols arbitrary: previous att position)
  case (Cons c cols)
  let ?a = "\<lambda>i j. att i j \<or> i = c \<and> j = c" and ?b = "\<lambda>i j. att i j \<or> previous < i \<and> i \<le> c \<and> previous < j \<and> j \<le> c"
  show ?case
  proof (cases "c = 0 \<or> c = 255")
    case True
    have "fst (text_scan cols c ?a (position(c := 0))) i j = (?a i j \<or> in_block c cols i j)"
      using Cons.prems by (intro Cons.IH) simp
    with True Cons.prems [of c] show ?thesis by auto
  next
    case False
    have "fst (text_scan cols c ?b (\<lambda>i. if previous < i \<and> i \<le> c then i - (previous + 1) else position i)) i j =
        (?b i j \<or> in_block c cols i j)"
      using Cons.prems by (intro Cons.IH) simp
    with False show ?thesis by auto
  qed
qed simp

lemma in_block_sym: "in_block previous cols i j = in_block previous cols j i"
  by (induction previous cols i j rule: in_block.induct) auto

text \<open>A block holds what lies between two neighbouring special tokens, the closing one included.\<close>

lemma in_block_iff:
  assumes "sorted_wrt (<) (previous # cols)" and "\<forall>c \<in> set cols. c \<le> 255" and "i \<le> j"
  shows "in_block previous cols i j \<longleftrightarrow>
    previous < i \<and> (\<forall>c \<in> set cols. \<not> (i \<le> c \<and> c < j)) \<and> (\<exists>c \<in> set cols. j \<le> c \<and> c \<noteq> 255)"
  using assms
proof (induction cols arbitrary: previous)
  case (Cons c cols)
  have IH: "in_block c cols i j \<longleftrightarrow> c < i \<and> (\<forall>c' \<in> set cols. \<not> (i \<le> c' \<and> c' < j)) \<and> (\<exists>c' \<in> set cols. j \<le> c' \<and> c' \<noteq> 255)"
    using Cons.prems by (intro Cons.IH) auto
  have lt: "previous < c" "\<And>c'. c' \<in> set cols \<Longrightarrow> c < c'" "c \<le> 255" "\<And>c'. c' \<in> set cols \<Longrightarrow> c' \<le> 255"
    using Cons.prems by auto
  show ?case
  proof (cases "c = 255")
    case True
    with lt have "cols = []" by (metis leD list.set_intros(1) neq_Nil_conv)
    with True show ?thesis by simp
  next
    case False
    with lt IH Cons.prems(3) show ?thesis by (auto dest: lt(2))
  qed
qed simp

text \<open>Positions count from the last special token.\<close>

lemma text_scan_position_outside:
  "\<forall>c \<in> set cols. i < c \<and> i \<le> previous \<Longrightarrow> snd (text_scan cols previous att position) i = position i"
  by (induction cols arbitrary: previous att position) auto

lemma text_scan_position_mask: "snd (text_scan cols previous att position) = snd (text_scan cols previous att' position)"
proof (induction cols arbitrary: previous att att' position)
  case (Cons c cols)
  show ?case by (auto intro: Cons)
qed simp

lemma text_scan_position:
  assumes "sorted_wrt (<) (previous # cols)" and "previous < i" and "c \<in> set cols" and "i \<le> c" and "c \<noteq> 255"
    and "\<forall>c \<in> set cols. c \<le> 255"
  shows "snd (text_scan cols previous att position) i = i - 1 - Max (insert previous {c \<in> set cols. c < i})"
  using assms
proof (induction cols arbitrary: previous att position)
  case (Cons d cols)
  have lt: "previous < d" "\<And>c'. c' \<in> set cols \<Longrightarrow> d < c'" using Cons.prems by auto
  have d: "d \<noteq> 0" using lt by simp
  show ?case
  proof (cases "i \<le> d")
    case True
    have "d \<noteq> 255"
    proof
      assume "d = 255"
      with Cons.prems(3,5,6) lt(2) [of c] show False by auto
    qed
    moreover have "{c \<in> set (d # cols). c < i} = {}" using True by (auto dest: lt(2))
    then have "Max (insert previous {c \<in> set (d # cols). c < i}) = previous" by (simp only: Max_singleton)
    moreover have "snd (text_scan cols d a p) i = p i" for a p
      using True by (intro text_scan_position_outside) (auto dest: lt(2))
    ultimately show ?thesis using True d Cons.prems(2) by simp
  next
    case False
    have "snd (text_scan cols d a p) i = i - 1 - Max (insert d {c \<in> set cols. c < i})" for a p
      using Cons.prems False by (intro Cons.IH) auto
    moreover have "Max (insert previous {c \<in> set (d # cols). c < i}) = Max (insert d {c \<in> set cols. c < i})"
    proof -
      have "insert previous {c \<in> set (d # cols). c < i} = insert previous (insert d {c \<in> set cols. c < i})" using False by auto
      also have "Max \<dots> = max previous (Max (insert d {c \<in> set cols. c < i}))" by (intro Max_insert) auto
      also have "\<dots> = Max (insert d {c \<in> set cols. c < i})" using lt(1) by (auto simp: max_def Max_ge_iff)
      finally show ?thesis .
    qed
    ultimately show ?thesis by simp
  qed
qed simp

section \<open>Properties\<close>

text \<open>
  C34: Text tokens attend within their segment only.  The mask is reflexive and
  symmetric, and a token attends to a later one exactly if no special token lies
  between them and the segment is closed by a special token before the last column;
  in such a segment the positions count from the last special token.
\<close>

theorem text_masks_segments:
  assumes "length ids = 256"
  shows "fst (text_masks specials ids) i i \<and>
    fst (text_masks specials ids) i j = fst (text_masks specials ids) j i \<and>
    (i < j \<longrightarrow> fst (text_masks specials ids) i j =
       (0 < i \<and> (\<forall>c \<in> set (special_cols specials ids). \<not> (i \<le> c \<and> c < j)) \<and>
        (\<exists>c \<in> set (special_cols specials ids). j \<le> c \<and> c \<noteq> 255))) \<and>
    (0 < i \<and> (\<exists>c \<in> set (special_cols specials ids). i \<le> c \<and> c \<noteq> 255) \<longrightarrow>
       snd (text_masks specials ids) i = i - 1 - Max (insert 0 {c \<in> set (special_cols specials ids). c < i}))"
proof -
  let ?cols = "special_cols specials ids"
  define cs where "cs = filter (\<lambda>c. 0 < c) ?cols"
  have sorted: "sorted_wrt (<) ?cols"
    unfolding special_cols_def by (intro sorted_wrt_filter) (simp add: sorted_wrt_upt)
  have split: "?cols = cs \<or> ?cols = 0 # cs"
  proof (cases ?cols)
    case (Cons c cols)
    with sorted have "0 < d" if "d \<in> set cols" for d using that by auto
    then have "filter (\<lambda>c. 0 < c) cols = cols" by (auto simp: filter_id_conv)
    with Cons show ?thesis by (auto simp: cs_def)
  qed (simp add: cs_def)
  have cs: "sorted_wrt (<) (0 # cs)" "\<forall>c \<in> set cs. c \<le> 255"
    using sorted assms by (auto simp: cs_def special_cols_def intro: sorted_wrt_filter)
  have sets: "set ?cols \<subseteq> insert 0 (set cs)" "set cs \<subseteq> set ?cols" "\<And>c. c \<in> set ?cols \<Longrightarrow> 0 < c \<Longrightarrow> c \<in> set cs"
    by (auto simp: cs_def)
  have m: "fst (text_masks specials ids) i j = (i = j \<or> in_block 0 cs i j)" for i j
    using split by (auto simp: text_masks_def text_scan_mask)
  have p: "snd (text_masks specials ids) = snd (text_scan cs 0 att (\<lambda>i. 0))" for att
  proof -
    have zero: "(\<lambda>i :: nat. 0 :: nat)(0 := 0) = (\<lambda>i. 0)" by auto
    from split show ?thesis
    proof
      assume "?cols = cs"
      then show ?thesis unfolding text_masks_def by (simp only:) (rule text_scan_position_mask)
    next
      assume "?cols = 0 # cs"
      then show ?thesis unfolding text_masks_def by (simp only: text_scan.simps zero simp_thms if_True) (rule text_scan_position_mask)
    qed
  qed
  have block: "in_block 0 cs i j \<longleftrightarrow> 0 < i \<and> (\<forall>c \<in> set ?cols. \<not> (i \<le> c \<and> c < j)) \<and> (\<exists>c \<in> set ?cols. j \<le> c \<and> c \<noteq> 255)"
    if "i < j" for i j
    using in_block_iff [OF cs, of i j] that sets by (auto; force)
  moreover have "snd (text_masks specials ids) i = i - 1 - Max (insert 0 {c \<in> set ?cols. c < i})"
    if "0 < i" "c \<in> set ?cols" "i \<le> c" "c \<noteq> 255" for c
  proof -
    have "insert 0 {c \<in> set ?cols. c < i} = insert 0 {c \<in> set cs. c < i}" using sets by auto
    then show ?thesis
      using text_scan_position [OF cs(1) that(1) sets(3) [OF that(2)] that(3,4) cs(2)] that p [of "\<lambda>i j. True"] by auto
  qed
  ultimately show ?thesis using m in_block_sym [of 0 cs i j] by auto
qed

definition sample_ids :: "int list" where
  "sample_ids = [101, 7, 8, 102] @ replicate 252 0"

lemma sample_cols: "special_cols [101, 102] sample_ids = [0, 3]"
  by code_simp

theorem text_masks_segments_witness:
  "fst (text_masks [101, 102] sample_ids) 1 3 \<and> \<not> fst (text_masks [101, 102] sample_ids) 3 4 \<and>
   snd (text_masks [101, 102] sample_ids) 2 = 1"
proof -
  have len: "length sample_ids = 256" by (simp add: sample_ids_def)
  have "insert (0 :: nat) {c. (c = 0 \<or> c = 3) \<and> c < 2} = {0}" by auto
  then have "Max (insert (0 :: nat) {c. (c = 0 \<or> c = 3) \<and> c < 2}) = 0" by (simp only: Max_singleton)
  then show ?thesis
    using text_masks_segments [OF len, of "[101, 102]" 1 3] text_masks_segments [OF len, of "[101, 102]" 3 4]
      text_masks_segments [OF len, of "[101, 102]" 2 3]
    by (auto simp: sample_cols)
qed

end
