(* ===== verification/Turbovla_Vendor.thy ===== *)
theory Turbovla_Vendor
  imports Turbovla Endpoints Server
begin

text \<open>
  The TurboVLA backends on vendor hardware: the gateway of \<open>s600_remote.py\<close> (with its S100
  variant \<open>s100_remote.py\<close>) and the direct backend of \<open>s600_hbm.py\<close>.  The proxy and the
  engine come from modules loaded from a path and are parameters over a world \<open>'w\<close>.
\<close>

section \<open>Gateway\<close>

text \<open>The class attributes in which the hardware generations differ.\<close>

record identity =
  id_backend_name :: string
  id_default_model_name :: string
  id_default_hardware :: string

definition S600_REMOTE :: identity where
  "S600_REMOTE =
     \<lparr>id_backend_name = ''s600-hbm-remote'', id_default_model_name = ''TurboVLA-S600'', id_default_hardware = ''s600''\<rparr>"

definition S100_REMOTE :: identity where
  "S100_REMOTE =
     \<lparr>id_backend_name = ''s100-hbm-remote'', id_default_model_name = ''TurboVLA-S100'', id_default_hardware = ''s100''\<rparr>"

text \<open>\<open>{**config, "model_name": config.get("model_name", default)}\<close>\<close>

definition named_config :: "string \<Rightarrow> pydict \<Rightarrow> pydict" where
  "named_config default_name config = dput config ''model_name'' (dget_or config ''model_name'' (PStr default_name))"

text \<open>
  \<open>load\<close> executes the proxy's module, which gives the constructor of its policy: a function
  of the endpoint, the paths, the time-out, the statistics' key, the mode and the threshold.
\<close>

definition gateway_policy ::
    "(pyval \<Rightarrow> string) \<Rightarrow> (pyval \<Rightarrow> (string \<Rightarrow> int \<Rightarrow> pyval list \<Rightarrow> pyfloat \<Rightarrow> pyval \<Rightarrow> pyval \<Rightarrow> pyfloat \<Rightarrow> 'p res) res) \<Rightarrow>
     pydict \<Rightarrow> 'p res" where
  "gateway_policy show_val load config =
     res_bind (res_bind (ditem config ''proxy_script'') load) (\<lambda>make.
     res_bind (resolve_endpoint show_val (json_object config) 5702) (\<lambda>(host, port).
     res_bind (ditem config ''tokenizer'') (\<lambda>bert_path.
     res_bind (ditem config ''dino_preprocessor'') (\<lambda>dino.
     res_bind (py_float (dget_or config ''upstream_timeout'' (PFloat (Fin 120)))) (\<lambda>timeout.
     res_bind (ditem config ''stats'') (\<lambda>statistics.
     res_bind (py_float (dget_or config ''binary_threshold'' (PFloat (Fin (49 / 100))))) (\<lambda>threshold.
       make host port [bert_path, dino, statistics] timeout (dget_or config ''statistics_key'' (PStr ''new_embodiment''))
         (dget_or config ''normalization_mode'' (PStr ''min_max'')) threshold)))))))"

definition gateway_init ::
    "identity \<Rightarrow> (pyval \<Rightarrow> string) \<Rightarrow> (string \<Rightarrow> robot_contract res) \<Rightarrow>
     (pyval \<Rightarrow> (string \<Rightarrow> int \<Rightarrow> pyval list \<Rightarrow> pyfloat \<Rightarrow> pyval \<Rightarrow> pyval \<Rightarrow> pyfloat \<Rightarrow> 'p res) res) \<Rightarrow>
     pydict \<Rightarrow> ('p \<times> vb_config \<times> model_spec) res" where
  "gateway_init ident show_val robot_of load config =
     res_bind (gateway_policy show_val load config) (\<lambda>policy.
     res_bind (vb_config_from_mapping (dget_none config ''vision_batching'')) (\<lambda>vision.
     res_bind (turbovla_spec show_val robot_of (id_backend_name ident) (named_config (id_default_model_name ident) config)
                 100000000
                 [(''hardware'', PStr (py_str show_val (dget_or config ''hardware'' (PStr (id_default_hardware ident)))))])
       (\<lambda>spec. Ok (policy, vision, spec))))"

text \<open>
  A policy's answer: \<open>output["actions"]\<close> as an array, and \<open>output.get("latency_ms", {})\<close>.
\<close>

record 'w vendor_env =
  ve_predict :: "ndarray list \<Rightarrow> ndarray \<Rightarrow> string \<Rightarrow> 'w \<Rightarrow> 'w \<times> (ndarray \<times> pyval) res"
  ve_cast :: "dtype \<Rightarrow> ndarray \<Rightarrow> ndarray res"
  ve_show :: "pyval \<Rightarrow> string"

definition latency_timing :: "(pyval \<Rightarrow> string) \<Rightarrow> pyval \<Rightarrow> (string \<times> pyfloat) list res" where
  "latency_timing show_val v =
     (case v of
        PDict d \<Rightarrow>
          res_bind (mapM (\<lambda>(k, x). res_bind (py_float x) (\<lambda>f. Ok (py_str show_val k, f))) d) (\<lambda>kvs.
            Ok (foldl (\<lambda>t (k, f). timing_put k f t) [] kvs))
      | _ \<Rightarrow> Err (AttributeError ''items''))"

definition gateway_result ::
    "'w vendor_env \<Rightarrow> model_spec \<Rightarrow> ndarray \<times> pyval \<Rightarrow> backend_result res" where
  "gateway_result env spec output =
     res_bind (as_dtype (ve_cast env) DF32 (fst output)) (\<lambda>a.
     res_bind (validate_actions (ve_cast env) spec (if nd_shape a = [1, 50, 14] then a\<lparr>nd_shape := [50, 14]\<rparr> else a)) (\<lambda>actions.
     res_bind (latency_timing (ve_show env) (snd output)) (\<lambda>timing.
       Ok \<lparr>br_actions = actions, br_representation = ms_action_representation spec,
           br_control_period_ns = ms_control_period_ns spec, br_timing = timing\<rparr>)))"

definition gateway_infer ::
    "'w vendor_env \<Rightarrow> model_spec \<Rightarrow> infer_req \<Rightarrow> 'w \<Rightarrow> 'w \<times> backend_result res" where
  "gateway_infer env spec request w =
     (case res_bind (validate_request spec request) (\<lambda>_.
             res_bind (spec_images spec request) (\<lambda>images.
             res_bind (as_dtype (ve_cast env) DF32 (rq_state request)) (\<lambda>state. Ok (images, state)))) of
        Err e \<Rightarrow> (w, Err e)
      | Ok (images, state) \<Rightarrow>
          (case ve_predict env images state (rq_instruction request) w of
             (w', r) \<Rightarrow> (w', res_bind r (gateway_result env spec))))"

section \<open>Direct backend\<close>

record 'w engine_env =
  ee_normalize_state :: "ndarray \<Rightarrow> ndarray res"
  ee_resize :: "ndarray \<Rightarrow> ndarray res"
  ee_standardise :: "ndarray \<Rightarrow> ndarray res"
  ee_infer :: "ndarray \<Rightarrow> ndarray \<Rightarrow> string \<Rightarrow> 'w \<Rightarrow> 'w \<times> ndarray res"
  ee_denormalize :: "ndarray \<Rightarrow> ndarray res"
  ee_cast :: "dtype \<Rightarrow> ndarray \<Rightarrow> ndarray res"

definition input_color_ok :: "pyval \<Rightarrow> bool" where
  "input_color_ok v = List.member [PStr ''rgb'', PStr ''bgr''] v"

definition direct_init ::
    "(pyval \<Rightarrow> string) \<Rightarrow> (string \<Rightarrow> robot_contract res) \<Rightarrow> (pydict \<Rightarrow> 'e res) \<Rightarrow> pydict \<Rightarrow> ('e \<times> pyval \<times> model_spec) res" where
  "direct_init show_val robot_of engine config =
     res_bind (engine config) (\<lambda>e.
       let color = dget_or config ''input_color'' (PStr ''rgb'')
       in if \<not> input_color_ok color then Err (ValueError ''input_color must be rgb or bgr'')
          else res_bind (turbovla_spec show_val robot_of ''s600-hbm-direct'' (named_config ''TurboVLA-S600'' config) 50000000 [])
                 (\<lambda>spec. Ok (e, color, spec)))"

text \<open>
  One view: resized, channels first, scaled and standardised.  An image without a
  channel axis cannot be transposed.
\<close>

definition direct_view :: "'w engine_env \<Rightarrow> pyval \<Rightarrow> ndarray \<Rightarrow> ndarray res" where
  "direct_view env color img =
     res_bind (ee_resize env (if color = PStr ''bgr'' then reverse_channels img else img)) (\<lambda>v.
       if nd_ndim v \<noteq> 3 then Err (ValueError ''axes don't match array'')
       else res_bind (as_dtype (ee_cast env) DF32 v) (\<lambda>f. ee_standardise env (channels_first f)))"

definition direct_images :: "'w engine_env \<Rightarrow> pyval \<Rightarrow> model_spec \<Rightarrow> infer_req \<Rightarrow> ndarray res" where
  "direct_images env color spec request =
     res_bind (res_bind (spec_images spec request) (mapM (direct_view env color))) (\<lambda>vs.
       if vs = [] \<or> \<not> same_shapes vs then Err (ValueError ''all input arrays must have the same shape'')
       else let v = np_stack vs in Ok (v\<lparr>nd_shape := 1 # nd_shape v\<rparr>))"

definition direct_infer ::
    "'w engine_env \<Rightarrow> pyval \<Rightarrow> model_spec \<Rightarrow> infer_req \<Rightarrow> 'w \<Rightarrow> 'w \<times> backend_result res" where
  "direct_infer env color spec request w =
     (case res_bind (validate_request spec request) (\<lambda>_.
             res_bind (ee_normalize_state env (rq_state request)) (\<lambda>state.
             res_bind (direct_images env color spec request) (\<lambda>images. Ok (images, state)))) of
        Err e \<Rightarrow> (w, Err e)
      | Ok (images, state) \<Rightarrow>
          (case ee_infer env images state (rq_instruction request) w of
             (w', r) \<Rightarrow> (w', res_bind (res_bind r (ee_denormalize env)) (\<lambda>v.
                res_bind (validate_actions (ee_cast env) spec v) (\<lambda>actions.
                  Ok \<lparr>br_actions = actions, br_representation = ms_action_representation spec,
                      br_control_period_ns = ms_control_period_ns spec, br_timing = []\<rparr>)))))"

section \<open>Properties\<close>

text \<open>
  Whatever the vendor's code returns, a chunk that leaves the gateway or the direct
  backend is finite and has the announced shape; and where a request is refused, the
  vendor's code is not called.
\<close>

lemma gateway_chunk: "gateway_infer env spec request w = (w', Ok res) \<Longrightarrow> chunk_ok spec (br_actions res)"
  by (auto simp: gateway_infer_def gateway_result_def split: res.splits prod.splits dest: validate_actions_Ok)

lemma direct_chunk: "direct_infer env color spec request w = (w', Ok res) \<Longrightarrow> chunk_ok spec (br_actions res)"
  by (auto simp: direct_infer_def split: res.splits prod.splits dest: validate_actions_Ok)

lemma vendor_not_called:
  assumes "validate_request spec request = Err e"
  shows "gateway_infer env spec request w = (w, Err e)" "direct_infer env' color spec request w = (w, Err e)"
  using assms by (simp_all add: gateway_infer_def direct_infer_def)

text \<open>Both generations announce the same contract but for names: the protocol is shared.\<close>

lemma generations_agree:
  assumes "gateway_init S600_REMOTE show_val robot_of load config = Ok (p, v, spec)"
    and "gateway_init S100_REMOTE show_val robot_of load config = Ok (p', v', spec')"
  shows "p' = p \<and> v' = v \<and> ms_camera_order spec' = ms_camera_order spec \<and>
    ms_control_period_ns spec' = ms_control_period_ns spec \<and>
    ms_name spec' = (case dget config ''model_name'' of None \<Rightarrow> ''TurboVLA-S100'' | Some n \<Rightarrow> ms_name spec)"
proof -
  let ?c = "\<lambda>ident. named_config (id_default_model_name ident) config"
  from assms obtain ex ex' where
    pv: "p' = p" "v' = v" and
    s: "turbovla_spec show_val robot_of (id_backend_name S600_REMOTE) (?c S600_REMOTE) 100000000 ex = Ok spec" and
    s': "turbovla_spec show_val robot_of (id_backend_name S100_REMOTE) (?c S100_REMOTE) 100000000 ex' = Ok spec'"
    unfolding gateway_init_def by auto
  have get: "dget_or (?c ident) k d = dget_or config k d" if "k \<noteq> ''model_name''" for ident k d
    using that by (simp add: named_config_def dget_or_def dget_dput)
  have nm: "dget_or (?c ident) ''model_name'' d = dget_or config ''model_name'' (PStr (id_default_model_name ident))" for ident d
    by (simp add: named_config_def dget_or_def dget_dput)
  from turbovla_spec_fields(2,3) [OF s] turbovla_spec_fields(2,3) [OF s']
  have "ms_camera_order spec' = ms_camera_order spec" "ms_control_period_ns spec' = ms_control_period_ns spec"
    unfolding get [of "''camera_order''", simplified] get [of "''control_period_ns''", simplified] by simp_all
  moreover have "ms_name spec' = (case dget config ''model_name'' of None \<Rightarrow> ''TurboVLA-S100'' | Some n \<Rightarrow> ms_name spec)"
    using turbovla_spec_fields(1) [OF s] turbovla_spec_fields(1) [OF s']
    unfolding nm by (auto simp: dget_or_def py_str_def S100_REMOTE_def split: option.splits)
  ultimately show ?thesis using pv by simp
qed

end
