(* ===== verification/Xpolicylab.thy ===== *)
theory Xpolicylab
  imports Robotwin
begin

text \<open>
  The XPolicyLab plugin (\<open>integrations/xpolicylab/EmbodiedInfer/\<close>): the model that checks
  the server's dimensions and wraps the RoboTwin policy, and the evaluation loop of
  one episode.  The framework itself is not part of the repository.
\<close>

section \<open>Model\<close>

definition server_dimensions :: "pydict \<Rightarrow> int list res" where
  "server_dimensions metadata =
     mapM py_int
       [dget_or metadata ''raw_state_dim'' (PInt (- 1)),
        dget_or metadata ''model_state_dim'' (dget_or metadata ''state_dim'' (PInt (- 1))),
        dget_or metadata ''raw_action_dim'' (PInt (- 1)),
        dget_or metadata ''model_action_dim'' (dget_or metadata ''action_dim'' (PInt (- 1)))]"

definition expected_dimensions :: "robot_contract \<Rightarrow> int list" where
  "expected_dimensions c = [rc_raw_state_dim c, int (model_dim c), rc_raw_action_dim c, int (model_dim c)]"

record 'c xpl_model =
  xm_client :: "'c client"
  xm_adapter :: robotwin_adapter
  xm_policy :: policy

text \<open>The configuration's part of the constructor: the client, the adapter and the horizon.\<close>

definition xpl_settings ::
    "(pyval \<Rightarrow> string) \<Rightarrow> (string \<Rightarrow> string option) \<Rightarrow> pydict \<Rightarrow> ('c client \<times> robotwin_adapter \<times> int \<times> pyfloat) res" where
  "xpl_settings show_val getenv config =
     res_bind (py_int (dget_or config ''port'' (PInt 44091))) (\<lambda>port.
     res_bind (py_float (dget_or config ''timeout'' (PFloat (Fin 10)))) (\<lambda>timeout.
     res_bind (py_int (dget_or config ''exec_horizon'' (PInt 1))) (\<lambda>exec_horizon.
       if exec_horizon < 1 then Err (ValueError ''exec_horizon must be positive'')
       else Ok (client_init
                  (getenv (py_str show_val (dget_or config ''api_key_env'' (PStr ''EMBODIED_INFER_API_KEY'')))) (Fin 10) timeout,
                robotwin_adapter_init (py_str show_val (dget_or config ''default_instruction'' (PStr ''''))) DAZZ_S600_CONTRACT None,
                exec_horizon, timeout))))"

definition xpl_init ::
    "('c, 'w) client_env \<Rightarrow> (string \<Rightarrow> string option) \<Rightarrow> (string \<Rightarrow> robot_contract res) \<Rightarrow> pydict \<Rightarrow> 'w \<Rightarrow>
     'w \<times> 'c xpl_model res" where
  "xpl_init env getenv robot_of config w =
     (case xpl_settings (ce_show env) getenv config of
        Err e \<Rightarrow> (w, Err e)
      | Ok (cl, adapter, exec_horizon, timeout) \<Rightarrow>
          (case client_metadata env (cl, w) of
             (x, Err e) \<Rightarrow> (snd x, Err e)
           | (x, Ok metadata) \<Rightarrow>
               (snd x,
                res_bind (robot_of (py_str (ce_show env) (dget_or config ''robot'' (PStr ''dazz-s600'')))) (\<lambda>contract.
                res_bind (server_dimensions metadata) (\<lambda>dimensions.
                  if dimensions \<noteq> expected_dimensions contract
                  then Err (ValueError ''RoboTwin requires other raw/model dimensions'')
                  else res_bind (policy_init exec_horizon timeout) (\<lambda>p.
                    Ok \<lparr>xm_client = fst x, xm_adapter = adapter, xm_policy = p\<rparr>))))))"

definition update_obs_batch :: "obs list \<Rightarrow> policy \<Rightarrow> policy res" where
  "update_obs_batch obs_list p =
     (if length obs_list \<noteq> 1 then Err (ValueError ''EmbodiedInfer XPolicyLab plugin supports batch size 1'')
      else Ok (update_obs (hd obs_list) p))"

definition get_action_batch :: "('x, 'a) io \<Rightarrow> nat list \<Rightarrow> ('x, 'a list) io" where
  "get_action_batch get env_idx_list =
     (let indices = (if env_idx_list = [] then [0] else env_idx_list)
      in if length indices \<noteq> 1 then io_raise (ValueError ''EmbodiedInfer XPolicyLab plugin supports batch size 1'')
         else io_bind get (\<lambda>actions. io_return [actions]))"

section \<open>Evaluation of an episode\<close>

text \<open>The \<open>for\<close> loop over a chunk ends with the episode.\<close>

fun eval_chunk :: "('a, 'b, 'x) episode_ops \<Rightarrow> 'b list \<Rightarrow> ('x, unit) io" where
  "eval_chunk ops [] x = (x, Ok ())"
| "eval_chunk ops (a # rest) x =
     io_bind (eo_take ops a) (\<lambda>_ x'. if eo_end ops x' then (x', Ok ()) else eval_chunk ops rest x') x"

partial_function (option) eval_loop :: "('b, 'b, 'x) episode_ops \<Rightarrow> 'x \<Rightarrow> ('x \<times> unit res) option" where
  "eval_loop ops x =
     (if eo_end ops x then Some (x, Ok ())
      else case io_bind (eo_observe ops) (\<lambda>_. io_bind (eo_get_action ops) (eval_chunk ops)) x of
          (x1, Err e) \<Rightarrow> Some (x1, Err e)
        | (x1, Ok _) \<Rightarrow> eval_loop ops x1)"

definition eval_one_episode :: "('b, 'b, 'x) episode_ops \<Rightarrow> 'x \<Rightarrow> ('x \<times> unit res) option" where
  "eval_one_episode ops x =
     (case eo_policy_reset ops x of (x1, Err e) \<Rightarrow> Some (x1, Err e) | (x1, Ok _) \<Rightarrow> eval_loop ops x1)"

section \<open>Properties\<close>

text \<open>A model that was built talks to a server with the dimensions of the configured robot.\<close>

lemma xpl_dimensions:
  assumes "xpl_init env getenv robot_of config w = (w', Ok m)"
  shows "\<exists>contract. robot_of (py_str (ce_show env) (dget_or config ''robot'' (PStr ''dazz-s600''))) = Ok contract \<and>
    server_dimensions (cl_metadata (xm_client m)) = Ok (expected_dimensions contract) \<and> 0 < po_exec_horizon (xm_policy m)"
proof -
  have md: "metadata = cl_metadata (fst x)" if "client_metadata env y = (x, Ok metadata)" for x y metadata
    using that by (auto simp: client_metadata_def io_bind_eq_Ok)
  with assms show ?thesis
    by (auto simp: xpl_init_def policy_init_def split: res.splits prod.splits if_splits dest!: md)
qed

text \<open>
  The configured robot is used for this check only: the adapter translates with the
  default contract, so another robot's coordinates are read and written in its places.
\<close>

lemma xpl_ignores_robot:
  assumes "xpl_init env getenv robot_of config w = (w', Ok m)"
  shows "ra_contract (xm_adapter m) = DAZZ_S600_CONTRACT"
  using assms
  by (auto simp: xpl_init_def xpl_settings_def robotwin_adapter_init_def split: res.splits prod.splits if_splits)

text \<open>The evaluation of an episode ends where the environment counts down and chunks are not empty.\<close>

context countdown_episode
begin

lemma eval_chunk_counts:
  "eval_chunk ops' as x = (x', Ok ()) \<Longrightarrow> eo_take ops' = eo_take ops \<Longrightarrow> eo_end ops' = eo_end ops \<Longrightarrow> 0 < left x \<Longrightarrow>
    left x' \<le> left x \<and> (as \<noteq> [] \<longrightarrow> left x' < left x)"
proof (induction as arbitrary: x)
  case (Cons a as)
  then obtain x1 u where t: "eo_take ops a x = (x1, Ok u)"
    and k: "(if eo_end ops x1 then (x1, Ok ()) else eval_chunk ops' as x1) = (x', Ok ())"
    by (auto simp: io_bind_eq_Ok)
  have l: "left x = Suc (left x1)" using taking [OF t] Cons.prems(4) by simp
  show ?case
  proof (cases "eo_end ops x1")
    case True
    with k l show ?thesis by simp
  next
    case False
    then have "0 < left x1" by (simp add: end_iff)
    with Cons.IH [of x1] Cons.prems(2,3) k False l show ?thesis by simp
  qed
qed simp

end

lemma eval_loop_ends:
  assumes "countdown_episode ops left I"
    and act: "\<And>x x' as. eo_get_action ops x = (x', Ok as) \<Longrightarrow> as \<noteq> []"
  shows "\<exists>x' r. eval_loop ops x = Some (x', r) \<and> (r = Ok () \<longrightarrow> left x' = 0)"
proof (induction "left x" arbitrary: x rule: less_induct)
  case less
  note cd = countdown_episode.end_iff [OF assms(1)] countdown_episode.observe [OF assms(1)] countdown_episode.acting [OF assms(1)]
  show ?case
  proof (cases "left x = 0")
    case True
    then show ?thesis by (subst eval_loop.simps) (simp add: cd(1))
  next
    case False
    let ?m = "io_bind (eo_observe ops) (\<lambda>_. io_bind (eo_get_action ops) (eval_chunk ops)) x"
    obtain x1 r1 where a: "?m = (x1, r1)" by fastforce
    show ?thesis
    proof (cases r1)
      case (Err e)
      with a False show ?thesis by (subst eval_loop.simps) (simp add: cd(1))
    next
      case (Ok u)
      with a obtain y v z as where o: "eo_observe ops x = (y, Ok v)" and g: "eo_get_action ops y = (z, Ok as)"
        and c: "eval_chunk ops as z = (x1, Ok ())" by (auto simp: io_bind_eq_Ok)
      have "left z = left x" using cd(2) [OF o] cd(3) [OF g] by simp
      with countdown_episode.eval_chunk_counts [OF assms(1) c] act [OF g] False have "left x1 < left x" by simp
      from less [OF this] a Ok False show ?thesis by (subst eval_loop.simps) (simp add: cd(1))
    qed
  qed
qed

end
