(* ===== verification/Cli.thy ===== *)
theory Cli
  imports Endpoints Registry Client Scheduler
begin

text \<open>
  The start-up code: the \<open>doctor\<close> of \<open>cli.py\<close>, its loop that waits for a server, and
  the composition of backend, runner and scheduler in \<open>server.py\<close>.  Argument parsing and
  printing are left out; the file system, sockets, imports and the clock are
  parameters.
\<close>

section \<open>The doctor\<close>

definition DOCTOR_PROFILES :: "(string \<times> string \<times> string \<times> bool) list" where
  "DOCTOR_PROFILES =
     [(''mock'', ''mock'', ''mock.example.json'', False),
      (''orin'', ''turbovla-tensorrt'', ''orin-turbovla.example.json'', False),
      (''s600-remote'', ''turbovla-s600-remote'', ''s600-hbm-remote.example.json'', True),
      (''s600-direct'', ''turbovla-s600-hbm'', ''s600-hbm-direct.example.json'', True),
      (''s100'', ''turbovla-s100-remote'', ''s100-hbm-remote.example.json'', True),
      (''pi05'', ''pi05-remote'', ''pi05-remote.example.json'', True),
      (''pi05-cpp'', ''pi05-cpp'', ''pi05-cpp-orin.example.json'', True),
      (''pi05-hbm'', ''pi05-hbm'', ''pi05-hbm-s100.example.json'', False),
      (''pi05-tcp'', ''pi05-tcp'', ''pi05-tcp-orin.example.json'', True)]"

record doctor_env =
  de_version :: "int \<times> int"
  de_resolve :: "string \<Rightarrow> string"
  de_expand :: "string \<Rightarrow> string"
  de_read_json :: "string \<Rightarrow> pyval res"
  de_is_file :: "string \<Rightarrow> bool"
  de_exists :: "string \<Rightarrow> bool"
  de_connect :: "string \<Rightarrow> int \<Rightarrow> unit res"
  de_create_model :: "string \<Rightarrow> config \<Rightarrow> unit res"
  de_str :: "pyval \<Rightarrow> string"

record doctor_args =
  da_profile :: string
  da_config :: string
  da_server_host :: string
  da_server_port :: int

text \<open>\<open>ROOT / "config" / name\<close> unless a path is given.\<close>

definition config_path :: "doctor_env \<Rightarrow> string \<Rightarrow> string \<Rightarrow> string" where
  "config_path env value default_name = de_resolve env (if value \<noteq> [] then value else ''config/'' @ default_name)"

definition read_config :: "doctor_env \<Rightarrow> string \<Rightarrow> config res" where
  "read_config env path =
     (if \<not> de_is_file env path then Err (OtherError ''FileNotFoundError'')
      else res_bind (de_read_json env path) (\<lambda>value.
        case value of PDict d \<Rightarrow> Ok (json_object d) | _ \<Rightarrow> Err (ValueError ''config must be a JSON object'')))"

fun is_oserror :: "pyerr \<Rightarrow> bool" where
  "is_oserror (ConnectionError _) = True"
| "is_oserror (TimeoutError _) = True"
| "is_oserror (OtherError s) = (s = ''OSError'')"
| "is_oserror _ = False"

definition port_open :: "doctor_env \<Rightarrow> string \<Rightarrow> int \<Rightarrow> bool res" where
  "port_open env host port =
     (case de_connect env host port of Ok _ \<Rightarrow> Ok True | Err e \<Rightarrow> if is_oserror e then Ok False else Err e)"

definition service_name :: "string \<Rightarrow> string" where
  "service_name stem = (if stem \<noteq> [] then stem @ ''-service'' else ''service'')"

definition path_checks :: "doctor_env \<Rightarrow> config \<Rightarrow> (string \<times> bool) list" where
  "path_checks env config =
     map (\<lambda>key. (key, de_exists env (de_expand env (py_str (de_str env) (cget config key)))))
       (filter (\<lambda>key. map_of config key \<noteq> None) [''runtime_root'', ''engine'', ''tokenizer'', ''stats''])"

definition endpoint_checks :: "doctor_env \<Rightarrow> (string \<times> string \<times> int) list \<Rightarrow> (string \<times> bool) list res" where
  "endpoint_checks env endpoints =
     mapM (\<lambda>(stem, host, port). res_bind (port_open env host port) (\<lambda>ok. Ok (service_name stem, ok))) endpoints"

definition server_checks :: "doctor_env \<Rightarrow> doctor_args \<Rightarrow> (string \<times> bool) list res" where
  "server_checks env args =
     (if da_server_host args = [] then Ok []
      else res_bind (port_open env (da_server_host args) (da_server_port args)) (\<lambda>ok. Ok [(''inference-service'', ok)]))"

definition python_ok :: "int \<times> int \<Rightarrow> bool" where
  "python_ok v = (3 < fst v \<or> fst v = 3 \<and> 10 \<le> snd v)"

text \<open>The checks in order; a configuration that cannot be read counts as empty.\<close>

definition doctor_checks :: "doctor_env \<Rightarrow> doctor_args \<Rightarrow> (string \<times> bool) list res" where
  "doctor_checks env args =
     (case map_of DOCTOR_PROFILES (da_profile args) of
        None \<Rightarrow> Err (KeyError (da_profile args))
      | Some (model_name, default_config, needs_service) \<Rightarrow>
          let read = read_config env (config_path env (da_config args) default_config);
              config = (case read of Ok c \<Rightarrow> c | Err _ \<Rightarrow> [])
          in res_bind (discover_endpoints (de_str env) config) (\<lambda>endpoints.
             res_bind (endpoint_checks env endpoints) (\<lambda>services.
             res_bind (server_checks env args) (\<lambda>server.
               Ok ((''python'', python_ok (de_version env)) #
                   (''config'', is_ok read) # path_checks env config @ services @
                   (if needs_service \<and> endpoints = [] then [(''service'', False)] else []) @ server @
                   [(''backend'', is_ok (de_create_model env model_name config) \<or> da_profile args = ''mock'')])))))"

definition doctor :: "doctor_env \<Rightarrow> doctor_args \<Rightarrow> int res" where
  "doctor env args = res_bind (doctor_checks env args) (\<lambda>checks. Ok (if list_all snd checks then 0 else 1))"

section \<open>Waiting for a server\<close>

text \<open>
  \<open>_wait_client\<close>: attempt \<open>n\<close> reads the clock first, and connects with a client of its
  own; a client that fails is closed.
\<close>

partial_function (option) wait_loop ::
    "('c, 'w) client_env \<Rightarrow> (nat \<Rightarrow> real) \<Rightarrow> real \<Rightarrow> nat \<Rightarrow> 'w \<Rightarrow> ('w \<times> 'c client res) option" where
  "wait_loop env clk deadline n w =
     (if \<not> clk n < deadline then Some (w, Err (RuntimeError ''inference server did not become ready''))
      else (case client_metadata env (client_init None (Fin 10) (Fin 2), w) of
              (x, Ok _) \<Rightarrow> Some (snd x, Ok (fst x))
            | (x, Err e) \<Rightarrow> wait_loop env clk deadline (Suc n) (snd (fst (client_close env x)))))"

definition wait_client ::
    "('c, 'w) client_env \<Rightarrow> (nat \<Rightarrow> real) \<Rightarrow> real \<Rightarrow> 'w \<Rightarrow> ('w \<times> 'c client res) option" where
  "wait_client env clk timeout w = wait_loop env clk (clk 0 + timeout) 1 w"

section \<open>Composition of a server\<close>

definition load_factory :: "(string \<Rightarrow> string \<Rightarrow> 'f imported res) \<Rightarrow> string \<Rightarrow> 'f res" where
  "load_factory load spec =
     (if CHR '':'' \<notin> set spec then Err (ValueError ''backend factory must use module:callable syntax'')
      else case split_colon spec of (module_name, attribute) \<Rightarrow>
        (case load module_name attribute of
           Err e \<Rightarrow> Err e
         | Ok NotCallable \<Rightarrow> Err (TypeError ''backend factory is not callable'')
         | Ok (Callable f) \<Rightarrow> Ok f))"

text \<open>
  The runner: the backend's own, from \<open>create_runner\<close> where it has that method (which may
  return \<open>None\<close>), or a sequential one.  \<open>InferenceScheduler\<close> refuses an object without \<open>execute\<close>.
\<close>

definition server_runner :: "'r \<Rightarrow> 'r option res option \<Rightarrow> 'r option res" where
  "server_runner sequential create_runner =
     (case create_runner of Some made \<Rightarrow> made | None \<Rightarrow> Ok (Some sequential))"

definition server_scheduler ::
    "'r \<Rightarrow> 'r option res option \<Rightarrow> pydict \<Rightarrow> ('r \<times> batch_policy) option res" where
  "server_scheduler sequential create_runner config =
     (let batching = dget_none config ''request_batching''
      in if \<not> py_bool batching then Ok None
         else (case batching of
                 PDict d \<Rightarrow>
                   if \<not> py_bool (dget_none d ''enabled'') then Ok None
                   else res_bind (server_runner sequential create_runner) (\<lambda>runner.
                        res_bind (batch_policy_from_mapping batching) (\<lambda>policy.
                          case runner of
                            None \<Rightarrow> Err (TypeError ''scheduler runner must expose execute(batch)'')
                          | Some r \<Rightarrow> Ok (Some (r, policy))))
               | _ \<Rightarrow> Err (AttributeError ''get'')))"

record server_args =
  sa_model :: string
  sa_backend_factory :: string

text \<open>From the configuration to the backend and its scheduler; \<open>create\<close> is \<open>create_model\<close>.\<close>

definition server_setup ::
    "(string \<Rightarrow> string \<Rightarrow> (pydict \<Rightarrow> 'b res) imported res) \<Rightarrow> (string \<Rightarrow> pydict \<Rightarrow> 'b res) \<Rightarrow> ('b \<Rightarrow> 'r) \<Rightarrow>
     ('b \<Rightarrow> 'r option res option) \<Rightarrow> server_args \<Rightarrow> pydict \<Rightarrow> ('b \<times> ('r \<times> batch_policy) option) res" where
  "server_setup load create sequential create_runner args config =
     res_bind (if sa_backend_factory args \<noteq> []
               then res_bind (load_factory load (sa_backend_factory args)) (\<lambda>f. f config)
               else create (if sa_model args \<noteq> [] then sa_model args else ''turbovla-tensorrt'') config) (\<lambda>backend.
     res_bind (server_scheduler (sequential backend) (create_runner backend) config) (\<lambda>scheduler.
       Ok (backend, scheduler)))"

section \<open>Properties\<close>

definition reachable :: "doctor_env \<Rightarrow> string \<times> string \<times> int \<Rightarrow> bool" where
  "reachable env e = is_ok (de_connect env (fst (snd e)) (snd (snd e)))"

definition readiness ::
    "doctor_env \<Rightarrow> doctor_args \<Rightarrow> string \<Rightarrow> bool \<Rightarrow> config \<Rightarrow> (string \<times> string \<times> int) list \<Rightarrow> bool" where
  "readiness env args model_name needs_service config endpoints =
     (python_ok (de_version env) \<and> discover_endpoints (de_str env) config = Ok endpoints \<and>
      list_all (reachable env) endpoints \<and> (endpoints \<noteq> [] \<or> \<not> needs_service) \<and>
      (da_server_host args = [] \<or> is_ok (de_connect env (da_server_host args) (da_server_port args))) \<and>
      list_all snd (path_checks env config) \<and>
      (is_ok (de_create_model env model_name config) \<or> da_profile args = ''mock''))"

lemma port_open_True: "port_open env host port = Ok True \<longleftrightarrow> is_ok (de_connect env host port)"
  by (auto simp: port_open_def is_ok_iff split: res.splits if_splits)

lemma endpoint_checks_pass:
  "(\<exists>cs. endpoint_checks env es = Ok cs \<and> list_all snd cs) \<longleftrightarrow> list_all (reachable env) es"
proof (induction es)
  case (Cons e es)
  show ?case
  proof (cases "port_open env (fst (snd e)) (snd (snd e))")
    case (Err err)
    then have "\<not> reachable env e" using port_open_True [of env "fst (snd e)" "snd (snd e)"] by (simp add: reachable_def)
    with Err show ?thesis by (simp add: endpoint_checks_def split_beta)
  next
    case (Ok ok)
    then have "reachable env e = ok" using port_open_True [of env "fst (snd e)" "snd (snd e)"] by (cases ok) (auto simp: reachable_def)
    with Ok Cons.IH show ?thesis by (auto simp: endpoint_checks_def split_beta split: res.splits)
  qed
qed (simp add: endpoint_checks_def)

lemma server_checks_pass:
  "(\<exists>cs. server_checks env args = Ok cs \<and> list_all snd cs) \<longleftrightarrow>
     da_server_host args = [] \<or> is_ok (de_connect env (da_server_host args) (da_server_port args))"
  using port_open_True [of env "da_server_host args" "da_server_port args"]
  by (cases "port_open env (da_server_host args) (da_server_port args)") (auto simp: server_checks_def)

text \<open>
  The doctor reports success exactly when the deployment is ready: the interpreter is
  recent, the configuration can be read, the files it names exist, its endpoints (at
  least one where the profile needs a service) and the server accept connections, and
  the backend can be built.  For the mock profile the last condition is waived.
\<close>

theorem doctor_ready:
  "doctor env args = Ok 0 \<longleftrightarrow>
     (\<exists>model_name default_config needs_service config endpoints.
        map_of DOCTOR_PROFILES (da_profile args) = Some (model_name, default_config, needs_service) \<and>
        read_config env (config_path env (da_config args) default_config) = Ok config \<and>
        readiness env args model_name needs_service config endpoints)"
proof (cases "map_of DOCTOR_PROFILES (da_profile args)")
  case None
  then show ?thesis by (simp add: doctor_def doctor_checks_def)
next
  case (Some p)
  obtain model_name default_config needs_service where p: "p = (model_name, default_config, needs_service)"
    by (cases p) auto
  let ?read = "read_config env (config_path env (da_config args) default_config)"
  show ?thesis
  proof (cases ?read)
    case (Err e)
    with Some p show ?thesis by (auto simp: doctor_def doctor_checks_def Let_def split: if_splits)
  next
    case (Ok config)
    have "doctor env args = Ok 0 \<longleftrightarrow>
        (\<exists>endpoints. readiness env args model_name needs_service config endpoints)"
    proof (cases "discover_endpoints (de_str env) config")
      case (Err e)
      with Some p Ok show ?thesis by (simp add: doctor_def doctor_checks_def readiness_def)
    next
      case es: (Ok es)
      note pass = endpoint_checks_pass [of env es] server_checks_pass [of env args]
      show ?thesis
        using Some p Ok es pass
        by (cases "endpoint_checks env es"; cases "server_checks env args")
          (auto simp: doctor_def doctor_checks_def readiness_def split: if_splits)
    qed
    with Some p Ok show ?thesis by simp
  qed
qed

text \<open>
  A port that is not a number ends the doctor with an exception instead of a failed
  check, whatever the other checks would have shown.
\<close>

lemma doctor_bad_port:
  assumes "map_of DOCTOR_PROFILES (da_profile args) = Some (model_name, default_config, needs_service)"
    and "read_config env (config_path env (da_config args) default_config) = Ok config"
    and "discover_endpoints (de_str env) config = Err e"
  shows "doctor env args = Err e"
  using assms by (simp add: doctor_def doctor_checks_def)

text \<open>A client that was handed its metadata is connected.\<close>

lemma client_metadata_connected:
  assumes "client_metadata env x = (x', Ok md)"
  shows "cl_connection (fst x') \<noteq> None"
proof -
  from assms obtain u where e: "ensure_connected env x = (x', Ok u)"
    by (auto simp: client_metadata_def io_bind_eq_Ok)
  show ?thesis
  proof (cases "cl_connection (fst x)")
    case None
    with e obtain x1 x2 hello where
      o: "open_connection env x = (x1, Ok ())" and r: "\<exists>raw. conn_recv env (cl_open_timeout (fst x)) x1 = (x2, Ok raw)"
      and h: "accept_hello env hello x2 = (x', Ok u)"
      by (auto simp: ensure_connected_def io_bind_eq_Ok io_run)
    from o have "cl_connection (fst x1) \<noteq> None" by (auto simp: open_connection_def split: prod.splits res.splits)
    with r have "cl_connection (fst x2) \<noteq> None" by (auto simp: conn_recv_def on_world_def split: option.splits prod.splits)
    with h show ?thesis by (auto simp: accept_hello_def split: pyval.splits if_splits)
  next
    case (Some c)
    with e show ?thesis by (simp add: ensure_connected_def)
  qed
qed

text \<open>
  Waiting for a server ends, and well: with a clock that moves on by the pause between
  two attempts, \<open>_wait_client\<close> returns, and what it returns is a connected client or the
  exception that names the time-out.
\<close>

lemma wait_loop_returns:
  assumes "\<And>k. n \<le> k \<Longrightarrow> clk k + 3 / 20 \<le> clk (Suc k)" and "deadline - clk n < real m * (3 / 20)"
  shows "\<exists>w' r. wait_loop env clk deadline n w = Some (w', r) \<and>
    (case r of Ok cl \<Rightarrow> cl_connection cl \<noteq> None | Err e \<Rightarrow> e = RuntimeError ''inference server did not become ready'')"
  using assms
proof (induction m arbitrary: n w)
  case 0
  then show ?case by (subst wait_loop.simps) simp
next
  case (Suc m)
  obtain x r where c: "client_metadata env (client_init None (Fin 10) (Fin 2), w) = (x, r)" by fastforce
  show ?case
  proof (cases r)
    case (Ok md)
    with c client_metadata_connected [OF c [unfolded Ok]] show ?thesis by (subst wait_loop.simps) simp
  next
    case (Err e)
    have "deadline - clk (Suc n) < real m * (3 / 20)" using Suc.prems(1) [of n] Suc.prems(2) by (simp add: algebra_simps)
    with Suc.IH [of "Suc n" "snd (fst (client_close env x))"] Suc.prems(1) c Err show ?thesis
      by (subst wait_loop.simps) auto
  qed
qed

theorem wait_client_returns:
  assumes "\<And>k. 0 < k \<Longrightarrow> clk k + 3 / 20 \<le> clk (Suc k)"
  shows "\<exists>w' r. wait_client env clk timeout w = Some (w', r) \<and>
    (case r of Ok cl \<Rightarrow> cl_connection cl \<noteq> None | Err e \<Rightarrow> e = RuntimeError ''inference server did not become ready'')"
proof -
  obtain m where "(clk 0 + timeout - clk 1) / (3 / 20) < real m" using reals_Archimedean2 by blast
  then have "clk 0 + timeout - clk 1 < real m * (3 / 20)" by (simp add: field_simps)
  with assms show ?thesis unfolding wait_client_def by (intro wait_loop_returns) auto
qed

text \<open>
  A backend whose \<open>create_runner\<close> returns \<open>None\<close>, as a TurboVLA backend without split
  engines does, cannot be served with request batching: instead of the sequential
  runner, start-up ends with \<open>TypeError\<close>.
\<close>

lemma unsplit_backend_not_served:
  assumes "dget config ''request_batching'' = Some (PDict d)" and "dget d ''enabled'' = Some (PBool True)"
    and "batch_policy_from_mapping (PDict d) = Ok policy"
  shows "server_scheduler sequential (Some (Ok None)) config = Err (TypeError ''scheduler runner must expose execute(batch)'')"
    and "server_scheduler sequential None config = Ok (Some (sequential, policy))"
proof -
  have "d \<noteq> []" using assms(2) by auto
  with assms show "server_scheduler sequential (Some (Ok None)) config = Err (TypeError ''scheduler runner must expose execute(batch)'')"
    "server_scheduler sequential None config = Ok (Some (sequential, policy))"
    by (simp_all add: server_scheduler_def server_runner_def dget_none_def Let_def del: batch_policy_from_mapping.simps)
qed

end
