(* ===== verification/Spec2Isabelle.thy ===== *)
theory Spec2Isabelle
  imports Protocol Scheduler_Props S600_Clamp Vision_Token_Cache Throttle Token_Merge Registry Endpoints
    Mock_Model Deployment Robotwin Micro_Pipeline Vision_Batch Action_Quant Pi05_Tcp Pi05_Remote_Props
    Pi05_Cpp Pi05_Hbm Attention_Props Trt_Engine Turbovla_Props Turbovla_Norm Turbovla_Text Turbovla_Vendor Xpolicylab Cli
begin

text \<open>
  A verification development of embodied-infer, a deployment library that serves
  vision-language-action models to robots (\<open>src/python/embodied_infer_deploy/\<close>, here
  abbreviated to file names below that directory).

  \<^bold>\<open>The program.\<close>  A robot or a simulator holds an \<open>InferenceClient\<close> (\<open>client.py\<close>), which
  sends a request with camera images, a state and an instruction over a WebSocket.
  An \<open>InferenceServer\<close> (\<open>server.py\<close>) checks the request against the wire protocol
  (\<open>protocol.py\<close>), hands it to a model backend, directly or through the batching
  scheduler (\<open>core/scheduler.py\<close>), checks the chunk of actions that comes back and
  answers.  Adapters (\<open>adapters/s600.py\<close>, \<open>simulators/robotwin/\<close>) translate between the
  raw vectors of a robot (\<open>robots/\<close>) and the coordinates of the model, and clamp what
  goes to the motors.  Backends are a mock model, the TurboVLA policies and the
  gateways to Pi0.5 servers (\<open>models/\<close>); they are built from action heads
  (\<open>action_heads/\<close>) and acceleration plugins (\<open>plugins/\<close>), and are found by name in
  registries.

  \<^bold>\<open>Theories, in the order of the code.\<close>
  \<^item> \<open>EI_Prelude\<close>: Python values, dictionaries, exceptions (\<open>pyerr\<close>, results \<open>'a res\<close>),
    conversions \<open>int()\<close>, \<open>float()\<close>, \<open>str()\<close>, floats with NaN and infinities; the lemmas all
    theories share.  \<open>Tensors\<close>: arrays as type, shape and bytes, \<open>float32\<close> as 32-bit words.
    \<open>Real_Tensors\<close>: tensors of real numbers and NumPy's broadcasting.
  \<^item> \<open>Contracts\<close> (\<open>core/contracts.py\<close>, \<open>request.py\<close>, \<open>runner.py\<close>): \<open>ModelSpec\<close>, the checks of
    requests and chunks, the sequential runner, and the locale \<open>request_runner\<close>, the
    contract between the scheduler and a runner.
  \<^item> \<open>Protocol\<close> (\<open>protocol.py\<close>): messages, tensors, limits; \<open>Framing\<close>: the length-prefixed
    frames of the same file.
  \<^item> \<open>Scheduler\<close>, \<open>Scheduler_Props\<close> (\<open>core/scheduler.py\<close>): queue, worker and futures as
    interleaved atomic steps.
  \<^item> \<open>Server\<close>, \<open>Client\<close>, \<open>Deployment\<close>: the connection handler, the client over an arbitrary
    transport, and the two put together.
  \<^item> \<open>Robots\<close> (\<open>robots/dazz_s600.py\<close>), \<open>S600_Clamp\<close> (\<open>adapters/s600.py\<close>), \<open>Images\<close>
    (\<open>images.py\<close>), \<open>Robotwin\<close> (\<open>simulators/\<close>): raw vectors, clamping, image layouts, the
    closed loop with the demo environment.  \<open>Registry\<close> and \<open>Endpoints\<close>: names and hosts.
  \<^item> \<open>Ordered_Dict\<close>, \<open>Prefix_Cache\<close>, \<open>Vision_Token_Cache\<close>, \<open>Throttle\<close> (with the cascade),
    \<open>Token_Merge\<close>, \<open>Micro_Pipeline\<close>, \<open>Vision_Batch\<close>, \<open>Action_Quant\<close>, \<open>Fused_Ops\<close>,
    \<open>Attention_Props\<close>: the plugins, with the locale of a bounded ordered dictionary that
    both caches use.
  \<^item> \<open>Action_Heads\<close>, \<open>Action_Head_Props\<close>, \<open>Mock_Model\<close>: the four heads, the pipeline and the
    mock backend.
  \<^item> \<open>Trt_Engine\<close>, \<open>Turbovla_Text\<close>, \<open>Turbovla_Norm\<close>, \<open>Turbovla\<close>, \<open>Turbovla_Props\<close>
    (\<open>models/turbovla/split_tensorrt.py\<close>, \<open>tensorrt.py\<close>, \<open>runner.py\<close>, \<open>common.py\<close>): the split
    TurboVLA policy, its backend and its runner.  \<open>Turbovla_Vendor\<close> (\<open>s600_remote.py\<close>,
    \<open>s100_remote.py\<close>, \<open>s600_hbm.py\<close>): the backends on vendor hardware.
  \<^item> \<open>Pi05_Tcp\<close> (\<open>models/pi05/tcp.py\<close>, \<open>common.py\<close>), \<open>Pi05_Remote\<close>, \<open>Pi05_Remote_Props\<close>
    (\<open>remote.py\<close>), \<open>Pi05_Cpp\<close> (\<open>cpp.py\<close>), \<open>Pi05_Hbm\<close> (\<open>hbm.py\<close>): the gateways to Pi0.5 servers
    over sockets, a WebSocket with the locale \<open>prompt_link\<close>, and a REQ socket, and the HBM
    loader.
  \<^item> \<open>Cli\<close> (\<open>cli.py\<close>, \<open>server.py\<close>): the doctor, waiting for a server, and the composition of
    backend, runner and scheduler.  \<open>Xpolicylab\<close> (\<open>src/integrations/xpolicylab/\<close>): the
    evaluation plugin.

  \<^bold>\<open>How code becomes definitions.\<close>  A method is a function from arguments and state (a
  record per class, with the attributes as fields) to the new state and a result; an
  exception is a value \<open>Err e\<close> that keeps its class, and every \<open>raise\<close> and early return is
  a branch.  Where threads meet, the sections between two lock or queue operations
  are separate steps and an inductive reachability relation interleaves them.
  Code that is not in the repository is a parameter: msgpack and JSON (codecs), the
  transport and the sockets, the clock, SHA-256, casts and \<open>tanh\<close> of NumPy, OpenCV and
  Pillow, PyTorch, TensorRT, tokenizers, dynamic imports.  What a theorem needs of such
  code is a hypothesis (for instance \<open>inverse_codec\<close>, \<open>torch_documented\<close>), and a witness
  instantiates it.  Integers are unbounded where Python's are and words where the
  bytes matter.  Data that only passes through is kept to the byte; arithmetic on
  \<open>float32\<close> is either a parameter, or exact real arithmetic where the theory says so
  (\<open>Real_Tensors\<close> and its clients, the clamp's bounds).

  \<^bold>\<open>What the lemmas show.\<close>  End to end: what a client receives is what the backend computed
  for the request the caller meant.  Protocol: round trips to the byte, and whatever
  bytes arrive, a parsed request obeys every limit.  Scheduler: in every interleaving,
  routing, order, accounting, bounds, deadlines, futures resolved once, and the queue
  drains.  Server: one reply per payload, the backend sees checked requests only, replies
  carry checked chunks.  Robots: the model's coordinates and the raw vector form a lens,
  the clamp keeps the step limit, episodes end.  Plugins: caches and pipelines are
  transparent, staleness, sizes and errors are bounded, native kernels agree with their
  reference.  Heads: decoding ends within its bounds and chunks are valid.  TurboVLA:
  masks follow the segments, normalisation is inverted, a session of one shape is
  exact, a batch gives each request what it would get alone.  Gateways: exact against
  an honest peer, safe against any; messages with arrays survive the wire.  Start-up:
  the doctor reports success exactly when the deployment is ready, and waiting ends.
  A few lemmas show defects: requests stranded by \<open>close\<close>, a worker ended by a
  cancellation, a merge loop that does not end, stale bindings after a change of the
  batch size, packed weights that miss an update, causal masks that are aligned
  differently, a late greeting that shifts a session by one answer, a command whose
  columns reach the wrong joints, a time-out that wedges a socket.

  \<^bold>\<open>Termination and fuel.\<close>  Loops over data are structural recursion; \<open>while\<close> loops whose end
  depends on the data (\<open>Token_Merge\<close>, the receive loop) are \<open>partial_function (option)\<close> or
  recursion over what the network will deliver, and that they return is a theorem.
  Worker loops are step relations, and progress is stated with a measure.  Fuel is
  used where an episode loop asks an environment whether it has ended; the bound is
  the number of steps the environment promises, which is proved to be enough.

  \<^bold>\<open>Not modelled.\<close>  Argument parsing, printing, subprocesses and smoke tests (the rest of
  \<open>cli.py\<close>, \<open>smoke.py\<close>, of \<open>server.py\<close> and of \<open>simulators/robotwin/cli.py\<close>); files and
  dynamic libraries (loading of engines, statistics, tokenizers; the code of vendor
  modules that are given by path); the batched evaluation of the XPolicyLab plugin;
  the Pi0.5 HBM inference, which the source does not implement;
  benchmarks and model conversion under \<open>src/scripts/\<close>; package files that only
  re-export.  Within the modelled parts: rounding of \<open>float32\<close>; a scheduler wait time
  that is not finite; broadcasting of \<open>addmm\<close> biases of other lengths in PyTorch; log output.
\<close>

end
